(* ===== verification/Prelude.thy ===== *)
theory Prelude
  imports Main
begin

text \<open>
  Shared vocabulary of the development.

  A C++ function of the repository is translated to a function into \<open>'a res\<close>.  The outer
  option says whether control comes back at all (\<open>Hang\<close>: a loop that never ends, or a lock that
  is never granted); the sum says whether it comes back with a value (\<open>Ret\<close>) or with a run-time
  fault (\<open>Fail\<close>): an assertion that fails, an access outside an object, a null pointer that is
  used, an integer that leaves its type, an indeterminate value that is read, \<open>exit\<close>, or a signal.
\<close>

section \<open>Outcomes\<close>

datatype fault =
    AssertFail        \<comment> \<open>\<open>assert\<close> aborts the process\<close>
  | OutOfBounds       \<comment> \<open>a read or a write outside an object\<close>
  | NullDeref         \<comment> \<open>a null pointer is used\<close>
  | IntOverflow       \<comment> \<open>a value that its integer type cannot hold\<close>
  | Uninit            \<comment> \<open>an indeterminate value is read\<close>
  | ExitCall int      \<comment> \<open>the process calls \<open>exit\<close>\<close>
  | Killed            \<comment> \<open>a signal ends the process\<close>
  | DoubleFree        \<comment> \<open>memory that is freed twice\<close>

type_synonym 'a res = "(fault + 'a) option"

abbreviation Ret :: "'a \<Rightarrow> 'a res" where "Ret x \<equiv> Some (Inr x)"
abbreviation Fail :: "fault \<Rightarrow> 'a res" where "Fail e \<equiv> Some (Inl e)"
abbreviation Hang :: "'a res" where "Hang \<equiv> None"

definition bindR :: "'a res \<Rightarrow> ('a \<Rightarrow> 'b res) \<Rightarrow> 'b res" where
  "bindR m f = (case m of None \<Rightarrow> None | Some (Inl e) \<Rightarrow> Some (Inl e) | Some (Inr x) \<Rightarrow> f x)"

named_theorems res_simps \<open>equations and inversions of outcomes\<close>
named_theorems buf_simps \<open>what the C string functions do on a zero-padded buffer\<close>

lemma bindR_Ret [simp, res_simps]: "bindR (Ret x) f = f x"
  by (simp add: bindR_def)

lemma bindR_Fail [simp, res_simps]: "bindR (Fail e) f = Fail e"
  by (simp add: bindR_def)

lemma bindR_Hang [simp, res_simps]: "bindR Hang f = Hang"
  by (simp add: bindR_def)

lemma bindR_eq_Ret: "bindR m f = Ret y \<longleftrightarrow> (\<exists>x. m = Ret x \<and> f x = Ret y)"
  by (auto simp: bindR_def split: option.splits sum.splits)

lemma bindR_eq_Hang: "bindR m f = Hang \<longleftrightarrow> m = Hang \<or> (\<exists>x. m = Ret x \<and> f x = Hang)"
  by (auto simp: bindR_def split: option.splits sum.splits)

lemma bindR_eq_Fail: "bindR m f = Fail e \<longleftrightarrow> m = Fail e \<or> (\<exists>x. m = Ret x \<and> f x = Fail e)"
  by (auto simp: bindR_def split: option.splits sum.splits)

lemma bindR_Ret_right: "bindR m Ret = m"
  by (auto simp: bindR_def split: option.splits sum.splits)

lemma bindR_assoc: "bindR (bindR m f) g = bindR m (\<lambda>x. bindR (f x) g)"
  by (auto simp: bindR_def split: option.splits sum.splits)

lemma bindR_RetE [elim!]:
  assumes "bindR m f = Ret y"
  obtains x where "m = Ret x" and "f x = Ret y"
  using assms by (auto simp: bindR_eq_Ret)

lemma bindR_mono [partial_function_mono]:
  fixes C :: "'a \<Rightarrow> ('f \<Rightarrow> 'e option) \<Rightarrow> 'b res"
  assumes "\<And>x. mono_option (\<lambda>f. C x f)"
  shows "mono_option (\<lambda>f. bindR m (\<lambda>x. C x f))"
proof (rule monotoneI)
  fix f g :: "'f \<Rightarrow> 'e option"
  assume fg: "fun_ord option_ord f g"
  have step: "option_ord (C x f) (C x g)" for x
    using assms [of x] fg by (auto simp: monotone_on_def)
  show "option_ord (bindR m (\<lambda>x. C x f)) (bindR m (\<lambda>x. C x g))"
    using step by (auto simp: bindR_def flat_ord_def split: option.splits sum.splits)
qed

definition no_hang :: "'a res \<Rightarrow> bool" where
  "no_hang m \<longleftrightarrow> m \<noteq> Hang"

lemma no_hang_simps [simp, res_simps]: "no_hang (Ret x)" "no_hang (Fail e)" "\<not> no_hang Hang"
  by (simp_all add: no_hang_def)

named_theorems hang_intros \<open>computations that come to an end\<close>

lemma no_hang_Ret [hang_intros]: "no_hang (Ret x)" and no_hang_Fail [hang_intros]: "no_hang (Fail e)"
  by simp_all

lemma no_hang_if [hang_intros]: "no_hang m \<Longrightarrow> no_hang n \<Longrightarrow> no_hang (if b then m else n)"
  by simp

lemma no_hang_prod [hang_intros]: "(\<And>a b. no_hang (f a b)) \<Longrightarrow> no_hang (case r of (a, b) \<Rightarrow> f a b)"
  by (cases r) simp

lemma no_hang_bindR [hang_intros]: "no_hang m \<Longrightarrow> (\<And>x. no_hang (f x)) \<Longrightarrow> no_hang (bindR m f)"
  by (auto simp: no_hang_def bindR_eq_Hang)

section \<open>The ranges of the C integer types\<close>

definition INT_MAX :: int where "INT_MAX = 2147483647"
definition INT_MIN :: int where "INT_MIN = - 2147483648"

definition to_int32 :: "int \<Rightarrow> int res" where
  "to_int32 k = (if INT_MIN \<le> k \<and> k \<le> INT_MAX then Ret k else Fail IntOverflow)"

lemma to_int32_ok [simp]: "INT_MIN \<le> k \<Longrightarrow> k \<le> INT_MAX \<Longrightarrow> to_int32 k = Ret k"
  by (simp add: to_int32_def)

lemma to_int32_Ret: "to_int32 k = Ret n \<longleftrightarrow> n = k \<and> INT_MIN \<le> k \<and> k \<le> INT_MAX"
  by (auto simp: to_int32_def)

lemma no_hang_to_int32 [simp, hang_intros]: "no_hang (to_int32 k)"
  by (simp add: to_int32_def)

lemma radix: "0 \<le> (s::int) \<Longrightarrow> s < b \<Longrightarrow> (m * b + s) mod b = s \<and> (m * b + s) div b = m"
  by simp

section \<open>Lists\<close>

lemma takeWhile_append_stop [simp]:
  "\<forall>x\<in>set xs. P x \<Longrightarrow> \<not> P y \<Longrightarrow> takeWhile P (xs @ y # ys) = xs"
  by (induction xs) auto

lemma dropWhile_append_stop [simp]:
  "\<forall>x\<in>set xs. P x \<Longrightarrow> \<not> P y \<Longrightarrow> dropWhile P (xs @ y # ys) = y # ys"
  by (induction xs) auto

lemma drop_Suc_append [simp]: "drop (Suc (length xs)) (xs @ y # ys) = ys"
  by (induction xs) auto

lemma drop_append_early: "k \<le> length xs \<Longrightarrow> drop k (xs @ ys) = drop k xs @ ys"
  by simp

lemma update_mid [simp]: "(xs @ y # ys)[length xs := z] = xs @ z # ys"
  by (induction xs) auto

end
