(* ===== verification/CString.thy ===== *)
theory CString
  imports Prelude
begin

text \<open>
  C arrays of \<open>char\<close> and the functions of \<open>string.h\<close>, \<open>stdlib.h\<close> and \<open>stdio.h\<close> that the repository
  calls on them.  An array is a list whose length is the array's size; a pointer into it is the
  suffix it points to.  Every access is checked against the end of the array, so that an overrun
  is \<open>Fail OutOfBounds\<close> and never an unspecified value.
\<close>

abbreviation NUL :: char where "NUL \<equiv> CHR 0x00"
abbreviation LF :: char where "LF \<equiv> CHR 0x0A"
abbreviation CR :: char where "CR \<equiv> CHR 0x0D"

section \<open>Checked access\<close>

definition rd :: "char list \<Rightarrow> nat \<Rightarrow> char res" where
  "rd buf i = (if i < length buf then Ret (buf ! i) else Fail OutOfBounds)"

definition wr :: "char list \<Rightarrow> nat \<Rightarrow> char \<Rightarrow> char list res" where
  "wr buf i c = (if i < length buf then Ret (buf[i := c]) else Fail OutOfBounds)"

definition zeros :: "nat \<Rightarrow> char list" where
  "zeros n = replicate n NUL"

lemma zeros_0 [simp]: "zeros 0 = []"
  by (simp add: zeros_def)

lemma length_zeros [simp]: "length (zeros n) = n"
  by (simp add: zeros_def)

lemma rd_ok [simp]: "i < length buf \<Longrightarrow> rd buf i = Ret (buf ! i)"
  by (simp add: rd_def)

lemma rd_oob [simp]: "length buf \<le> i \<Longrightarrow> rd buf i = Fail OutOfBounds"
  by (simp add: rd_def)

lemma wr_ok [simp]: "i < length buf \<Longrightarrow> wr buf i c = Ret (buf[i := c])"
  by (simp add: wr_def)

lemma wr_oob [simp]: "length buf \<le> i \<Longrightarrow> wr buf i c = Fail OutOfBounds"
  by (simp add: wr_def)

lemma wr_Ret: "wr buf i c = Ret buf' \<longleftrightarrow> i < length buf \<and> buf' = buf[i := c]"
  by (auto simp: wr_def)

lemma no_hang_rd_wr [simp, hang_intros]: "no_hang (rd buf i)" "no_hang (wr buf i c)"
  by (simp_all add: rd_def wr_def)

text \<open>\<open>memset(buf, '\\0', n)\<close>.\<close>

definition memset0 :: "char list \<Rightarrow> nat \<Rightarrow> char list res" where
  "memset0 buf n = (if n \<le> length buf then Ret (zeros n @ drop n buf) else Fail OutOfBounds)"

lemma memset0_all [simp]: "memset0 buf (length buf) = Ret (zeros (length buf))"
  by (simp add: memset0_def)

section \<open>Strings in arrays\<close>

text \<open>The string a pointer designates: everything before the first NUL.  \<open>strlen\<close>, \<open>strcmp\<close>,
  the \<open>%s\<close> conversions and \<open>operator<<\<close> read it, and run past the end when there is no NUL.\<close>

definition cstr :: "char list \<Rightarrow> string res" where
  "cstr buf = (if NUL \<in> set buf then Ret (takeWhile (\<lambda>c. c \<noteq> NUL) buf) else Fail OutOfBounds)"

text \<open>\<open>strcpy(dst, s)\<close> and \<open>sprintf(dst, ...)\<close> for the text \<open>s\<close>.\<close>

definition strcpy :: "char list \<Rightarrow> string \<Rightarrow> char list res" where
  "strcpy dst s =
     (if length s < length dst then Ret (s @ NUL # drop (Suc (length s)) dst) else Fail OutOfBounds)"

definition strcat :: "char list \<Rightarrow> string \<Rightarrow> char list res" where
  "strcat dst s = bindR (cstr dst) (\<lambda>d. strcpy dst (d @ s))"

text \<open>\<open>std::string::c_str\<close> seen by \<open>strcmp\<close>: a \<open>std::string\<close> cut at its first NUL.\<close>

definition c_str :: "string \<Rightarrow> string" where
  "c_str s = takeWhile (\<lambda>c. c \<noteq> NUL) s"

definition no_nul :: "string \<Rightarrow> bool" where
  "no_nul s \<longleftrightarrow> NUL \<notin> set s"

lemma no_nul_simps [simp]:
  "no_nul []" "no_nul (c # s) \<longleftrightarrow> c \<noteq> NUL \<and> no_nul s" "no_nul (s @ t) \<longleftrightarrow> no_nul s \<and> no_nul t"
  by (auto simp: no_nul_def)

lemma no_nul_nth: "no_nul s \<Longrightarrow> i < length s \<Longrightarrow> s ! i \<noteq> NUL"
  by (metis no_nul_def nth_mem)

lemma no_nul_takeWhile: "no_nul s \<Longrightarrow> takeWhile (\<lambda>c. c \<noteq> NUL) s = s"
  by (induction s) auto

lemma c_str_no_nul [simp]: "no_nul s \<Longrightarrow> c_str s = s"
  by (simp add: c_str_def no_nul_takeWhile)

lemma no_nul_c_str [simp]: "no_nul (c_str s)"
  by (auto simp: c_str_def no_nul_def dest: set_takeWhileD)

text \<open>The shape every buffer of the program has after a copy: the text, then zeros.\<close>

definition cbuf :: "nat \<Rightarrow> string \<Rightarrow> char list" where
  "cbuf n s = s @ zeros (n - length s)"

lemma zeros_Suc: "zeros (Suc n) = NUL # zeros n"
  by (simp add: zeros_def)

lemma zeros_add: "zeros m @ zeros n = zeros (m + n)"
  by (simp add: zeros_def replicate_add)

lemma drop_zeros [simp]: "drop k (zeros n) = zeros (n - k)"
  by (simp add: zeros_def)

lemma zeros_nth [simp]: "i < n \<Longrightarrow> zeros n ! i = NUL"
  by (simp add: zeros_def)

lemma NUL_in_zeros [simp]: "NUL \<in> set (zeros n) \<longleftrightarrow> 0 < n"
  by (auto simp: zeros_def)

lemma cbuf_Nil: "cbuf n [] = zeros n"
  by (simp add: cbuf_def)

lemma length_cbuf [simp]: "length s \<le> n \<Longrightarrow> length (cbuf n s) = n"
  by (simp add: cbuf_def)

lemma cbuf_split: "length s < n \<Longrightarrow> cbuf n s = s @ NUL # zeros (n - Suc (length s))"
  by (simp add: cbuf_def zeros_Suc [symmetric] Suc_diff_Suc)

lemma takeWhile_NUL_app: "no_nul s \<Longrightarrow> takeWhile (\<lambda>c. c \<noteq> NUL) (s @ NUL # r) = s"
  by (induction s) auto

lemma cstr_app [simp]: "no_nul s \<Longrightarrow> cstr (s @ NUL # r) = Ret s"
  by (simp add: cstr_def takeWhile_NUL_app)

lemma cstr_cbuf [buf_simps]: "no_nul s \<Longrightarrow> length s < n \<Longrightarrow> cstr (cbuf n s) = Ret s"
  by (simp add: cbuf_split)

lemma cstr_zeros [buf_simps]: "0 < n \<Longrightarrow> cstr (zeros n) = Ret []"
  using cstr_cbuf [of "[]" n] by (simp add: cbuf_Nil)

lemma strcpy_zeros [buf_simps]: "length s < n \<Longrightarrow> strcpy (zeros n) s = Ret (cbuf n s)"
  by (simp add: strcpy_def cbuf_split)

lemma strcpy_cbuf [buf_simps]:
  "length t \<le> length s \<Longrightarrow> length s < n \<Longrightarrow> strcpy (cbuf n t) s = Ret (cbuf n s)"
  by (simp add: strcpy_def cbuf_def zeros_Suc [symmetric] Suc_diff_Suc)

lemma strcat_cbuf [buf_simps]:
  "no_nul d \<Longrightarrow> length d + length s < n \<Longrightarrow> strcat (cbuf n d) s = Ret (cbuf n (d @ s))"
  by (simp add: strcat_def cstr_cbuf strcpy_cbuf)

lemma strcpy_oob: "length dst \<le> length s \<Longrightarrow> strcpy dst s = Fail OutOfBounds"
  by (simp add: strcpy_def)

lemma strcpy_Ret: "strcpy dst s = Ret d \<Longrightarrow> length d = length dst"
  by (auto simp: strcpy_def split: if_splits)

lemma no_hang_string [simp, hang_intros]:
  "no_hang (cstr b)" "no_hang (strcpy d s)" "no_hang (strcat d s)" "no_hang (memset0 b n)"
  by (auto simp: cstr_def strcpy_def memset0_def strcat_def intro!: hang_intros)

text \<open>Overwriting a run of cells, the net effect of a loop of assignments.\<close>

definition put :: "char list \<Rightarrow> nat \<Rightarrow> char list \<Rightarrow> char list" where
  "put buf i xs = take i buf @ xs @ drop (i + length xs) buf"

lemma put_Nil [simp]: "put buf i [] = buf"
  by (simp add: put_def)

lemma length_put [simp]: "i + length xs \<le> length buf \<Longrightarrow> length (put buf i xs) = length buf"
  by (simp add: put_def)

lemma put_update_Cons [simp]:
  "i < length buf \<Longrightarrow> put (buf[i := c]) (Suc i) xs = put buf i (c # xs)"
  by (simp add: put_def take_Suc_conv_app_nth)

lemma put_snoc:
  "i + length xs < length buf \<Longrightarrow> (put buf i xs)[i + length xs := c] = put buf i (xs @ [c])"
  by (simp add: put_def list_update_append min_def drop_update_swap Cons_nth_drop_Suc [symmetric]
      upd_conv_take_nth_drop)

lemma put_snoc0: "length xs < length buf \<Longrightarrow> (put buf 0 xs)[length xs := c] = put buf 0 (xs @ [c])"
  using put_snoc [of 0 xs buf c] by simp

lemma put_0: "put buf 0 xs = xs @ drop (length xs) buf"
  by (simp add: put_def)

lemma put_zeros [buf_simps]: "length s < n \<Longrightarrow> put (zeros n) 0 s = cbuf n s"
  by (simp add: put_0 cbuf_def)

lemma cstr_put [buf_simps]: "no_nul s \<Longrightarrow> cstr (put buf 0 (s @ NUL # r)) = Ret s"
  by (simp add: put_0)

section \<open>Comparison\<close>

text \<open>\<open>strcasecmp\<close> compares after folding the letters of the C locale.\<close>

definition tolower :: "char \<Rightarrow> char" where
  "tolower c = (if 65 \<le> (of_char c :: nat) \<and> (of_char c :: nat) \<le> 90
                then char_of ((of_char c :: nat) + 32) else c)"

definition strcaseeq :: "string \<Rightarrow> string \<Rightarrow> bool" where
  "strcaseeq s t \<longleftrightarrow> map tolower s = map tolower t"

text \<open>\<open>strncmp(s, t, n) == 0\<close> and \<open>strncasecmp(s, t, n) == 0\<close> on NUL-terminated strings.\<close>

definition strneq :: "string \<Rightarrow> string \<Rightarrow> nat \<Rightarrow> bool" where
  "strneq s t n \<longleftrightarrow> take n s = take n t"

definition strncaseeq :: "string \<Rightarrow> string \<Rightarrow> nat \<Rightarrow> bool" where
  "strncaseeq s t n \<longleftrightarrow> map tolower (take n s) = map tolower (take n t)"

section \<open>Decimal numbers\<close>

definition digit_char :: "nat \<Rightarrow> char" where
  "digit_char d = char_of (48 + d)"

definition is_digit :: "char \<Rightarrow> bool" where
  "is_digit c \<longleftrightarrow> 48 \<le> (of_char c :: nat) \<and> (of_char c :: nat) \<le> 57"

definition digit_val :: "char \<Rightarrow> nat" where
  "digit_val c = of_char c - 48"

fun nat_str :: "nat \<Rightarrow> string" where
  "nat_str n = (if n < 10 then [digit_char n] else nat_str (n div 10) @ [digit_char (n mod 10)])"

declare nat_str.simps [simp del]

text \<open>The conversion \<open>%d\<close> of \<open>sprintf\<close>.\<close>

definition int_str :: "int \<Rightarrow> string" where
  "int_str k = (if k < 0 then CHR ''-'' # nat_str (nat (- k)) else nat_str (nat k))"

definition dec_val :: "string \<Rightarrow> nat" where
  "dec_val ds = foldl (\<lambda>n c. 10 * n + digit_val c) 0 ds"

definition is_space :: "char \<Rightarrow> bool" where
  "is_space c \<longleftrightarrow> c = CHR '' '' \<or> (9 \<le> (of_char c :: nat) \<and> (of_char c :: nat) \<le> 13)"

text \<open>\<open>atoi\<close>: leading white space, one sign, then the longest run of digits.  A value that \<open>int\<close>
  cannot hold is undefined behaviour in C.\<close>

definition atoi :: "string \<Rightarrow> int res" where
  "atoi s =
     (let t = dropWhile is_space s;
          neg = (t \<noteq> [] \<and> hd t = CHR ''-'');
          u = (if t \<noteq> [] \<and> (hd t = CHR ''-'' \<or> hd t = CHR ''+'') then tl t else t);
          n = int (dec_val (takeWhile is_digit u))
      in to_int32 (if neg then - n else n))"

lemma digit_char_props:
  assumes "d < 10"
  shows "of_char (digit_char d) = 48 + d" "is_digit (digit_char d)" "digit_val (digit_char d) = d"
    "digit_char d \<noteq> NUL" "\<not> is_space (digit_char d)" "digit_char d \<noteq> CHR ''-''"
    "digit_char d \<noteq> CHR ''+''" "digit_char d \<noteq> CHR '':''"
proof -
  show eq: "of_char (digit_char d) = 48 + d"
    using assms by (simp add: digit_char_def)
  then show "is_digit (digit_char d)" "digit_val (digit_char d) = d"
    using assms by (simp_all add: is_digit_def digit_val_def)
  have ne: "digit_char d \<noteq> c" if "of_char c \<noteq> 48 + d" for c
    using eq that by metis
  show "digit_char d \<noteq> NUL" "digit_char d \<noteq> CHR ''-''" "digit_char d \<noteq> CHR ''+''"
      "digit_char d \<noteq> CHR '':''"
    using assms by (auto intro!: ne)
  moreover have "digit_char d \<noteq> CHR '' ''"
    using assms by (auto intro!: ne)
  ultimately show "\<not> is_space (digit_char d)"
    using eq assms by (simp add: is_space_def)
qed

lemma nat_str_digits: "c \<in> set (nat_str n) \<Longrightarrow> \<exists>d < 10. c = digit_char d"
proof (induction n rule: nat_str.induct)
  case (1 n)
  show ?case
  proof (cases "n < 10")
    case True
    with "1.prems" show ?thesis by (subst (asm) nat_str.simps) auto
  next
    case False
    with "1.prems" have "c \<in> set (nat_str (n div 10)) \<or> c = digit_char (n mod 10)"
      by (subst (asm) nat_str.simps) auto
    then show ?thesis
    proof
      assume "c \<in> set (nat_str (n div 10))"
      with False show ?thesis by (rule "1.IH")
    next
      assume "c = digit_char (n mod 10)"
      then show ?thesis by (intro exI [of _ "n mod 10"]) simp
    qed
  qed
qed

lemma nat_str_all_digits: "\<forall>c \<in> set (nat_str n). is_digit c"
  using nat_str_digits digit_char_props(2) by blast

lemma takeWhile_nat_str [simp]: "takeWhile is_digit (nat_str n) = nat_str n"
  using nat_str_all_digits by (simp add: takeWhile_eq_all_conv)

lemma nat_str_no_nul [simp]: "no_nul (nat_str n)"
  using nat_str_digits digit_char_props(4) by (fastforce simp: no_nul_def)

lemma nat_str_no_colon: "CHR '':'' \<notin> set (nat_str n)"
  using nat_str_digits digit_char_props(8) by fastforce

lemma nat_str_not_Nil [simp]: "nat_str n \<noteq> []"
  by (subst nat_str.simps) simp

lemma dec_val_snoc: "dec_val (ds @ [c]) = 10 * dec_val ds + digit_val c"
  by (simp add: dec_val_def)

lemma dec_val_nat_str [simp]: "dec_val (nat_str n) = n"
proof (induction n rule: nat_str.induct)
  case (1 n)
  show ?case
  proof (cases "n < 10")
    case True
    then show ?thesis by (subst nat_str.simps) (simp add: dec_val_def digit_char_props)
  next
    case False
    then have "dec_val (nat_str (n div 10)) = n div 10" by (rule "1.IH")
    with False show ?thesis
      by (subst nat_str.simps) (simp add: dec_val_snoc digit_char_props)
  qed
qed

lemma hd_nat_str: "\<exists>d < 10. hd (nat_str n) = digit_char d"
  using nat_str_digits [of "hd (nat_str n)" n] by simp

lemma nat_str_inj: "nat_str m = nat_str n \<Longrightarrow> m = n"
  by (metis dec_val_nat_str)

lemma length_nat_str: "n < 10 ^ k \<Longrightarrow> 0 < k \<Longrightarrow> length (nat_str n) \<le> k"
proof (induction k arbitrary: n)
  case (Suc k)
  show ?case
  proof (cases "n < 10")
    case True
    then show ?thesis by (subst nat_str.simps) simp
  next
    case False
    with Suc.prems have "0 < k" by (cases k) auto
    moreover have "n div 10 < 10 ^ k" using Suc.prems by (simp add: div_less_iff_less_mult mult.commute)
    ultimately have "length (nat_str (n div 10)) \<le> k" by (intro Suc.IH)
    with False show ?thesis by (subst nat_str.simps) simp
  qed
qed simp

lemma length_int_str:
  assumes "INT_MIN \<le> k" "k \<le> INT_MAX"
  shows "length (int_str k) \<le> 11"
proof -
  have "length (nat_str (nat j)) \<le> 10" if "j \<le> 2147483648" for j
    using that by (intro length_nat_str) auto
  from this [of k] this [of "- k"] show ?thesis
    using assms by (auto simp: int_str_def INT_MIN_def INT_MAX_def)
qed

text \<open>Reading back what \<open>%d\<close> printed, whatever non-digit follows.\<close>

lemma atoi_nat_str:
  assumes "int n \<le> INT_MAX" and "r = [] \<or> \<not> is_digit (hd r)"
  shows "atoi (nat_str n @ r) = Ret (int n)"
proof -
  obtain d where d: "d < 10" "hd (nat_str n) = digit_char d" using hd_nat_str by blast
  then have h: "hd (nat_str n @ r) = digit_char d" by simp
  have sp: "dropWhile is_space (nat_str n @ r) = nat_str n @ r"
    using h d digit_char_props(5) by (cases "nat_str n @ r") auto
  have tk: "takeWhile is_digit (nat_str n @ r) = nat_str n"
    using assms(2) nat_str_all_digits [of n] by (cases r) (auto simp: takeWhile_append2)
  show ?thesis
    using assms(1) d h sp tk by (simp add: atoi_def digit_char_props INT_MIN_def)
qed

lemma digit_props: "is_digit c \<Longrightarrow> \<not> is_space c \<and> c \<noteq> CHR ''-'' \<and> c \<noteq> CHR ''+'' \<and> digit_val c < 10"
  by (auto simp: is_digit_def is_space_def digit_val_def)

lemma atoi_digits:
  assumes "\<forall>c\<in>set ds. is_digit c" "ds \<noteq> []" "int (dec_val ds) \<le> INT_MAX" "\<not> is_digit x"
  shows "atoi (ds @ [x]) = Ret (int (dec_val ds))"
proof -
  obtain c cs where ds: "ds = c # cs" using assms(2) by (cases ds) auto
  have "takeWhile is_digit (ds @ [x]) = ds" using assms(1,4) by (simp add: takeWhile_append2)
  with ds assms(1,3) digit_props [of c] show ?thesis by (simp add: atoi_def INT_MIN_def)
qed

lemma dec_val_start: "foldl (\<lambda>n c. 10 * n + digit_val c) k ds = k * 10 ^ length ds + dec_val ds"
  by (induction ds rule: rev_induct) (simp_all add: dec_val_def algebra_simps)

lemma dec_val_Cons: "dec_val (d # ds) = digit_val d * 10 ^ length ds + dec_val ds"
  using dec_val_start [of "digit_val d" ds] by (simp add: dec_val_def)

lemma dec_val_bound: "\<forall>c\<in>set ds. is_digit c \<Longrightarrow> dec_val ds < 10 ^ length ds"
proof (induction ds rule: rev_induct)
  case (snoc c ds)
  then show ?case using digit_props [of c] by (simp add: dec_val_snoc)
qed (simp add: dec_val_def)

lemma atoi_int_str:
  assumes "INT_MIN \<le> k" and "k \<le> INT_MAX"
  shows "atoi (int_str k) = Ret k"
proof (cases "k < 0")
  case False
  with assms atoi_nat_str [of "nat k" "[]"] show ?thesis by (simp add: int_str_def)
next
  case True
  have "\<not> is_space (CHR ''-'')" by (simp add: is_space_def)
  with True assms show ?thesis by (simp add: atoi_def int_str_def)
qed

lemma minus_not_nat_str: "CHR ''-'' # s \<noteq> nat_str n" "nat_str n \<noteq> CHR ''-'' # s"
  using hd_nat_str [of n] digit_char_props(6) by (metis list.sel(1))+

lemma int_str_inj: "int_str j = int_str k \<Longrightarrow> j = k"
  by (auto simp: int_str_def minus_not_nat_str split: if_splits dest!: nat_str_inj)

lemma no_nul_int_str [simp]: "no_nul (int_str k)"
  by (simp add: int_str_def)

lemma int_str_no_colon: "CHR '':'' \<notin> set (int_str k)"
  using nat_str_no_colon by (auto simp: int_str_def)

end
