(* ===== verification/Line_Reader.thy ===== *)
theory Line_Reader
  imports CString
begin

text \<open>
  Reading a line from a socket: \<open>recv(sock, &ch, 1, 0)\<close> and the two functions \<open>get_line\<close>
  (\<open>server/server_http.h\<close> and \<open>server/server.h\<close>), which share their loop and differ in the way
  they terminate the buffer; and the loop that throws away the header lines of a request.
\<close>

section \<open>Receiving one byte\<close>

text \<open>
  The receiving side of a socket is the list of what the next calls of \<open>recv\<close> will see: a byte, or
  a call that fails (\<open>-1\<close>, for instance \<open>EAGAIN\<close> on a non-blocking socket).  When the list is used
  up the peer has closed the connection and every call returns \<open>0\<close>.  Only a call that returns \<open>1\<close>
  writes the byte \<open>ch\<close>.
\<close>

datatype recv_event = Byte char | RecvErr

type_synonym rx = "recv_event list"

fun recv1 :: "rx \<Rightarrow> char \<Rightarrow> int \<times> char \<times> rx" where
  "recv1 [] ch = (0, ch, [])"
| "recv1 (Byte c # s) ch = (1, c, s)"
| "recv1 (RecvErr # s) ch = (-1, ch, s)"

fun payload :: "rx \<Rightarrow> char list" where
  "payload [] = []"
| "payload (Byte c # s) = c # payload s"
| "payload (RecvErr # s) = payload s"

definition terminator :: "char \<Rightarrow> bool" where
  "terminator c \<longleftrightarrow> c = NUL \<or> c = LF \<or> c = CR"

fun plain :: "recv_event \<Rightarrow> bool" where
  "plain (Byte c) \<longleftrightarrow> \<not> terminator c"
| "plain RecvErr \<longleftrightarrow> True"

text \<open>The bytes in front of the first terminator of a stream.\<close>

definition line_part :: "rx \<Rightarrow> char list" where
  "line_part s = payload (takeWhile plain s)"

lemma payload_append [simp]: "payload (s @ t) = payload s @ payload t"
  by (induction s rule: payload.induct) auto

lemma payload_map_Byte [simp]: "payload (map Byte cs) = cs"
  by (induction cs) auto

lemma terminator_simps [simp]: "terminator NUL" "terminator LF" "terminator CR"
  by (simp_all add: terminator_def)

lemma plain_map_Byte [simp]: "(\<forall>e\<in>set (map Byte cs). plain e) \<longleftrightarrow> (\<forall>c\<in>set cs. \<not> terminator c)"
  by auto

lemma payload_plain: "\<forall>e\<in>set s. plain e \<Longrightarrow> c \<in> set (payload s) \<Longrightarrow> \<not> terminator c"
  by (induction s rule: payload.induct) auto

lemma plain_no_nul: "\<forall>c\<in>set cs. \<not> terminator c \<Longrightarrow> no_nul cs"
  by (metis no_nul_def terminator_simps(1))

section \<open>The loop of \<open>get_line\<close>\<close>

partial_function (option) line_loop ::
  "nat \<Rightarrow> char \<Rightarrow> nat \<Rightarrow> char list \<Rightarrow> rx \<Rightarrow> (char \<times> nat \<times> char list \<times> rx) res" where
  "line_loop sz ch i buf s =
    (if i < sz - 1 \<and> ch \<noteq> LF then
       (case recv1 s ch of (num, ch1, s1) \<Rightarrow>
          if ch1 = NUL \<or> ch1 = LF \<or> ch1 = CR then
            (case recv1 s1 ch1 of (num2, ch2, s2) \<Rightarrow> Ret (ch2, i, buf, s2))
          else if num > 0 then
            bindR (wr buf i ch1) (\<lambda>buf1. line_loop sz ch1 (Suc i) buf1 s1)
          else line_loop sz ch1 i buf s1)
     else Ret (ch, i, buf, s))"

text \<open>\<open>server_http::get_line\<close>.\<close>

definition http_get_line :: "nat \<Rightarrow> char list \<Rightarrow> rx \<Rightarrow> (nat \<times> char list \<times> rx) res" where
  "http_get_line sz buf s =
    (if \<not> 0 < sz then Fail AssertFail
     else bindR (line_loop sz NUL 0 buf s) (\<lambda>(ch, i, buf1, s1).
       if ch = NUL then bindR (wr buf1 i NUL) (\<lambda>buf2. Ret (i, buf2, s1))
       else bindR (wr buf1 i LF) (\<lambda>buf2. bindR (wr buf2 (Suc i) NUL) (\<lambda>buf3.
              Ret (Suc i, buf3, s1)))))"

text \<open>\<open>get_line\<close> of the epoll server: the NUL itself is counted.\<close>

definition epoll_get_line :: "nat \<Rightarrow> char list \<Rightarrow> rx \<Rightarrow> (nat \<times> char list \<times> rx) res" where
  "epoll_get_line len buf s =
    (if \<not> 0 < len then Fail AssertFail
     else bindR (line_loop len NUL 0 buf s) (\<lambda>(ch, i, buf1, s1).
       if ch = NUL then bindR (wr buf1 i NUL) (\<lambda>buf2. Ret (Suc i, buf2, s1))
       else bindR (wr buf1 i LF) (\<lambda>buf2. bindR (wr buf2 (Suc i) NUL) (\<lambda>buf3.
              Ret (Suc i, buf3, s1)))))"

subsection \<open>The loop on the bytes of a line\<close>

lemma line_loop_stop: "\<not> (i < sz - 1 \<and> ch \<noteq> LF) \<Longrightarrow> line_loop sz ch i buf s = Ret (ch, i, buf, s)"
  by (subst line_loop.simps) auto

lemma line_loop_Byte:
  assumes "i < sz - 1" "ch \<noteq> LF" "\<not> terminator c" "i < length buf"
  shows "line_loop sz ch i buf (Byte c # s) = line_loop sz c (Suc i) (buf[i := c]) s"
  using assms by (subst line_loop.simps) (auto simp: terminator_def)

lemma line_loop_Err:
  assumes "i < sz - 1" "\<not> terminator ch"
  shows "line_loop sz ch i buf (RecvErr # s) = line_loop sz ch i buf s"
  using assms by (subst line_loop.simps) (auto simp: terminator_def)

lemma line_loop_term:
  assumes "i < sz - 1" "ch \<noteq> LF" "terminator t"
  shows "line_loop sz ch i buf (Byte t # s) =
    (case recv1 s t of (num2, ch2, s2) \<Rightarrow> Ret (ch2, i, buf, s2))"
  using assms by (subst line_loop.simps) (auto simp: terminator_def)

lemma line_loop_early:
  assumes "0 < sz - 1" "s = [] \<or> (\<exists>s1. s = RecvErr # s1)"
  shows "line_loop sz NUL 0 buf s = (case recv1 (tl s) NUL of (num2, ch2, s2) \<Rightarrow> Ret (ch2, 0, buf, s2))"
  using assms by (subst line_loop.simps) auto

text \<open>From a character that ends no line, the loop stores the bytes of the line and skips the calls
  that fail.\<close>

lemma line_loop_plain:
  assumes "\<forall>e\<in>set es. plain e" "\<not> terminator ch" "i + length (payload es) < sz - 1"
    "sz \<le> length buf"
  shows "\<exists>ch1. \<not> terminator ch1 \<and> line_loop sz ch i buf (es @ s) =
           line_loop sz ch1 (i + length (payload es)) (put buf i (payload es)) s"
  using assms
proof (induction es arbitrary: ch i buf)
  case Nil
  then show ?case by auto
next
  case (Cons e es)
  have lf: "ch \<noteq> LF" using Cons.prems(2) by auto
  show ?case
  proof (cases e)
    case (Byte c)
    with Cons.prems lf have "\<not> terminator c"
      and step: "line_loop sz ch i buf ((e # es) @ s) = line_loop sz c (Suc i) (buf[i := c]) (es @ s)"
      by (auto simp: line_loop_Byte)
    with Cons.IH [of c "Suc i" "buf[i := c]"] Cons.prems Byte show ?thesis by auto
  next
    case RecvErr
    with Cons.prems have "line_loop sz ch i buf ((e # es) @ s) = line_loop sz ch i buf (es @ s)"
      by (auto simp: line_loop_Err)
    with Cons.IH [of ch i buf] Cons.prems RecvErr show ?thesis by auto
  qed
qed

text \<open>A first byte that ends no line brings the loop into that situation.\<close>

lemma line_loop_start:
  assumes "\<forall>e\<in>set (Byte c # es). plain e" "length (payload (Byte c # es)) < sz - 1"
    "sz \<le> length buf"
  shows "\<exists>ch1. \<not> terminator ch1 \<and> line_loop sz NUL 0 buf (Byte c # es @ s) =
           line_loop sz ch1 (length (payload (Byte c # es))) (put buf 0 (payload (Byte c # es))) s"
proof -
  have "line_loop sz NUL 0 buf (Byte c # es @ s) = line_loop sz c (Suc 0) (buf[0 := c]) (es @ s)"
    using assms by (intro line_loop_Byte) auto
  moreover have "0 < length buf" using assms(2,3) by linarith
  ultimately show ?thesis
    using line_loop_plain [of es c "Suc 0" sz "buf[0 := c]" s] assms by auto
qed

definition starts_with_byte :: "rx \<Rightarrow> bool" where
  "starts_with_byte s \<longleftrightarrow> (\<exists>c s1. s = Byte c # s1)"

lemma starts_with_byte_simps [simp]:
  "\<not> starts_with_byte []" "starts_with_byte (Byte c # s)" "\<not> starts_with_byte (RecvErr # s)"
  by (simp_all add: starts_with_byte_def)

lemma line_loop_reads:
  assumes "\<forall>e\<in>set es. plain e" "es = [] \<or> starts_with_byte es"
    "length (payload es) < sz - 1" "sz \<le> length buf" "terminator t"
  shows "line_loop sz NUL 0 buf (es @ Byte t # s) =
    (case recv1 s t of (num2, ch2, s2) \<Rightarrow> Ret (ch2, length (payload es), put buf 0 (payload es), s2))"
proof (cases "es = []")
  case True
  with assms show ?thesis by (simp add: line_loop_term)
next
  case False
  with assms(2) obtain c es1 where es: "es = Byte c # es1" by (auto simp: starts_with_byte_def)
  with line_loop_start [of c es1 sz buf "Byte t # s"] assms obtain ch1 where "\<not> terminator ch1"
    and "line_loop sz NUL 0 buf (es @ Byte t # s) =
      line_loop sz ch1 (length (payload es)) (put buf 0 (payload es)) (Byte t # s)" by auto
  moreover from this(1) have "ch1 \<noteq> LF" by auto
  ultimately show ?thesis using assms by (simp add: line_loop_term)
qed

subsection \<open>When the loop never ends\<close>

lemma line_loop_exhausted: "\<not> terminator ch \<Longrightarrow> i < sz - 1 \<Longrightarrow> line_loop sz ch i buf [] = Hang"
proof (rule ccontr)
  assume stuck: "\<not> terminator ch" "i < sz - 1" and "line_loop sz ch i buf [] \<noteq> Hang"
  then obtain r where ret: "line_loop sz ch i buf [] = Some r" by blast
  have "i < sz - 1 \<longrightarrow> \<not> terminator ch \<longrightarrow> [] \<noteq> ([] :: rx)"
  proof (rule line_loop.raw_induct
      [where P = "\<lambda>sz ch i buf s r. i < sz - 1 \<longrightarrow> \<not> terminator ch \<longrightarrow> s \<noteq> []", OF _ ret])
    fix f :: "nat \<Rightarrow> char \<Rightarrow> nat \<Rightarrow> char list \<Rightarrow> rx \<Rightarrow> (char \<times> nat \<times> char list \<times> rx) res"
      and sz ch i buf s r
    assume IH: "\<And>sz ch i buf s r. f sz ch i buf s = Some r \<Longrightarrow>
        i < sz - 1 \<longrightarrow> \<not> terminator ch \<longrightarrow> s \<noteq> []"
      and body: "(if i < sz - 1 \<and> ch \<noteq> LF then
       (case recv1 s ch of (num, ch1, s1) \<Rightarrow>
          if ch1 = NUL \<or> ch1 = LF \<or> ch1 = CR then
            (case recv1 s1 ch1 of (num2, ch2, s2) \<Rightarrow> Ret (ch2, i, buf, s2))
          else if num > 0 then bindR (wr buf i ch1) (\<lambda>buf1. f sz ch1 (Suc i) buf1 s1)
          else f sz ch1 i buf s1)
     else Ret (ch, i, buf, s)) = Some r"
    show "i < sz - 1 \<longrightarrow> \<not> terminator ch \<longrightarrow> s \<noteq> []"
    proof (intro impI notI)
      assume "i < sz - 1" "\<not> terminator ch" "s = []"
      with body have "f sz ch i buf [] = Some r" by (simp add: terminator_def)
      from IH [OF this] show False using \<open>i < sz - 1\<close> \<open>\<not> terminator ch\<close> by simp
    qed
  qed
  with stuck show False by simp
qed

lemma line_loop_hang_iff:
  assumes "\<not> terminator ch" "i \<le> sz - 1" "sz \<le> length buf"
  shows "line_loop sz ch i buf s = Hang \<longleftrightarrow> (\<forall>e\<in>set s. plain e) \<and> i + length (payload s) < sz - 1"
  using assms
proof (induction s arbitrary: ch i buf)
  case Nil
  then show ?case
    by (cases "i < sz - 1") (auto simp: line_loop_exhausted line_loop_stop)
next
  case (Cons e s)
  have lf: "ch \<noteq> LF" using Cons.prems(1) by auto
  show ?case
  proof (cases "i < sz - 1")
    case False
    with Cons.prems show ?thesis by (simp add: line_loop_stop)
  next
    case True
    show ?thesis
    proof (cases e)
      case RecvErr
      with True Cons show ?thesis by (simp add: line_loop_Err)
    next
      case (Byte c)
      show ?thesis
      proof (cases "terminator c")
        case True
        with \<open>i < sz - 1\<close> lf Byte show ?thesis
          by (simp add: line_loop_term split: prod.splits)
      next
        case False
        with \<open>i < sz - 1\<close> lf Byte Cons.prems Cons.IH [of c "Suc i" "buf[i := c]"] show ?thesis
          by (simp add: line_loop_Byte)
      qed
    qed
  qed
qed

section \<open>What \<open>get_line\<close> does\<close>

text \<open>A line that fits: its bytes are stored, the terminator becomes a line feed and the byte behind
  the terminator is consumed as well.\<close>

lemma store_line_end:
  assumes "length line + 1 < sz" "sz \<le> length buf"
  shows "bindR (wr (put buf 0 line) (length line) LF) (\<lambda>buf2. bindR (wr buf2 (Suc (length line)) NUL) g)
    = g (put buf 0 (line @ [LF, NUL]))"
proof -
  have "(put buf 0 line)[length line := LF] = put buf 0 (line @ [LF])"
    using assms by (intro put_snoc0) simp
  moreover have "(put buf 0 (line @ [LF]))[Suc (length line) := NUL] = put buf 0 ((line @ [LF]) @ [NUL])"
    using put_snoc0 [of "line @ [LF]" buf NUL] assms by simp
  ultimately show ?thesis using assms by simp
qed

lemma get_line_reads:
  assumes "\<forall>e\<in>set es. plain e" "es = [] \<or> starts_with_byte es" "length (payload es) + 1 < sz"
    "sz \<le> length buf" "terminator t" "recv1 s t = (num, ch, s2)"
  shows "ch \<noteq> NUL \<Longrightarrow> http_get_line sz buf (es @ Byte t # s) =
           Ret (Suc (length (payload es)), put buf 0 (payload es @ [LF, NUL]), s2)"
    and "ch \<noteq> NUL \<Longrightarrow> epoll_get_line sz buf (es @ Byte t # s) =
           Ret (Suc (length (payload es)), put buf 0 (payload es @ [LF, NUL]), s2)"
    and "ch = NUL \<Longrightarrow> http_get_line sz buf (es @ Byte t # s) =
           Ret (length (payload es), put buf 0 (payload es @ [NUL]), s2)"
    and "ch = NUL \<Longrightarrow> epoll_get_line sz buf (es @ Byte t # s) =
           Ret (Suc (length (payload es)), put buf 0 (payload es @ [NUL]), s2)"
proof -
  have loop: "line_loop sz NUL 0 buf (es @ Byte t # s) = Ret (ch, length (payload es), put buf 0 (payload es), s2)"
    using assms line_loop_reads [of es sz buf t s] by simp
  have end_line: "ch \<noteq> NUL \<Longrightarrow> bindR (wr (put buf 0 (payload es)) (length (payload es)) LF)
      (\<lambda>buf2. bindR (wr buf2 (Suc (length (payload es))) NUL) g) = g (put buf 0 (payload es @ [LF, NUL]))"
    for g :: "char list \<Rightarrow> (nat \<times> char list \<times> rx) res"
    using assms by (intro store_line_end) auto
  have len: "length (payload es) < length buf" "0 < sz" using assms by simp_all
  show "ch \<noteq> NUL \<Longrightarrow> http_get_line sz buf (es @ Byte t # s) =
           Ret (Suc (length (payload es)), put buf 0 (payload es @ [LF, NUL]), s2)"
    and "ch \<noteq> NUL \<Longrightarrow> epoll_get_line sz buf (es @ Byte t # s) =
           Ret (Suc (length (payload es)), put buf 0 (payload es @ [LF, NUL]), s2)"
    using len end_line by (simp_all add: http_get_line_def epoll_get_line_def loop)
  show "ch = NUL \<Longrightarrow> http_get_line sz buf (es @ Byte t # s) =
           Ret (length (payload es), put buf 0 (payload es @ [NUL]), s2)"
    and "ch = NUL \<Longrightarrow> epoll_get_line sz buf (es @ Byte t # s) =
           Ret (Suc (length (payload es)), put buf 0 (payload es @ [NUL]), s2)"
    using len by (simp_all add: http_get_line_def epoll_get_line_def loop put_snoc0)
qed

text \<open>No byte at all: the peer has closed, or the first call fails.\<close>

lemma get_line_closed:
  assumes "1 < sz" "sz \<le> length buf"
  shows "http_get_line sz buf [] = Ret (0, buf[0 := NUL], [])"
    and "epoll_get_line sz buf [] = Ret (1, buf[0 := NUL], [])"
proof -
  have "buf \<noteq> []" using assms by auto
  then show "http_get_line sz buf [] = Ret (0, buf[0 := NUL], [])"
    and "epoll_get_line sz buf [] = Ret (1, buf[0 := NUL], [])"
    using assms by (auto simp: http_get_line_def epoll_get_line_def line_loop_early)
qed

text \<open>The exact condition under which \<open>get_line\<close> never returns: at least one byte of a line has come,
  the line ends neither with a terminator nor with a full buffer, and nothing more comes.\<close>

lemma line_loop_hang0_iff:
  assumes "1 < sz" "sz \<le> length buf"
  shows "line_loop sz NUL 0 buf s = Hang \<longleftrightarrow>
    starts_with_byte s \<and> (\<forall>e\<in>set s. plain e) \<and> length (payload s) < sz - 1"
proof (cases "starts_with_byte s")
  case False
  then have "s = [] \<or> (\<exists>s1. s = RecvErr # s1)"
    by (cases s; cases "hd s") (auto simp: starts_with_byte_def)
  with assms False show ?thesis by (simp add: line_loop_early split: prod.splits)
next
  case True
  then obtain c s1 where s: "s = Byte c # s1" by (auto simp: starts_with_byte_def)
  show ?thesis
  proof (cases "terminator c")
    case True
    with s assms show ?thesis by (simp add: line_loop_term split: prod.splits)
  next
    case False
    have "line_loop sz NUL 0 buf (Byte c # s1) = line_loop sz c (Suc 0) (buf[0 := c]) s1"
      using assms False by (intro line_loop_Byte) auto
    with line_loop_hang_iff [of c "Suc 0" sz "buf[0 := c]" s1] s False assms show ?thesis by auto
  qed
qed

lemma get_line_hang_iff:
  assumes "1 < sz" "sz \<le> length buf"
  shows "http_get_line sz buf s = Hang \<longleftrightarrow>
      starts_with_byte s \<and> (\<forall>e\<in>set s. plain e) \<and> length (payload s) < sz - 1"
    and "epoll_get_line sz buf s = Hang \<longleftrightarrow>
      starts_with_byte s \<and> (\<forall>e\<in>set s. plain e) \<and> length (payload s) < sz - 1"
  using assms
  by (auto simp: http_get_line_def epoll_get_line_def bindR_eq_Hang line_loop_hang0_iff wr_def
      split: if_splits)

text \<open>A line that fills the buffer: the closing NUL goes one cell past the end.\<close>

lemma line_loop_full:
  assumes "\<forall>e\<in>set (es @ [Byte d]). plain e" "starts_with_byte (es @ [Byte d])"
    "length (payload (es @ [Byte d])) = sz - 1" "1 < sz" "sz \<le> length buf"
  shows "line_loop sz NUL 0 buf (es @ Byte d # s) = Ret (d, sz - 1, put buf 0 (payload (es @ [Byte d])), s)"
proof (cases es)
  case Nil
  have "buf \<noteq> []" using assms by auto
  with Nil assms show ?thesis
    using put_snoc0 [of "[]" buf d] by (simp add: line_loop_Byte line_loop_stop)
next
  case (Cons e es1)
  with assms obtain c where es: "es = Byte c # es1" by (cases e) auto
  with assms line_loop_start [of c es1 sz buf "Byte d # s"] obtain ch1 where ch1: "\<not> terminator ch1"
    and step: "line_loop sz NUL 0 buf (es @ Byte d # s) =
      line_loop sz ch1 (length (payload es)) (put buf 0 (payload es)) (Byte d # s)" by auto
  from ch1 have "ch1 \<noteq> LF" by auto
  with assms es have "line_loop sz ch1 (length (payload es)) (put buf 0 (payload es)) (Byte d # s) =
      line_loop sz d (Suc (length (payload es))) ((put buf 0 (payload es))[length (payload es) := d]) s"
    by (intro line_loop_Byte) auto
  moreover have "(put buf 0 (payload es))[length (payload es) := d] = put buf 0 (payload (es @ [Byte d]))"
    using assms by (simp add: put_snoc0)
  moreover have "Suc (length (payload es)) = sz - 1" using assms by simp
  ultimately show ?thesis using step by (simp add: line_loop_stop)
qed

lemma get_line_overflow:
  assumes "\<forall>e\<in>set (es @ [Byte d]). plain e" "starts_with_byte (es @ [Byte d])"
    "length (payload (es @ [Byte d])) = sz - 1" "1 < sz" "length buf = sz"
  shows "http_get_line sz buf (es @ Byte d # s) = Fail OutOfBounds"
    and "epoll_get_line sz buf (es @ Byte d # s) = Fail OutOfBounds"
proof -
  have "d \<noteq> NUL" using assms(1) by auto
  then show "http_get_line sz buf (es @ Byte d # s) = Fail OutOfBounds"
    and "epoll_get_line sz buf (es @ Byte d # s) = Fail OutOfBounds"
    using assms line_loop_full [of es d sz buf s] by (simp_all add: http_get_line_def epoll_get_line_def)
qed

section \<open>Skipping the header lines\<close>

text \<open>\<open>while (num > 0 && strcmp(buf, "\\n")) num = get_line(...)\<close>, with the reader as argument.\<close>

partial_function (option) header_loop ::
  "(nat \<Rightarrow> char list \<Rightarrow> rx \<Rightarrow> (nat \<times> char list \<times> rx) res) \<Rightarrow> nat \<Rightarrow> nat \<Rightarrow> char list \<Rightarrow> rx
     \<Rightarrow> (char list \<times> rx) res" where
  "header_loop getl sz num buf s =
    (if num > 0 then
       bindR (cstr buf) (\<lambda>t.
         if t \<noteq> [LF] then
           bindR (getl sz buf s) (\<lambda>r. header_loop getl sz (fst r) (fst (snd r)) (snd (snd r)))
         else Ret (buf, s))
     else Ret (buf, s))"

definition crlf_line :: "string \<Rightarrow> rx" where
  "crlf_line h = map Byte h @ [Byte CR, Byte LF]"

definition header_block :: "string list \<Rightarrow> rx" where
  "header_block hs = concat (map crlf_line hs) @ crlf_line []"

definition good_header :: "nat \<Rightarrow> string \<Rightarrow> bool" where
  "good_header sz h \<longleftrightarrow> h \<noteq> [] \<and> (\<forall>c\<in>set h. \<not> terminator c) \<and> length h + 1 < sz"

text \<open>What a client of \<open>get_line\<close> relies on; both servers provide it.\<close>

locale line_reader =
  fixes getl :: "nat \<Rightarrow> char list \<Rightarrow> rx \<Rightarrow> (nat \<times> char list \<times> rx) res"
  assumes reads_line: "\<lbrakk>\<forall>c\<in>set l. \<not> terminator c; length l + 1 < sz; sz \<le> length buf\<rbrakk> \<Longrightarrow>
      getl sz buf (crlf_line l @ s) = Ret (Suc (length l), put buf 0 (l @ [LF, NUL]), s)"
    and waits_for_line: "\<lbrakk>\<forall>c\<in>set l. \<not> terminator c; l \<noteq> []; length l + 1 < sz; sz \<le> length buf\<rbrakk> \<Longrightarrow>
      getl sz buf (map Byte l) = Hang"
    and overruns: "\<lbrakk>\<forall>c\<in>set l. \<not> terminator c; length l + 1 = sz; 1 < sz; sz = length buf\<rbrakk> \<Longrightarrow>
      getl sz buf (map Byte l @ s) = Fail OutOfBounds"
begin

lemma header_loop_step:
  assumes "0 < num" "cstr buf = Ret t" "t \<noteq> [LF]"
    "\<forall>c\<in>set l. \<not> terminator c" "length l + 1 < sz" "sz \<le> length buf"
  shows "header_loop getl sz num buf (crlf_line l @ s) =
    header_loop getl sz (Suc (length l)) (put buf 0 (l @ [LF, NUL])) s"
  using assms by (subst header_loop.simps) (simp add: reads_line)

lemma header_loop_blank: "header_loop getl sz num (put buf 0 [LF, NUL]) s = Ret (put buf 0 [LF, NUL], s)"
  using cstr_put [of "[LF]" buf "[]"] by (subst header_loop.simps) simp

lemma line_end_no_nul: "\<forall>c\<in>set l. \<not> terminator c \<Longrightarrow> cstr (put buf 0 (l @ [LF, NUL])) = Ret (l @ [LF])"
  using cstr_put [of "l @ [LF]" buf "[]"] by (simp add: plain_no_nul)

text \<open>A well-formed header block is consumed up to and including its blank line, and the loop stops
  there: the body is left untouched.\<close>

lemma header_loop_block:
  assumes "\<forall>h\<in>set hs. good_header sz h" "0 < num" "cstr buf = Ret t" "t \<noteq> [LF]"
    "1 < sz" "sz \<le> length buf"
  shows "\<exists>buf1. length buf1 = length buf \<and> header_loop getl sz num buf (header_block hs @ s) = Ret (buf1, s)"
  using assms
proof (induction hs arbitrary: num buf t)
  case Nil
  then have "header_loop getl sz num buf (crlf_line [] @ s) = Ret (put buf 0 [LF, NUL], s)"
    using header_loop_step [of num buf t "[]" sz s] header_loop_blank by simp
  moreover have "length (put buf 0 [LF, NUL]) = length buf" using Nil by simp
  ultimately show ?case by (auto simp: header_block_def)
next
  case (Cons h hs)
  let ?buf = "put buf 0 (h @ [LF, NUL])"
  from Cons.prems have h: "\<forall>c\<in>set h. \<not> terminator c" "length h + 1 < sz" "h \<noteq> []"
    by (auto simp: good_header_def)
  have len: "length ?buf = length buf" using h Cons.prems by simp
  have "header_loop getl sz num buf (header_block (h # hs) @ s) =
      header_loop getl sz (Suc (length h)) ?buf (header_block hs @ s)"
    using header_loop_step [OF Cons.prems(2-4) h(1,2) Cons.prems(6)] by (simp add: header_block_def)
  moreover have "cstr ?buf = Ret (h @ [LF])" using h(1) by (rule line_end_no_nul)
  ultimately show ?case
    using Cons.IH [of "Suc (length h)" ?buf "h @ [LF]"] Cons.prems h len by auto
qed

text \<open>A connection that is closed in the middle of a header line never lets the loop end.\<close>

lemma header_loop_cut:
  assumes "0 < num" "cstr buf = Ret t" "t \<noteq> [LF]"
    "\<forall>c\<in>set l. \<not> terminator c" "l \<noteq> []" "length l + 1 < sz" "sz \<le> length buf"
  shows "header_loop getl sz num buf (map Byte l) = Hang"
  using assms by (subst header_loop.simps) (simp add: waits_for_line)

end

lemma get_line_overflow_bytes:
  assumes "\<forall>c\<in>set l. \<not> terminator c" "length l + 1 = sz" "1 < sz" "sz = length buf"
  shows "http_get_line sz buf (map Byte l @ s) = Fail OutOfBounds"
    and "epoll_get_line sz buf (map Byte l @ s) = Fail OutOfBounds"
proof -
  obtain k d where l: "l = k @ [d]" using assms(2,3) by (cases l rule: rev_cases) auto
  have "\<forall>e\<in>set (map Byte k @ [Byte d]). plain e" using assms(1) l by auto
  moreover have "starts_with_byte (map Byte k @ [Byte d])" by (cases k) auto
  moreover have "length (payload (map Byte k @ [Byte d])) = sz - 1" using assms(2) l by simp
  ultimately have "http_get_line sz buf (map Byte k @ Byte d # s) = Fail OutOfBounds \<and>
      epoll_get_line sz buf (map Byte k @ Byte d # s) = Fail OutOfBounds"
    using get_line_overflow [of "map Byte k" d sz buf s] assms(3,4) by blast
  with l show "http_get_line sz buf (map Byte l @ s) = Fail OutOfBounds"
    and "epoll_get_line sz buf (map Byte l @ s) = Fail OutOfBounds" by simp_all
qed

lemma get_line_crlf:
  assumes "\<forall>c\<in>set l. \<not> terminator c" "length l + 1 < sz" "sz \<le> length buf"
  shows "http_get_line sz buf (crlf_line l @ s) = Ret (Suc (length l), put buf 0 (l @ [LF, NUL]), s)"
    and "epoll_get_line sz buf (crlf_line l @ s) = Ret (Suc (length l), put buf 0 (l @ [LF, NUL]), s)"
  using assms get_line_reads(1,2) [of "map Byte l" sz buf CR "Byte LF # s" 1 LF s]
  by (cases l; auto simp: crlf_line_def)+

lemma get_line_cut:
  assumes "\<forall>c\<in>set l. \<not> terminator c" "l \<noteq> []" "length l + 1 < sz" "sz \<le> length buf"
  shows "http_get_line sz buf (map Byte l) = Hang" and "epoll_get_line sz buf (map Byte l) = Hang"
proof -
  have "starts_with_byte (map Byte l)" using assms(2) by (cases l) auto
  with assms show "http_get_line sz buf (map Byte l) = Hang" and "epoll_get_line sz buf (map Byte l) = Hang"
    by (simp_all add: get_line_hang_iff)
qed

interpretation http_lines: line_reader http_get_line
  by unfold_locales (auto simp: get_line_crlf get_line_cut get_line_overflow_bytes)

interpretation epoll_lines: line_reader epoll_get_line
  by unfold_locales (auto simp: get_line_crlf get_line_cut get_line_overflow_bytes)

text \<open>When the peer closes between two lines the readers differ: the first returns \<open>0\<close>, which ends
  the loop, the second returns \<open>1\<close> for ever.\<close>

lemma http_header_loop_closed:
  assumes "0 < num" "cstr buf = Ret t" "t \<noteq> [LF]" "1 < sz" "sz \<le> length buf"
  shows "header_loop http_get_line sz num buf [] = Ret (buf[0 := NUL], [])"
proof -
  have "header_loop http_get_line sz num buf [] = header_loop http_get_line sz 0 (buf[0 := NUL]) []"
    using assms by (simp add: header_loop.simps [of _ _ num buf] get_line_closed)
  also have "\<dots> = Ret (buf[0 := NUL], [])"
    by (simp add: header_loop.simps [of _ _ 0])
  finally show ?thesis .
qed

lemma epoll_header_loop_closed:
  assumes "0 < num" "cstr buf = Ret t" "t \<noteq> [LF]" "1 < sz" "sz \<le> length buf"
  shows "header_loop epoll_get_line sz num buf [] = Hang"
proof (rule ccontr)
  assume "header_loop epoll_get_line sz num buf [] \<noteq> Hang"
  then obtain r where ret: "header_loop epoll_get_line sz num buf [] = Some r" by blast
  let ?open = "\<lambda>(num :: nat) buf. 0 < num \<and> (\<exists>t. cstr buf = Ret t \<and> t \<noteq> [LF]) \<and> 1 < sz \<and> sz \<le> length buf"
  let ?P = "\<lambda>getl sz' num buf (s :: rx) (r :: fault + char list \<times> rx). getl = epoll_get_line \<longrightarrow> sz' = sz \<longrightarrow> s = [] \<longrightarrow> \<not> ?open num buf"
  have "?P epoll_get_line sz num buf [] r"
  proof (rule header_loop.raw_induct [where P = ?P, OF _ ret], intro impI notI)
    fix f :: "(nat \<Rightarrow> char list \<Rightarrow> rx \<Rightarrow> (nat \<times> char list \<times> rx) res) \<Rightarrow> nat \<Rightarrow> nat \<Rightarrow> char list \<Rightarrow> rx
        \<Rightarrow> (char list \<times> rx) res" and getl sz' num buf s r
    assume IH: "\<And>getl sz' num buf s r. f getl sz' num buf s = Some r \<Longrightarrow> ?P getl sz' num buf s r"
      and body: "(if num > 0 then
       bindR (cstr buf) (\<lambda>t.
         if t \<noteq> [LF] then
           bindR (getl sz' buf s) (\<lambda>r. f getl sz' (fst r) (fst (snd r)) (snd (snd r)))
         else Ret (buf, s))
     else Ret (buf, s)) = Some r"
      and now: "getl = epoll_get_line" "sz' = sz" "s = []" and op: "?open num buf"
    from op obtain c cs where buf: "buf = c # cs" by (cases buf) auto
    from body now op have "f epoll_get_line sz 1 (buf[0 := NUL]) [] = Some r"
      by (auto simp: get_line_closed)
    from IH [OF this] have "\<not> ?open 1 (buf[0 := NUL])" by simp
    moreover have "?open 1 (buf[0 := NUL])"
      using op buf cstr_app [of "[]" cs] by simp
    ultimately show False by blast
  qed
  with assms show False by simp
qed

section \<open>Properties\<close>

text \<open>C23. Both functions \<open>get_line\<close> read a line that fits into the buffer: the bytes in front of the
  terminator, a line feed and a NUL are stored and the length with the line feed is returned.  The
  byte behind the terminator is consumed too, whichever byte it is: behind \<open>'\\r'\<close> that is the
  \<open>'\\n'\<close> the comment has in mind, behind a bare \<open>'\\n'\<close> it is the first byte of the next line.\<close>
theorem get_line_reads_line:
  assumes "\<forall>c\<in>set l. \<not> terminator c" "length l + 1 < sz" "sz \<le> length buf" "terminator t" "d \<noteq> NUL"
  shows "http_get_line sz buf (map Byte l @ Byte t # Byte d # s) =
           Ret (Suc (length l), put buf 0 (l @ [LF, NUL]), s) \<and>
         epoll_get_line sz buf (map Byte l @ Byte t # Byte d # s) =
           Ret (Suc (length l), put buf 0 (l @ [LF, NUL]), s)"
proof -
  have "map Byte l = [] \<or> starts_with_byte (map Byte l)" by (cases l) auto
  with get_line_reads(1,2) [of "map Byte l" sz buf t "Byte d # s" 1 d s] assms show ?thesis by simp
qed

theorem get_line_reads_line_witness:
  "http_get_line 8 (zeros 8) (map Byte ''ab'' @ Byte LF # Byte CHR ''c'' # map Byte ''d'') =
     Ret (3, cbuf 8 (''ab'' @ [LF]), map Byte ''d'')"
  using get_line_reads_line [of "''ab''" 8 "zeros 8" LF "CHR ''c''" "map Byte ''d''"]
  by (simp add: terminator_def zeros_def cbuf_def put_def numeral_eq_Suc)

text \<open>C24. The exact condition under which \<open>get_line\<close> never returns: a first byte has come, no byte
  that ends a line comes, the buffer does not fill up, and then the peer closes or every call of
  \<open>recv\<close> fails.  The result of \<open>recv\<close> is not looked at in that case, so the thread spins for ever
  on a client that has gone away.\<close>
theorem get_line_never_returns:
  assumes "1 < sz" "sz \<le> length buf"
  shows "(http_get_line sz buf s = Hang \<longleftrightarrow>
            starts_with_byte s \<and> (\<forall>e\<in>set s. plain e) \<and> length (payload s) < sz - 1) \<and>
         (epoll_get_line sz buf s = Hang \<longleftrightarrow>
            starts_with_byte s \<and> (\<forall>e\<in>set s. plain e) \<and> length (payload s) < sz - 1)"
  using get_line_hang_iff [OF assms] by blast

theorem get_line_never_returns_witness:
  "http_get_line 8 (zeros 8) [Byte CHR ''G'', RecvErr] = Hang \<and>
   http_get_line 8 (zeros 8) [RecvErr, Byte CHR ''G''] \<noteq> Hang"
  using get_line_never_returns [of 8 "zeros 8" "[Byte CHR ''G'', RecvErr]"]
    get_line_never_returns [of 8 "zeros 8" "[RecvErr, Byte CHR ''G'']"]
  by (simp add: terminator_def)

text \<open>C26. A line whose bytes fill the buffer up to its last cell makes both functions write the NUL
  one cell past the end of the buffer: the loop stops at \<open>size - 1\<close> bytes, and then a line feed and
  a NUL are stored.\<close>
theorem get_line_writes_past_end:
  assumes "\<forall>c\<in>set l. \<not> terminator c" "length l + 1 = sz" "1 < sz" "length buf = sz"
  shows "http_get_line sz buf (map Byte l @ s) = Fail OutOfBounds \<and>
         epoll_get_line sz buf (map Byte l @ s) = Fail OutOfBounds"
  using get_line_overflow_bytes [OF assms(1-3) assms(4) [symmetric]] by blast

theorem get_line_writes_past_end_witness:
  "http_get_line 4 (zeros 4) (map Byte ''GET'' @ [Byte CHR '' '']) = Fail OutOfBounds"
  using get_line_writes_past_end [of "''GET''" 4 "zeros 4" "[Byte CHR '' '']"]
  by (simp add: terminator_def)

text \<open>The loop that skips the rest of a request header consumes a well-formed block of header
  lines with its blank line, in both servers, and leaves the bytes behind it for the body.\<close>
theorem header_block_skipped:
  assumes "\<forall>h\<in>set hs. good_header sz h" "1 < sz" "length buf = sz" "cstr buf = Ret t" "t \<noteq> [LF]"
  shows "(\<exists>buf1. length buf1 = sz \<and> header_loop http_get_line sz 1 buf (header_block hs @ s) = Ret (buf1, s)) \<and>
         (\<exists>buf1. length buf1 = sz \<and> header_loop epoll_get_line sz 1 buf (header_block hs @ s) = Ret (buf1, s))"
  using http_lines.header_loop_block [of hs sz 1 buf t s] epoll_lines.header_loop_block [of hs sz 1 buf t s]
    assms by simp

theorem header_block_skipped_witness:
  "\<exists>buf1. header_loop http_get_line 16 1 (zeros 16) (header_block [''Host: a'', ''X: y''] @ map Byte ''body'') =
     Ret (buf1, map Byte ''body'')"
  using header_block_skipped [of "[''Host: a'', ''X: y'']" 16 "zeros 16" "[]" "map Byte ''body''"]
  by (auto simp: good_header_def terminator_def cstr_zeros)

text \<open>C25. When the peer closes between two header lines the servers differ.  The \<open>get_line\<close> of the
  thread server returns \<open>0\<close> and the loop ends; that of the epoll server counts the NUL it stores and
  returns \<open>1\<close>, so its loop never ends.\<close>
theorem header_loop_peer_closed:
  assumes "0 < num" "cstr buf = Ret t" "t \<noteq> [LF]" "1 < sz" "sz \<le> length buf"
  shows "header_loop http_get_line sz num buf [] = Ret (buf[0 := NUL], []) \<and>
         header_loop epoll_get_line sz num buf [] = Hang"
  using http_header_loop_closed [OF assms] epoll_header_loop_closed [OF assms] by blast

theorem header_loop_peer_closed_witness:
  "header_loop http_get_line 16 1 (zeros 16) [] = Ret (zeros 16, []) \<and>
   header_loop epoll_get_line 16 1 (zeros 16) [] = Hang"
  using header_loop_peer_closed [of 1 "zeros 16" "[]" 16]
  by (simp add: cstr_zeros) (simp add: zeros_def list_update_same_conv)

end
