(* ===== verification/Comm.thy ===== *)
theory Comm
  imports CString
begin

text \<open>
  The constants of \<open>comm/comm.h\<close> (the HTTP server) and those \<open>server/server.h\<close> declares for the
  epoll server, the fixed response lines, and the copy of a token that both request parsers use.
\<close>

named_theorems size_defs \<open>the buffer sizes\<close>

definition SIZE :: nat where [size_defs]: "SIZE = 1024"
definition INT_TO_STR_SIZE :: nat where [size_defs]: "INT_TO_STR_SIZE = 255"
definition METHOD_SIZE :: nat where [size_defs]: "METHOD_SIZE = 255"
definition URL_SIZE :: nat where [size_defs]: "URL_SIZE = 512"
definition TREATY_SIZE :: nat where [size_defs]: "TREATY_SIZE = 512"
definition PATH_SIZE :: nat where [size_defs]: "PATH_SIZE = 512"
definition QUERY_SIZE :: nat where [size_defs]: "QUERY_SIZE = 512"

definition E_MAX_EVENT :: nat where [size_defs]: "E_MAX_EVENT = 1024"
definition E_BUF_SIZE :: nat where [size_defs]: "E_BUF_SIZE = 128"
definition E_SIZE :: nat where [size_defs]: "E_SIZE = 128"
definition E_METHOD_SIZE :: nat where [size_defs]: "E_METHOD_SIZE = 128"
definition E_PATH_SIZE :: nat where [size_defs]: "E_PATH_SIZE = 128"
definition E_QUERY_SIZE :: nat where [size_defs]: "E_QUERY_SIZE = 128"
definition E_URL_SIZE :: nat where [size_defs]: "E_URL_SIZE = 128"

abbreviation CRLF :: string where "CRLF \<equiv> [CR, LF]"

definition SERVER_STRING :: string where "SERVER_STRING = ''Server: jdbhttp/1.1'' @ CRLF"

text \<open>\<open>sizeof(char *)\<close> on the 32-bit target: the code casts pointers to \<open>int\<close>, and the binaries in the
  repository are 32-bit ELF files.\<close>

definition sizeof_ptr :: nat where "sizeof_ptr = 4"

text \<open>A pointer into a buffer is the suffix it points to; it may point at most one past the end.\<close>

definition at :: "char list \<Rightarrow> nat \<Rightarrow> char list res" where
  "at buf k = (if k \<le> length buf then Ret (drop k buf) else Fail OutOfBounds)"

lemma at_ok [simp]: "k \<le> length buf \<Longrightarrow> at buf k = Ret (drop k buf)"
  by (simp add: at_def)

lemma cbuf_last: "p \<noteq> [] \<Longrightarrow> cbuf n p ! (length p - 1) = last p"
  by (simp add: cbuf_def nth_append last_conv_nth)

lemma no_hang_at [simp, hang_intros]: "no_hang (at buf k)"
  by (simp add: at_def)

text \<open>\<open>get_comm\<close>, in both servers: skip the spaces, then copy up to the next space or NUL.  Nothing
  compares the index with the size of \<open>str\<close>, and no NUL is written behind the copy.\<close>

fun skip_spaces :: "char list \<Rightarrow> char list res" where
  "skip_spaces [] = Fail OutOfBounds"
| "skip_spaces (c # p) = (if c = CHR '' '' then skip_spaces p else Ret (c # p))"

fun copy_token :: "char list \<Rightarrow> char list \<Rightarrow> nat \<Rightarrow> (nat \<times> char list) res" where
  "copy_token [] str i = Fail OutOfBounds"
| "copy_token (c # p) str i =
    (if c = CHR '' '' then Ret (i, str)
     else if c = NUL then Ret (i, str)
     else bindR (wr str i c) (\<lambda>str1. copy_token p str1 (Suc i)))"

definition token :: "string \<Rightarrow> bool" where
  "token w \<longleftrightarrow> w \<noteq> [] \<and> CHR '' '' \<notin> set w \<and> NUL \<notin> set w"

lemma token_no_nul: "token w \<Longrightarrow> no_nul w"
  by (simp add: token_def no_nul_def)

lemma skip_spaces_token [simp]: "token w \<Longrightarrow> skip_spaces (w @ p) = Ret (w @ p)"
  by (cases w) (auto simp: token_def)

lemma skip_spaces_one [simp]: "skip_spaces (CHR '' '' # p) = skip_spaces p"
  by simp

lemma copy_token_fits:
  assumes "CHR '' '' \<notin> set w" "NUL \<notin> set w" "c = CHR '' '' \<or> c = NUL" "i + length w \<le> length str"
  shows "copy_token (w @ c # p) str i = Ret (i + length w, put str i w)"
  using assms
proof (induction w arbitrary: str i)
  case Nil
  then show ?case by auto
next
  case (Cons d w)
  then show ?case using Cons.IH [where str = "str[i := d]" and i = "Suc i"] by auto
qed

lemma copy_token_overruns:
  assumes "CHR '' '' \<notin> set w" "NUL \<notin> set w" "length str < i + length w" "i \<le> length str"
  shows "copy_token (w @ p) str i = Fail OutOfBounds"
  using assms
proof (induction w arbitrary: str i)
  case Nil
  then show ?case by simp
next
  case (Cons d w)
  then show ?case
    using Cons.IH [where str = "str[i := d]" and i = "Suc i"] by (cases "i < length str") auto
qed

lemma no_hang_copy_token [simp, hang_intros]: "no_hang (copy_token p str i)"
  by (induction p str i rule: copy_token.induct) (auto intro: hang_intros)

lemma no_hang_skip_spaces [simp, hang_intros]: "no_hang (skip_spaces p)"
  by (induction p) auto

text \<open>The faults of the parsers are accesses outside a buffer, nothing else.\<close>

definition oob_only :: "'a res \<Rightarrow> bool" where
  "oob_only m \<longleftrightarrow> (\<forall>e. m = Fail e \<longrightarrow> e = OutOfBounds)"

named_theorems oob_intros \<open>computations whose only fault is an access out of bounds\<close>

lemma oob_only_simps [simp]: "oob_only (Ret x)" "oob_only Hang" "oob_only (Fail e) \<longleftrightarrow> e = OutOfBounds"
  by (auto simp: oob_only_def)

lemma oob_only_Ret [oob_intros]: "oob_only (Ret x)"
  by simp

lemma oob_only_bindR [oob_intros]: "oob_only m \<Longrightarrow> (\<And>x. oob_only (f x)) \<Longrightarrow> oob_only (bindR m f)"
  unfolding oob_only_def bindR_eq_Fail by blast

lemma oob_only_basic [simp, oob_intros]:
  "oob_only (rd buf i)" "oob_only (wr buf i c)" "oob_only (cstr buf)" "oob_only (strcpy d s)"
  "oob_only (at buf i)"
  by (auto simp: rd_def wr_def cstr_def strcpy_def at_def)

lemma oob_only_strcat [simp, oob_intros]: "oob_only (strcat d s)"
  unfolding strcat_def by (intro oob_intros)

lemma oob_only_skip_spaces [simp, oob_intros]: "oob_only (skip_spaces p)"
  by (induction p) auto

lemma oob_only_copy_token [simp, oob_intros]: "oob_only (copy_token p str i)"
  by (induction p str i rule: copy_token.induct) (auto intro: oob_intros)

lemma oob_only_prod [oob_intros]: "(\<And>a b. oob_only (f a b)) \<Longrightarrow> oob_only (case r of (a, b) \<Rightarrow> f a b)"
  by (cases r) simp

lemma oob_only_if [oob_intros]: "oob_only m \<Longrightarrow> oob_only n \<Longrightarrow> oob_only (if b then m else n)"
  by simp

lemma fails_oob: "oob_only m \<Longrightarrow> no_hang m \<Longrightarrow> (\<And>x. m \<noteq> Ret x) \<Longrightarrow> m = Fail OutOfBounds"
  by (cases m) (auto simp: oob_only_def, metis sum.exhaust)

text \<open>The name of the resource: everything in front of the question mark, and what stands behind it.\<close>

definition before_q :: "string \<Rightarrow> string" where
  "before_q u = takeWhile (\<lambda>c. c \<noteq> CHR ''?'') u"

definition after_q :: "string \<Rightarrow> string" where
  "after_q u = tl (dropWhile (\<lambda>c. c \<noteq> CHR ''?'') u)"

fun scan_q :: "char list \<Rightarrow> nat \<Rightarrow> nat res" where
  "scan_q [] j = Fail OutOfBounds"
| "scan_q (c # p) j = (if c \<noteq> CHR ''?'' \<and> c \<noteq> NUL then scan_q p (Suc j) else Ret j)"

lemma oob_only_scan_q [simp, oob_intros]: "oob_only (scan_q p j)"
  by (induction p j rule: scan_q.induct) auto

lemma no_hang_scan_q [simp, hang_intros]: "no_hang (scan_q p j)"
  by (induction p j rule: scan_q.induct) auto

lemma scan_q_found:
  "CHR ''?'' \<notin> set w \<Longrightarrow> no_nul w \<Longrightarrow> c = CHR ''?'' \<or> c = NUL \<Longrightarrow> scan_q (w @ c # p) j = Ret (j + length w)"
  by (induction w arbitrary: j) auto

lemma q_split: "CHR ''?'' \<in> set u \<Longrightarrow> u = before_q u @ CHR ''?'' # after_q u"
  by (induction u) (auto simp: before_q_def after_q_def)

lemma length_after_q:
  "CHR ''?'' \<in> set u \<Longrightarrow> length u = Suc (length (before_q u) + length (after_q u))"
  by (induction u) (auto simp: before_q_def after_q_def)

lemma before_q_no_q: "CHR ''?'' \<notin> set (before_q u)"
  by (auto simp: before_q_def dest: set_takeWhileD)

lemma before_q_none [simp]: "CHR ''?'' \<notin> set u \<Longrightarrow> before_q u = u"
  by (induction u) (auto simp: before_q_def)

text \<open>The file a resource stands for: \<open>htdocs\<close>, the resource, and \<open>index.html\<close> behind a final slash.\<close>

definition resource_path :: "string \<Rightarrow> string" where
  "resource_path u =
     ''htdocs'' @ u @ (if last (''htdocs'' @ u) = CHR ''/'' then ''index.html'' else [])"

end
