(* ===== verification/World.thy ===== *)
theory World
  imports Line_Reader Comm
begin

text \<open>
  What the servers see of the operating system: the files, and the table of open descriptors of the
  process.  \<open>open\<close>, \<open>fopen\<close>, \<open>close\<close>, \<open>send\<close>, \<open>sendfile\<close>, \<open>recv\<close> and \<open>stat\<close> are functions on
  this state, in the part of their behaviour that the source depends on.
\<close>

datatype inode = Directory nat | Regular string

text \<open>What a descriptor stands for.  A socket has the input that is still to come, the bytes accepted
  for sending, and the room left in its send buffer; without a bound (\<open>None\<close>) it is a blocking socket,
  which takes everything.  A listening socket has its port.  A pipe end carries its bytes.\<close>

datatype object =
    Socket rx string "nat option"
  | Listening nat
  | Opened inode
  | PipeRead string
  | PipeWrite string
  | EpollSet
  | Terminal

text \<open>The descriptor table has a fixed length, the limit of the process.\<close>

record world =
  files :: "string \<Rightarrow> inode option"
  fds :: "object option list"

text \<open>A descriptor is \<open>None\<close> when it is \<open>-1\<close>.\<close>

type_synonym fd = "nat option"

section \<open>The descriptor table\<close>

definition lowest :: "object option list \<Rightarrow> nat" where
  "lowest xs = length (takeWhile (\<lambda>e. e \<noteq> None) xs)"

definition fd_new :: "object \<Rightarrow> world \<Rightarrow> fd \<times> world" where
  "fd_new ob w =
    (let n = lowest (fds w)
     in if n < length (fds w) then (Some n, w\<lparr>fds := (fds w)[n := Some ob]\<rparr>) else (None, w))"

definition fd_get :: "world \<Rightarrow> fd \<Rightarrow> object option" where
  "fd_get w f = (case f of None \<Rightarrow> None | Some n \<Rightarrow> if n < length (fds w) then fds w ! n else None)"

definition fd_set :: "fd \<Rightarrow> object option \<Rightarrow> world \<Rightarrow> world" where
  "fd_set f ob w = (case f of None \<Rightarrow> w | Some n \<Rightarrow> w\<lparr>fds := (fds w)[n := ob]\<rparr>)"

definition close :: "fd \<Rightarrow> world \<Rightarrow> world" where
  "close f w = fd_set f None w"

definition open_count :: "world \<Rightarrow> nat" where
  "open_count w = length (filter (\<lambda>e. e \<noteq> None) (fds w))"

definition free_count :: "world \<Rightarrow> nat" where
  "free_count w = length (filter (\<lambda>e. e = None) (fds w))"

lemma count_sum: "open_count w + free_count w = length (fds w)"
  using sum_length_filter_compl [of "\<lambda>e. e = None" "fds w"] by (simp add: open_count_def free_count_def)

lemma lowest_le: "lowest xs \<le> length xs"
  by (simp add: lowest_def length_takeWhile_le)

lemma lowest_free: "lowest xs < length xs \<Longrightarrow> xs ! lowest xs = None"
  unfolding lowest_def using nth_length_takeWhile by blast

lemma lowest_iff: "lowest xs < length xs \<longleftrightarrow> None \<in> set xs"
  by (induction xs) (auto simp: lowest_def)

lemma free_pos_iff: "0 < free_count w \<longleftrightarrow> lowest (fds w) < length (fds w)"
  by (auto simp: free_count_def lowest_iff filter_empty_conv)

lemma count_update_free:
  "n < length xs \<Longrightarrow> xs ! n = None \<Longrightarrow>
    length (filter (\<lambda>e. e = None) xs) = Suc (length (filter (\<lambda>e. e = None) (xs[n := Some ob])))"
  by (induction xs arbitrary: n) (auto split: nat.splits)

lemma count_update_used:
  "n < length xs \<Longrightarrow> xs ! n = Some x \<Longrightarrow>
    length (filter (\<lambda>e. e = None) (xs[n := Some ob])) = length (filter (\<lambda>e. e = None) xs)"
  by (induction xs arbitrary: n) (auto split: nat.splits)

lemma fd_new_free:
  assumes "0 < free_count w"
  obtains n where "fd_new ob w = (Some n, w\<lparr>fds := (fds w)[n := Some ob]\<rparr>)" "n < length (fds w)"
    "fds w ! n = None" "free_count (w\<lparr>fds := (fds w)[n := Some ob]\<rparr>) = free_count w - 1"
    "n = lowest (fds w)"
proof
  have low: "lowest (fds w) < length (fds w)" using assms by (simp add: free_pos_iff)
  then show "fd_new ob w = (Some (lowest (fds w)), w\<lparr>fds := (fds w)[lowest (fds w) := Some ob]\<rparr>)"
    "lowest (fds w) < length (fds w)" "fds w ! lowest (fds w) = None"
    by (simp_all add: fd_new_def lowest_free Let_def)
  then show "free_count (w\<lparr>fds := (fds w)[lowest (fds w) := Some ob]\<rparr>) = free_count w - 1"
    using count_update_free [of "lowest (fds w)" "fds w" ob] by (simp add: free_count_def)
qed simp

lemma fd_new_full: "free_count w = 0 \<Longrightarrow> fd_new ob w = (None, w)"
  using free_pos_iff [of w] by (simp add: fd_new_def Let_def)

lemma fd_get_lt: "fd_get w (Some n) = Some ob \<longleftrightarrow> n < length (fds w) \<and> fds w ! n = Some ob"
  by (auto simp: fd_get_def)

lemma files_fd [simp]: "files (fd_set f ob w) = files w" "files (close f w) = files w"
  "files (snd (fd_new x w)) = files w"
  by (auto simp: fd_set_def close_def fd_new_def Let_def split: option.splits)

section \<open>Sockets\<close>

text \<open>Receiving on a descriptor that is no open socket gives \<open>-1\<close>, on a closed connection \<open>0\<close>; the code
  only asks whether a byte came, so both are an empty input.\<close>

definition sock_rx :: "fd \<Rightarrow> world \<Rightarrow> rx" where
  "sock_rx f w = (case fd_get w f of Some (Socket r t m) \<Rightarrow> r | _ \<Rightarrow> [])"

definition set_rx :: "fd \<Rightarrow> rx \<Rightarrow> world \<Rightarrow> world" where
  "set_rx f r w = (case fd_get w f of Some (Socket r0 t m) \<Rightarrow> fd_set f (Some (Socket r t m)) w | _ \<Rightarrow> w)"

text \<open>What a send buffer with \<open>m\<close> bytes of room takes of the data, and what room is left.\<close>

definition accepted :: "nat option \<Rightarrow> string \<Rightarrow> string" where
  "accepted m d = (case m of None \<Rightarrow> d | Some n \<Rightarrow> take n d)"

definition room_left :: "nat option \<Rightarrow> string \<Rightarrow> nat option" where
  "room_left m d = map_option (\<lambda>n. n - length d) m"

definition send :: "fd \<Rightarrow> string \<Rightarrow> world \<Rightarrow> world" where
  "send f d w =
    (case fd_get w f of
       Some (Socket r t m) \<Rightarrow> fd_set f (Some (Socket r (t @ accepted m d) (room_left m d))) w
     | _ \<Rightarrow> w)"

definition sendfile :: "fd \<Rightarrow> fd \<Rightarrow> nat \<Rightarrow> world \<Rightarrow> world" where
  "sendfile f file k w =
    (case fd_get w file of Some (Opened (Regular c)) \<Rightarrow> send f (take k c) w | _ \<Rightarrow> w)"

text \<open>\<open>strcpy(buf, s); send(sock, buf, strlen(buf), 0)\<close> through a cleared buffer of \<open>n\<close> bytes.\<close>

definition send_line :: "nat \<Rightarrow> string \<Rightarrow> fd \<Rightarrow> world \<Rightarrow> world res" where
  "send_line n s f w =
    bindR (memset0 (zeros n) n) (\<lambda>buf0. bindR (strcpy buf0 s) (\<lambda>buf. bindR (cstr buf) (\<lambda>t.
      Ret (send f t w))))"

definition open_read :: "string \<Rightarrow> world \<Rightarrow> fd \<times> world" where
  "open_read p w = (case files w p of None \<Rightarrow> (None, w) | Some i \<Rightarrow> fd_new (Opened i) w)"

lemma send_line_eq [simp]: "no_nul s \<Longrightarrow> length s < n \<Longrightarrow> send_line n s f w = Ret (send f s w)"
  using memset0_all [of "zeros n"] by (simp add: send_line_def buf_simps)

lemma accepted_append: "accepted m (a @ b) = accepted m a @ accepted (room_left m a) b"
  by (cases m) (simp_all add: accepted_def room_left_def)

lemma room_left_append: "room_left m (a @ b) = room_left (room_left m a) b"
  by (cases m) (simp_all add: room_left_def)

lemma accepted_None [simp]: "accepted None d = d" "room_left None d = None"
  by (simp_all add: accepted_def room_left_def)

lemma fd_get_set [simp]: "n < length (fds w) \<Longrightarrow> fd_get (fd_set (Some n) ob w) (Some n) = ob"
  by (simp add: fd_get_def fd_set_def)

lemma fd_set_set [simp]: "fd_set f b (fd_set f a w) = fd_set f b w"
  by (cases f) (simp_all add: fd_set_def)

lemma fd_get_bound: "fd_get w f = Some ob \<Longrightarrow> \<exists>n. f = Some n \<and> n < length (fds w)"
  by (auto simp: fd_get_def split: option.splits if_splits)

lemma fd_get_set_same [simp]: "fd_get w f = Some ob \<Longrightarrow> fd_get (fd_set f x w) f = x"
  using fd_get_bound [of w f ob] by auto

lemma fd_get_set_other [simp]: "f \<noteq> g \<Longrightarrow> fd_get (fd_set f x w) g = fd_get w g"
  by (cases f; cases g) (auto simp: fd_get_def fd_set_def)

lemma fd_set_get [simp]: "fd_get w f = Some ob \<Longrightarrow> fd_set f (Some ob) w = w"
  by (cases f) (auto simp: fd_get_def fd_set_def list_update_same_conv split: if_splits)

lemma fd_set_swap: "f \<noteq> g \<Longrightarrow> fd_set f a (fd_set g b w) = fd_set g b (fd_set f a w)"
  by (cases f; cases g) (auto simp: fd_set_def list_update_swap)

text \<open>Consecutive sends amount to one: what matters is the concatenation.\<close>

lemma send_send: "send f b (send f a w) = send f (a @ b) w"
proof (cases "fd_get w f")
  case (Some ob)
  then show ?thesis
    by (cases ob) (auto simp: send_def accepted_append room_left_append)
qed (simp add: send_def)

lemma send_socket: "fd_get w f = Some (Socket r t m) \<Longrightarrow>
    send f d w = fd_set f (Some (Socket r (t @ accepted m d) (room_left m d))) w"
  by (simp add: send_def)

lemma files_send [simp]: "files (send f d w) = files w" "files (set_rx f r w) = files w"
  by (auto simp: send_def set_rx_def split: option.splits object.splits)

lemma free_count_set_used:
  "fd_get w f = Some x \<Longrightarrow> free_count (fd_set f (Some y) w) = free_count w"
  by (auto simp: fd_get_def fd_set_def free_count_def count_update_used split: option.splits if_splits)

lemma free_count_close:
  assumes "fd_get w f = Some x"
  shows "free_count (close f w) = Suc (free_count w)"
proof -
  from assms obtain a where a: "f = Some a" "a < length (fds w)" "fds w ! a = Some x"
    by (auto simp: fd_get_def split: option.splits if_splits)
  then have "(fds w)[a := None, a := Some x] = fds w" by (metis list_update_id list_update_overwrite)
  with count_update_free [of a "(fds w)[a := None]" x] a show ?thesis
    by (simp add: close_def fd_set_def free_count_def)
qed

lemma length_fds [simp]: "length (fds (fd_set f x w)) = length (fds w)"
  by (simp add: fd_set_def split: option.splits)

lemma open_count_free: "length (fds w) = length (fds w') \<Longrightarrow> free_count w = free_count w' + k \<Longrightarrow>
    open_count w' = open_count w + k"
  using count_sum [of w] count_sum [of w'] by simp

end
