(* ===== verification/Request.thy ===== *)
theory Request
  imports Comm
begin

text \<open>
  Taking the request line apart: \<open>server_http::get_path_method_query\<close> with the three names of
  \<open>get_comm\<close> it calls (\<open>server/server_http.h\<close>), and \<open>get_method_path_url\<close> of the epoll server
  (\<open>server/server.h\<close>).
\<close>

section \<open>The HTTP server\<close>

text \<open>The local arrays \<open>Accept\<close> hands over, all cleared, and the flag \<open>cgi\<close>.\<close>

record request =
  rq_cgi :: int
  rq_path :: "char list"
  rq_method :: "char list"
  rq_url :: "char list"
  rq_query :: "char list"
  rq_treaty :: "char list"

definition init_request :: request where
  "init_request = \<lparr>rq_cgi = 0, rq_path = zeros PATH_SIZE, rq_method = zeros METHOD_SIZE,
     rq_url = zeros URL_SIZE, rq_query = zeros QUERY_SIZE, rq_treaty = zeros TREATY_SIZE\<rparr>"

definition get_comm :: "char list \<Rightarrow> char list \<Rightarrow> (nat \<times> char list) res" where
  "get_comm buf str = bindR (skip_spaces buf) (\<lambda>p. copy_token p str 0)"

definition get_method :: "char list \<Rightarrow> char list \<Rightarrow> (nat \<times> char list) res" where
  "get_method buf method = get_comm buf method"

definition get_url :: "char list \<Rightarrow> char list \<Rightarrow> (nat \<times> char list) res" where
  "get_url buf url = get_comm buf url"

definition get_treaty :: "char list \<Rightarrow> char list \<Rightarrow> (nat \<times> char list) res" where
  "get_treaty buf treaty = get_comm buf treaty"

text \<open>The lines from \<open>if(strcmp(method,"POST")==0)\<close> to the copy of the query: the flag, the address with
  its question mark overwritten, and the position \<open>cur\<close>.\<close>

definition split_url :: "string \<Rightarrow> int \<Rightarrow> char list \<Rightarrow> (int \<times> char list \<times> nat) res" where
  "split_url m cgi url =
    (let cgi1 = (if m = ''POST'' then 1 else cgi)
     in if m = ''GET'' then
          bindR (scan_q url 0) (\<lambda>j. bindR (rd url j) (\<lambda>c.
            if c = CHR ''?'' then bindR (wr url j NUL) (\<lambda>url1. Ret (1, url1, Suc j))
            else Ret (cgi1, url, j)))
        else Ret (cgi1, url, 0))"

definition make_path :: "char list \<Rightarrow> string \<Rightarrow> char list res" where
  "make_path path u =
    bindR (strcpy path (''htdocs'' @ u)) (\<lambda>path1. bindR (cstr path1) (\<lambda>t.
      bindR (rd path1 (length t - 1)) (\<lambda>c.
        if c = CHR ''/'' then strcat path1 ''index.html'' else Ret path1)))"

definition get_path_method_query :: "char list \<Rightarrow> request \<Rightarrow> request res" where
  "get_path_method_query buf r =
    bindR (get_method buf (rq_method r)) (\<lambda>(len1, method).
    bindR (at buf (len1 + 1)) (\<lambda>p1. bindR (get_url p1 (rq_url r)) (\<lambda>(len2, url).
    bindR (at buf (len1 + len2 + 1)) (\<lambda>p2. bindR (get_treaty p2 (rq_treaty r)) (\<lambda>(len3, treaty).
    bindR (cstr method) (\<lambda>m.
    bindR (split_url m (rq_cgi r) url) (\<lambda>(cgi, url1, cur).
    bindR (at url1 cur) (\<lambda>pq. bindR (cstr pq) (\<lambda>q. bindR (strcpy (rq_query r) q) (\<lambda>query.
    bindR (cstr url1) (\<lambda>u. bindR (make_path (rq_path r) u) (\<lambda>path.
    bindR (cstr treaty) (\<lambda>_.
      Ret (r\<lparr>rq_cgi := cgi, rq_path := path, rq_method := method, rq_url := url1,
             rq_query := query, rq_treaty := treaty\<rparr>))))))))))))))"

section \<open>The epoll server\<close>

definition epoll_get_comm :: "char list \<Rightarrow> char list \<Rightarrow> (nat \<times> char list) res" where
  "epoll_get_comm buf str = bindR (skip_spaces buf) (\<lambda>p. copy_token p str 0)"

definition epoll_get_method :: "char list \<Rightarrow> char list \<Rightarrow> (nat \<times> char list) res" where
  "epoll_get_method buf method = epoll_get_comm buf method"

definition epoll_get_url :: "char list \<Rightarrow> char list \<Rightarrow> (nat \<times> char list) res" where
  "epoll_get_url buf url = epoll_get_comm buf url"

record epoll_request =
  er_cgi :: int
  er_method :: "char list"
  er_path :: "char list"
  er_url :: "char list"

definition init_epoll_request :: epoll_request where
  "init_epoll_request = \<lparr>er_cgi = 0, er_method = zeros E_METHOD_SIZE, er_path = zeros E_PATH_SIZE,
     er_url = zeros E_URL_SIZE\<rparr>"

text \<open>Any method but GET and POST leaves the path empty.\<close>

definition get_method_path_url :: "char list \<Rightarrow> epoll_request \<Rightarrow> epoll_request res" where
  "get_method_path_url buf r =
    bindR (epoll_get_method buf (er_method r)) (\<lambda>(len1, method).
    bindR (at buf (len1 + 1)) (\<lambda>p1. bindR (epoll_get_url p1 (er_url r)) (\<lambda>(len2, url).
    bindR (cstr method) (\<lambda>m.
      if \<not> strcaseeq m ''GET'' \<and> \<not> strcaseeq m ''POST'' then
        Ret (r\<lparr>er_method := method, er_url := url\<rparr>)
      else
        bindR (split_url m (er_cgi r) url) (\<lambda>(cgi, url1, cur).
        bindR (cstr url1) (\<lambda>u. bindR (make_path (er_path r) u) (\<lambda>path.
          Ret (r\<lparr>er_cgi := cgi, er_method := method, er_path := path, er_url := url1\<rparr>))))))))"

section \<open>What the parsers compute\<close>

text \<open>The meaning of a request line, without buffers.  A GET is split at its question mark; for every
  other method the whole address is the query.\<close>

definition spec_resource :: "string \<Rightarrow> string \<Rightarrow> string" where
  "spec_resource m u = (if m = ''GET'' then before_q u else u)"

definition spec_query :: "string \<Rightarrow> string \<Rightarrow> string" where
  "spec_query m u =
     (if m = ''GET'' then (if CHR ''?'' \<in> set u then after_q u else []) else u)"

definition spec_cgi :: "string \<Rightarrow> string \<Rightarrow> bool" where
  "spec_cgi m u \<longleftrightarrow> m = ''POST'' \<or> m = ''GET'' \<and> CHR ''?'' \<in> set u"

definition request_line :: "string \<Rightarrow> string \<Rightarrow> string \<Rightarrow> string" where
  "request_line m u t = m @ CHR '' '' # u @ CHR '' '' # t"

lemma length_request_line: "length (request_line m u t) = length m + length u + length t + 2"
  by (simp add: request_line_def)

subsection \<open>Tokens in a line\<close>

lemma get_comm_token:
  assumes "token w" "c = CHR '' '' \<or> c = NUL" "length w < n"
  shows "get_comm (w @ c # p) (zeros n) = Ret (length w, cbuf n w)"
  using assms copy_token_fits [of w c 0 "zeros n" p]
  by (simp add: get_comm_def token_def buf_simps)

lemma epoll_get_comm_eq: "epoll_get_comm = get_comm"
  by (intro ext) (simp add: epoll_get_comm_def get_comm_def)

lemma get_comm_token_space: "get_comm (CHR '' '' # p) str = get_comm p str"
  by (simp add: get_comm_def)

lemma line_buffer:
  assumes "length (request_line m u t) < n"
  shows "cbuf n (request_line m u t) = m @ CHR '' '' # u @ CHR '' '' # t @ NUL # zeros (n - Suc (length (request_line m u t)))"
  using cbuf_split [OF assms] by (simp add: request_line_def)

lemma drop_append_Cons: "drop (length xs + 1) (xs @ y # ys) = ys"
  by simp

lemma tokens_of_line:
  assumes "token m" "token u" "token t" "length (request_line m u t) < n"
  shows "length m < k \<Longrightarrow> get_comm (cbuf n (request_line m u t)) (zeros k) = Ret (length m, cbuf k m)"
    and "length u < k \<Longrightarrow> bindR (at (cbuf n (request_line m u t)) (Suc (length m))) (\<lambda>p. get_comm p (zeros k))
           = Ret (length u, cbuf k u)"
    and "length t < k \<Longrightarrow> bindR (at (cbuf n (request_line m u t)) (Suc (length m + length u))) (\<lambda>p. get_comm p (zeros k))
           = Ret (length t, cbuf k t)"
proof -
  let ?z = "zeros (n - Suc (length (request_line m u t)))"
  have len: "length (cbuf n (request_line m u t)) = n" using assms(4) by simp
  have d1: "drop (length m + 1) (cbuf n (request_line m u t)) = u @ CHR '' '' # t @ NUL # ?z"
    by (simp add: line_buffer [OF assms(4)])
  have "drop (length m + length u + 1) (cbuf n (request_line m u t)) = drop (length u) (drop (length m + 1) (cbuf n (request_line m u t)))"
    by (simp add: add.commute)
  then have d2: "drop (length m + length u + 1) (cbuf n (request_line m u t)) = CHR '' '' # t @ NUL # ?z"
    by (simp only: d1) simp
  show "length m < k \<Longrightarrow> get_comm (cbuf n (request_line m u t)) (zeros k) = Ret (length m, cbuf k m)"
    using get_comm_token [OF assms(1)] by (simp add: line_buffer [OF assms(4)])
  show "length u < k \<Longrightarrow> bindR (at (cbuf n (request_line m u t)) (Suc (length m))) (\<lambda>p. get_comm p (zeros k))
           = Ret (length u, cbuf k u)"
    using get_comm_token [OF assms(2)] assms(4) d1 len by (simp add: length_request_line)
  show "length t < k \<Longrightarrow> bindR (at (cbuf n (request_line m u t)) (Suc (length m + length u))) (\<lambda>p. get_comm p (zeros k))
           = Ret (length t, cbuf k t)"
    using get_comm_token [OF assms(3), of NUL k ?z] assms(4) d2 len
    by (simp add: length_request_line get_comm_token_space)
qed

subsection \<open>Splitting the address\<close>

lemma split_url_get_query:
  assumes "token u" "length u < n" "CHR ''?'' \<in> set u"
  shows "split_url ''GET'' cgi (cbuf n u) = Ret (1, (cbuf n u)[length (before_q u) := NUL], Suc (length (before_q u)))"
proof -
  have nn: "no_nul (before_q u)"
    using token_no_nul [OF assms(1)] by (auto simp: before_q_def no_nul_def dest: set_takeWhileD)
  have cb: "cbuf n u = before_q u @ CHR ''?'' # after_q u @ zeros (n - length u)"
    using q_split [OF assms(3)] by (simp add: cbuf_def)
  have "scan_q (cbuf n u) 0 = Ret (length (before_q u))"
    using scan_q_found [OF before_q_no_q nn, of "CHR ''?''"] cb by simp
  moreover have "rd (cbuf n u) (length (before_q u)) = Ret (CHR ''?'')"
    unfolding cb by (simp add: nth_append)
  moreover have "length (before_q u) < length (cbuf n u)" unfolding cb by simp
  ultimately show ?thesis by (simp add: split_url_def)
qed

lemma split_url_get_plain:
  assumes "no_nul u" "length u < n" "CHR ''?'' \<notin> set u"
  shows "split_url ''GET'' cgi (cbuf n u) = Ret (cgi, cbuf n u, length u)"
proof -
  have "scan_q (cbuf n u) 0 = Ret (length u)"
    using scan_q_found [OF assms(3,1), of NUL] by (simp add: cbuf_split [OF assms(2)])
  moreover have "rd (cbuf n u) (length u) = Ret NUL"
    by (simp add: cbuf_split [OF assms(2)] nth_append)
  ultimately show ?thesis by (simp add: split_url_def)
qed

lemma split_url_other:
  "m \<noteq> ''GET'' \<Longrightarrow> split_url m cgi url = Ret (if m = ''POST'' then 1 else cgi, url, 0)"
  by (simp add: split_url_def)

text \<open>The address buffer after the split, and the strings at its start and at \<open>cur\<close>.\<close>

definition cut_url :: "nat \<Rightarrow> string \<Rightarrow> string \<Rightarrow> char list" where
  "cut_url n m u = (if m = ''GET'' \<and> CHR ''?'' \<in> set u then (cbuf n u)[length (before_q u) := NUL] else cbuf n u)"

definition query_at :: "string \<Rightarrow> string \<Rightarrow> nat" where
  "query_at m u = (if m = ''GET'' then (if CHR ''?'' \<in> set u then Suc (length (before_q u)) else length u) else 0)"

lemma split_url_eq:
  assumes "token u" "length u < n"
  shows "split_url m 0 (cbuf n u) = Ret (if spec_cgi m u then 1 else 0, cut_url n m u, query_at m u)"
  using assms split_url_get_query [OF assms] split_url_get_plain [OF token_no_nul [OF assms(1)] assms(2)]
  by (cases "m = ''GET''"; cases "CHR ''?'' \<in> set u")
    (auto simp: spec_cgi_def cut_url_def query_at_def split_url_other)

lemma cut_url_strings:
  assumes "token u" "length u < n"
  shows "cstr (cut_url n m u) = Ret (spec_resource m u)"
    and "bindR (at (cut_url n m u) (query_at m u)) cstr = Ret (spec_query m u)"
    and "length (cut_url n m u) = n"
proof -
  have nu: "no_nul u" using assms(1) by (rule token_no_nul)
  show "length (cut_url n m u) = n" using assms(2) by (simp add: cut_url_def)
  show "cstr (cut_url n m u) = Ret (spec_resource m u)"
    and "bindR (at (cut_url n m u) (query_at m u)) cstr = Ret (spec_query m u)"
  proof (atomize (full), cases "m = ''GET'' \<and> CHR ''?'' \<in> set u")
    case True
    then have sp: "u = before_q u @ CHR ''?'' # after_q u" by (intro q_split) simp
    have nn: "no_nul (before_q u)" "no_nul (after_q u)"
      using nu by (subst (asm) sp, simp)+
    have cb: "cbuf n u = before_q u @ CHR ''?'' # after_q u @ NUL # zeros (n - Suc (length u))"
      using cbuf_split [OF assms(2)] sp by (metis append.assoc append_Cons)
    then have cut: "cut_url n m u = before_q u @ NUL # after_q u @ NUL # zeros (n - Suc (length u))"
      using True by (simp add: cut_url_def)
    then have "length (before_q u) < length (cut_url n m u)" by simp
    with True nn cut show "cstr (cut_url n m u) = Ret (spec_resource m u) \<and>
        bindR (at (cut_url n m u) (query_at m u)) cstr = Ret (spec_query m u)"
      by (simp add: spec_resource_def spec_query_def query_at_def)
  next
    case False
    have tail: "cbuf n u = u @ NUL # zeros (n - Suc (length u))" using assms(2) by (rule cbuf_split)
    have "cstr (NUL # zeros (n - Suc (length u))) = Ret []" using cstr_app [of "[]"] by simp
    with False nu tail assms(2) show "cstr (cut_url n m u) = Ret (spec_resource m u) \<and>
        bindR (at (cut_url n m u) (query_at m u)) cstr = Ret (spec_query m u)"
      by (auto simp: cut_url_def spec_resource_def spec_query_def query_at_def buf_simps)
  qed
qed

subsection \<open>The path\<close>

lemma resource_path_prefix: "\<exists>w. resource_path u = ''htdocs'' @ u @ w"
  by (simp add: resource_path_def)

lemma no_nul_resource_path [simp]: "no_nul u \<Longrightarrow> no_nul (resource_path u)"
  by (simp add: resource_path_def)

lemma length_resource_path: "length (''htdocs'' @ u) \<le> length (resource_path u)"
  by (simp add: resource_path_def)

lemma make_path_ok:
  assumes "no_nul u" "length (resource_path u) < n"
  shows "make_path (zeros n) u = Ret (cbuf n (resource_path u))"
proof -
  let ?p = "''htdocs'' @ u"
  have len: "length ?p < n" using assms(2) length_resource_path [of u] by linarith
  have ne: "?p \<noteq> []" and nn: "no_nul ?p" using assms(1) by simp_all
  have r: "rd (cbuf n ?p) (length ?p - 1) = Ret (last ?p)"
    using len cbuf_last [OF ne, of n] by (simp add: rd_def del: append.simps)
  show ?thesis
    unfolding make_path_def
    using len nn r assms(2)
    by (simp add: strcpy_zeros cstr_cbuf strcat_cbuf resource_path_def del: append.simps
        split: if_splits)
qed

lemma make_path_overflow: "n \<le> length u + 6 \<Longrightarrow> make_path (zeros n) u = Fail OutOfBounds"
  by (simp add: make_path_def strcpy_def)

lemma oob_only_make_path [simp, oob_intros]: "oob_only (make_path path u)"
  unfolding make_path_def by (intro oob_intros)

lemma oob_only_get_comm [simp, oob_intros]: "oob_only (get_comm buf str)"
  unfolding get_comm_def by (intro oob_intros)

lemma oob_only_split_url [simp, oob_intros]: "oob_only (split_url m cgi url)"
  unfolding split_url_def Let_def by (intro oob_intros)

lemma oob_only_parse [simp]: "oob_only (get_path_method_query buf r)"
  unfolding get_path_method_query_def get_method_def get_url_def get_treaty_def
  by (intro oob_intros)

lemma no_hang_get_comm [simp, hang_intros]: "no_hang (get_comm buf str)"
  unfolding get_comm_def by (intro hang_intros)

lemma no_hang_split_url [simp, hang_intros]: "no_hang (split_url m cgi url)"
  unfolding split_url_def Let_def by (intro hang_intros)

lemma no_hang_make_path [simp, hang_intros]: "no_hang (make_path path u)"
  unfolding make_path_def by (intro hang_intros)

lemma no_hang_parse [simp, hang_intros]: "no_hang (get_path_method_query buf r)"
  unfolding get_path_method_query_def get_method_def get_url_def get_treaty_def
  by (intro hang_intros)

lemma no_hang_epoll_parse [simp, hang_intros]: "no_hang (get_method_path_url buf r)"
  unfolding get_method_path_url_def epoll_get_method_def epoll_get_url_def epoll_get_comm_eq
  by (intro hang_intros)

subsection \<open>The whole parse\<close>

lemma no_nul_spec_resource: "token u \<Longrightarrow> no_nul (spec_resource m u)"
  by (auto simp: spec_resource_def before_q_def no_nul_def token_def dest: set_takeWhileD)

lemma length_spec_query: "length (spec_query m u) \<le> length u"
  by (auto simp: spec_query_def dest: length_after_q)

definition parsed :: "string \<Rightarrow> string \<Rightarrow> string \<Rightarrow> request" where
  "parsed m u t = \<lparr>rq_cgi = (if spec_cgi m u then 1 else 0),
     rq_path = cbuf PATH_SIZE (resource_path (spec_resource m u)),
     rq_method = cbuf METHOD_SIZE m, rq_url = cut_url URL_SIZE m u,
     rq_query = cbuf QUERY_SIZE (spec_query m u), rq_treaty = cbuf TREATY_SIZE t\<rparr>"

definition line_fits :: "string \<Rightarrow> string \<Rightarrow> string \<Rightarrow> bool" where
  "line_fits m u t \<longleftrightarrow> token m \<and> token u \<and> token t \<and> length (request_line m u t) < SIZE \<and>
     length m < METHOD_SIZE \<and> length u < URL_SIZE \<and> length t < TREATY_SIZE \<and>
     length (resource_path (spec_resource m u)) < PATH_SIZE"

lemma bind_at_comm:
  fixes f :: "nat \<times> char list \<Rightarrow> 'a res" and g :: "string \<Rightarrow> 'a res"
  shows "bindR (at b k) (\<lambda>p. bindR (get_comm p z) f) = bindR (bindR (at b k) (\<lambda>p. get_comm p z)) f"
    and "bindR (at b k) (\<lambda>p. bindR (cstr p) g) = bindR (bindR (at b k) cstr) g"
  by (simp_all add: bindR_assoc)

lemma parse_unfold:
  assumes "token m" "token u" "token t" "length (request_line m u t) < n"
    "length m < METHOD_SIZE" "length u < URL_SIZE" "length t < TREATY_SIZE"
  shows "get_path_method_query (cbuf n (request_line m u t)) init_request =
    bindR (make_path (zeros PATH_SIZE) (spec_resource m u)) (\<lambda>path.
      Ret ((parsed m u t)\<lparr>rq_path := path\<rparr>))"
proof -
  note tks = tokens_of_line [OF assms(1-4)]
  have q: "strcpy (zeros QUERY_SIZE) (spec_query m u) = Ret (cbuf QUERY_SIZE (spec_query m u))"
    using assms(6) length_spec_query [of m u] by (intro strcpy_zeros) (simp add: size_defs)
  show ?thesis
    unfolding get_path_method_query_def get_method_def get_url_def get_treaty_def init_request_def
    using assms
    by (simp add: tks bind_at_comm split_url_eq cut_url_strings q cstr_cbuf token_no_nul parsed_def
        del: at_ok)
qed

lemma parse_line_eq:
  assumes "line_fits m u t"
  shows "get_path_method_query (cbuf SIZE (request_line m u t)) init_request = Ret (parsed m u t)"
  using assms
  by (simp add: line_fits_def parse_unfold make_path_ok no_nul_spec_resource) (simp add: parsed_def)

text \<open>C16. On a request line of three tokens that fit their buffers, the parser stores the method, the
  address and the protocol, splits a GET at the first question mark (the part behind it is the query
  and the request is a CGI request), takes the whole address as the query of any other method,
  treats every POST as a CGI request, and builds the path \<open>htdocs\<close> + resource (+ \<open>index.html\<close> behind
  a final slash).\<close>
theorem parse_request_line:
  assumes "line_fits m u t"
  shows "get_path_method_query (cbuf SIZE (request_line m u t)) init_request = Ret (parsed m u t)"
  using assms by (rule parse_line_eq)

theorem parse_request_line_witness:
  "get_path_method_query (cbuf SIZE (request_line ''GET'' ''/sign?n=li&i=7'' (''HTTP/1.0'' @ [LF]))) init_request
     = Ret (parsed ''GET'' ''/sign?n=li&i=7'' (''HTTP/1.0'' @ [LF]))"
  by (rule parse_request_line) (simp add: line_fits_def token_def request_line_def size_defs
      resource_path_def spec_resource_def before_q_def)

text \<open>No bound protects the arrays: a method of 255 characters or more makes the parser leave its
  array (at 255 the copy fits but is not terminated), whatever follows it in the line.\<close>
theorem parse_long_method:
  assumes "token m" "METHOD_SIZE \<le> length m"
  shows "get_path_method_query (m @ CHR '' '' # p) init_request = Fail OutOfBounds"
proof (rule fails_oob)
  fix r
  show "get_path_method_query (m @ CHR '' '' # p) init_request \<noteq> Ret r"
  proof
    assume "get_path_method_query (m @ CHR '' '' # p) init_request = Ret r"
    then obtain len mbuf t where get: "copy_token (m @ CHR '' '' # p) (zeros METHOD_SIZE) 0 = Ret (len, mbuf)"
      and str: "cstr mbuf = Ret t"
      using assms(1)
      by (auto simp: get_path_method_query_def get_method_def get_comm_def init_request_def
          bindR_eq_Ret split: prod.splits)
    show False
    proof (cases "length m = METHOD_SIZE")
      case True
      with get have "mbuf = m"
        using assms(1) copy_token_fits [of m "CHR '' ''" 0 "zeros METHOD_SIZE" p]
        by (simp add: token_def put_0)
      with str assms(1) show False by (simp add: cstr_def token_def)
    next
      case False
      with get assms show False
        using copy_token_overruns [of m "zeros METHOD_SIZE" 0 "CHR '' '' # p"] by (simp add: token_def)
    qed
  qed
qed simp_all

theorem parse_long_method_witness:
  "get_path_method_query (replicate 300 CHR ''A'' @ CHR '' '' # ''/'') init_request = Fail OutOfBounds"
  by (rule parse_long_method) (auto simp: token_def size_defs)

text \<open>An address that fits its own array can still be too long for the path: with the prefix
  \<open>htdocs\<close> a resource of 506 characters or more overruns \<open>path\<close>.\<close>
theorem parse_long_path:
  assumes "token m" "token u" "token t" "length (request_line m u t) < SIZE"
    "length m < METHOD_SIZE" "length u < URL_SIZE" "length t < TREATY_SIZE"
    and "PATH_SIZE \<le> length (spec_resource m u) + 6"
  shows "get_path_method_query (cbuf SIZE (request_line m u t)) init_request = Fail OutOfBounds"
  using assms by (simp add: parse_unfold make_path_overflow)

theorem parse_long_path_witness:
  "get_path_method_query (cbuf SIZE (request_line ''GET'' (CHR ''/'' # replicate 506 CHR ''a'') ''HTTP/1.0'')) init_request
     = Fail OutOfBounds"
  by (rule parse_long_path) (auto simp: token_def request_line_def size_defs spec_resource_def)

subsection \<open>The epoll parser\<close>

definition epoll_knows :: "string \<Rightarrow> bool" where
  "epoll_knows m \<longleftrightarrow> strcaseeq m ''GET'' \<or> strcaseeq m ''POST''"

definition epoll_parsed :: "string \<Rightarrow> string \<Rightarrow> epoll_request" where
  "epoll_parsed m u =
     (if epoll_knows m then
        \<lparr>er_cgi = (if spec_cgi m u then 1 else 0), er_method = cbuf E_METHOD_SIZE m,
          er_path = cbuf E_PATH_SIZE (resource_path (spec_resource m u)), er_url = cut_url E_URL_SIZE m u\<rparr>
      else init_epoll_request\<lparr>er_method := cbuf E_METHOD_SIZE m, er_url := cbuf E_URL_SIZE u\<rparr>)"

lemma epoll_parse_eq:
  assumes "token m" "token u" "token t" "length (request_line m u t) < E_SIZE"
    "length m < E_METHOD_SIZE" "length u < E_URL_SIZE"
    "length (resource_path (spec_resource m u)) < E_PATH_SIZE"
  shows "get_method_path_url (cbuf E_SIZE (request_line m u t)) init_epoll_request = Ret (epoll_parsed m u)"
  unfolding get_method_path_url_def epoll_get_method_def epoll_get_url_def epoll_get_comm_eq init_epoll_request_def
  using assms tokens_of_line [OF assms(1-4)]
  by (simp add: bind_at_comm split_url_eq cut_url_strings cstr_cbuf token_no_nul
      epoll_parsed_def epoll_knows_def make_path_ok no_nul_spec_resource init_epoll_request_def del: at_ok)

text \<open>The epoll parser on a request line of tokens that fit: GET and POST, in upper case, are
  treated like in the HTTP server; for any method that is neither, in any case, the path stays empty.\<close>
theorem epoll_parse_request_line:
  assumes "token m" "token u" "token t" "length (request_line m u t) < E_SIZE"
    "length m < E_METHOD_SIZE" "length u < E_URL_SIZE"
    "length (resource_path (spec_resource m u)) < E_PATH_SIZE"
  shows "get_method_path_url (cbuf E_SIZE (request_line m u t)) init_epoll_request = Ret (epoll_parsed m u)"
  using assms by (rule epoll_parse_eq)

theorem epoll_parse_request_line_witness:
  "get_method_path_url (cbuf E_SIZE (request_line ''GET'' ''/'' ''HTTP/1.0'')) init_epoll_request
     = Ret (epoll_parsed ''GET'' ''/'')"
  by (rule epoll_parse_request_line)
    (auto simp: token_def request_line_def size_defs spec_resource_def resource_path_def before_q_def)

end
