(* ===== verification/Static_File.thy ===== *)
theory Static_File
  imports World Request
begin

text \<open>
  Answering a request with a file: \<open>send_header\<close>, \<open>exec_get_file\<close> and \<open>exec_get\<close> of the thread server
  (\<open>server/server_http.h\<close>) and of the epoll server (\<open>server/server.h\<close>).  The lines the functions log
  on the console are left out.
\<close>

section \<open>The thread server\<close>

text \<open>The descriptor \<open>send_header\<close> opens is never closed.\<close>

definition send_header :: "fd \<Rightarrow> string \<Rightarrow> nat \<Rightarrow> world \<Rightarrow> world res" where
  "send_header client path sz w =
    (case open_read path w of (f, w0) \<Rightarrow>
      bindR (send_line SIZE (''HTTP/1.0 200 OK'' @ CRLF) client w0) (\<lambda>w1.
      bindR (send_line SIZE SERVER_STRING client w1) (\<lambda>w2.
      bindR (send_line SIZE (''Content-Type:text/html'' @ CRLF) client w2) (\<lambda>w3.
      bindR (send_line SIZE CRLF client w3) (\<lambda>w4.
        Ret (sendfile client f sz w4))))))"

text \<open>When \<open>fopen\<close> fails the null pointer still goes to \<open>fclose\<close>.\<close>

definition exec_get_file :: "fd \<Rightarrow> string \<Rightarrow> nat \<Rightarrow> world \<Rightarrow> world res" where
  "exec_get_file client path sz w =
    bindR (header_loop http_get_line SIZE 1 (zeros SIZE) (sock_rx client w)) (\<lambda>(buf, s).
      (case open_read path (set_rx client s w) of
         (None, w1) \<Rightarrow> Fail NullDeref
       | (Some f, w1) \<Rightarrow> bindR (send_header client path sz w1) (\<lambda>w2. Ret (close (Some f) w2))))"

definition exec_get :: "fd \<Rightarrow> char list \<Rightarrow> world \<Rightarrow> world res" where
  "exec_get client path w =
    bindR (cstr path) (\<lambda>p.
      case files w p of
        None \<Rightarrow> Ret w
      | Some (Directory n) \<Rightarrow>
          bindR (strcat path ''/index.html'') (\<lambda>path1. bindR (cstr path1) (\<lambda>p1.
            exec_get_file client p1 n w))
      | Some (Regular c) \<Rightarrow> exec_get_file client p (length c) w)"

section \<open>The epoll server\<close>

definition epoll_send_header :: "fd \<Rightarrow> string \<Rightarrow> nat \<Rightarrow> world \<Rightarrow> world res" where
  "epoll_send_header sock path sz w =
    (case open_read path w of (f, w0) \<Rightarrow>
      bindR (send_line E_SIZE (''HTTP/1.0 200 OK'' @ CRLF) sock w0) (\<lambda>w1.
      bindR (send_line E_SIZE SERVER_STRING sock w1) (\<lambda>w2.
      bindR (send_line E_SIZE (''COntent-Type:text/html'' @ CRLF) sock w2) (\<lambda>w3.
      bindR (send_line E_SIZE CRLF sock w3) (\<lambda>w4.
        Ret (sendfile sock f sz w4))))))"

definition epoll_exec_get_file :: "fd \<Rightarrow> string \<Rightarrow> nat \<Rightarrow> world \<Rightarrow> world res" where
  "epoll_exec_get_file sock path sz w =
    bindR (header_loop epoll_get_line E_SIZE 1 (zeros E_SIZE) (sock_rx sock w)) (\<lambda>(buf, s).
      (case open_read path (set_rx sock s w) of
         (None, w1) \<Rightarrow> Fail NullDeref
       | (Some f, w1) \<Rightarrow> bindR (epoll_send_header sock path sz w1) (\<lambda>w2. Ret (close (Some f) w2))))"

definition epoll_exec_get :: "fd \<Rightarrow> char list \<Rightarrow> world \<Rightarrow> world res" where
  "epoll_exec_get sock path w =
    bindR (cstr path) (\<lambda>p.
      case files w p of
        None \<Rightarrow> Ret w
      | Some (Directory n) \<Rightarrow>
          bindR (strcat path ''/index.html'') (\<lambda>path1. bindR (cstr path1) (\<lambda>p1.
            epoll_exec_get_file sock p1 n w))
      | Some (Regular c) \<Rightarrow> epoll_exec_get_file sock p (length c) w)"

section \<open>The answer\<close>

definition file_response :: "string \<Rightarrow> string \<Rightarrow> string" where
  "file_response ctype body =
     ''HTTP/1.0 200 OK'' @ CRLF @ SERVER_STRING @ ctype @ '':text/html'' @ CRLF @ CRLF @ body"

lemma server_string_simps [simp]: "no_nul SERVER_STRING" "length SERVER_STRING = 21"
  by (simp_all add: SERVER_STRING_def no_nul_def)

lemma open_read_free:
  assumes "files w p = Some i" "0 < free_count w"
  obtains n where "open_read p w = (Some n, fd_set (Some n) (Some (Opened i)) w)" "n < length (fds w)"
    "fd_get w (Some n) = None" "free_count (fd_set (Some n) (Some (Opened i)) w) = free_count w - 1"
proof -
  from assms(2) obtain n where n: "fd_new (Opened i) w = (Some n, w\<lparr>fds := (fds w)[n := Some (Opened i)]\<rparr>)"
    "n < length (fds w)" "fds w ! n = None"
    "free_count (w\<lparr>fds := (fds w)[n := Some (Opened i)]\<rparr>) = free_count w - 1"
    by (rule fd_new_free)
  show thesis by (rule that [of n]) (use n assms(1) in \<open>simp_all add: open_read_def fd_get_def fd_set_def\<close>)
qed

lemma open_read_full: "free_count w = 0 \<Longrightarrow> open_read p w = (None, w)"
  by (simp add: open_read_def fd_new_full split: option.split)

lemma open_read_missing: "files w p = None \<Longrightarrow> open_read p w = (None, w)"
  by (simp add: open_read_def)

text \<open>What a handler of files promises.  Both servers are instances, with their own reader, buffer size
  and spelling of the header line.\<close>

locale file_server = line_reader getl
  for getl :: "nat \<Rightarrow> char list \<Rightarrow> rx \<Rightarrow> (nat \<times> char list \<times> rx) res" +
  fixes bufsize :: nat and ctype :: string
    and header :: "fd \<Rightarrow> string \<Rightarrow> nat \<Rightarrow> world \<Rightarrow> world res"
    and get_file :: "fd \<Rightarrow> string \<Rightarrow> nat \<Rightarrow> world \<Rightarrow> world res"
    and get :: "fd \<Rightarrow> char list \<Rightarrow> world \<Rightarrow> world res"
  assumes big: "1 < bufsize"
    and header_law: "header f p k w = (case open_read p w of (g, w0) \<Rightarrow>
        Ret (sendfile f g k (send f (file_response ctype []) w0)))"
    and get_file_law: "get_file f p k w =
      bindR (header_loop getl bufsize 1 (zeros bufsize) (sock_rx f w)) (\<lambda>(buf, s).
        (case open_read p (set_rx f s w) of
           (None, w1) \<Rightarrow> Fail NullDeref
         | (Some g, w1) \<Rightarrow> bindR (header f p k w1) (\<lambda>w2. Ret (close (Some g) w2))))"
    and get_missing: "cstr path = Ret p \<Longrightarrow> files w p = None \<Longrightarrow> get f path w = Ret w"
    and get_regular: "cstr path = Ret p \<Longrightarrow> files w p = Some (Regular c) \<Longrightarrow>
        get f path w = get_file f p (length c) w"
    and get_directory: "cstr path = Ret p \<Longrightarrow> files w p = Some (Directory n) \<Longrightarrow>
        length p + 11 < length path \<Longrightarrow> get f path w = get_file f (p @ ''/index.html'') n w"
begin

text \<open>The input \<open>r\<close> of the socket, on which the loop over the header lines stops in front of \<open>s\<close>.\<close>

definition header_skip :: "rx \<Rightarrow> rx \<Rightarrow> bool" where
  "header_skip r s \<longleftrightarrow> (\<exists>buf1. header_loop getl bufsize 1 (zeros bufsize) r = Ret (buf1, s))"

lemma header_skip_block: "\<forall>h\<in>set hs. good_header bufsize h \<Longrightarrow> header_skip (header_block hs @ s) s"
  using header_loop_block [of hs bufsize 1 "zeros bufsize" "[]" s] big by (auto simp: header_skip_def cstr_zeros)

lemma skips_header:
  assumes "header_skip r s" "fd_get w f = Some (Socket r t m)"
  shows "get_file f p k w =
     (case open_read p (set_rx f s w) of
           (None, w1) \<Rightarrow> Fail NullDeref
         | (Some g, w1) \<Rightarrow> bindR (header f p k w1) (\<lambda>w2. Ret (close (Some g) w2)))"
  using assms by (auto simp: header_skip_def get_file_law sock_rx_def)

text \<open>With two free descriptors the whole answer goes out, and one descriptor stays open.\<close>

lemma serves_skip:
  assumes "header_skip r s" "fd_get w f = Some (Socket r t m)"
    "files w p = Some (Regular c)" "2 \<le> free_count w"
  shows "\<exists>w'. get_file f p k w = Ret w' \<and> free_count w' = free_count w - 1 \<and>
     length (fds w') = length (fds w) \<and> files w' = files w \<and>
     fd_get w' f = Some (Socket s (t @ accepted m (file_response ctype (take k c)))
        (room_left m (file_response ctype (take k c))))"
proof -
  from fd_get_bound [OF assms(2)] obtain n where f: "f = Some n" "n < length (fds w)" by auto
  define w0 where "w0 = fd_set f (Some (Socket s t m)) w"
  have w0: "set_rx f s w = w0" "files w0 = files w" "free_count w0 = free_count w"
    "fd_get w0 f = Some (Socket s t m)" "length (fds w0) = length (fds w)"
    using assms(2) f by (simp_all add: set_rx_def w0_def free_count_set_used)
  obtain a where a: "open_read p w0 = (Some a, fd_set (Some a) (Some (Opened (Regular c))) w0)"
    "a < length (fds w0)" "fd_get w0 (Some a) = None"
    "free_count (fd_set (Some a) (Some (Opened (Regular c))) w0) = free_count w0 - 1"
    using open_read_free [of w0 p "Regular c"] w0 assms(3,4) by auto
  define w1 where "w1 = fd_set (Some a) (Some (Opened (Regular c))) w0"
  have af: "Some a \<noteq> f" using a(3) w0(4) by auto
  have w1: "files w1 = files w" "free_count w1 = free_count w - 1" "fd_get w1 f = Some (Socket s t m)"
    "fd_get w1 (Some a) = Some (Opened (Regular c))" "length (fds w1) = length (fds w)"
    using a w0 af by (simp_all add: w1_def)
  obtain b where b: "open_read p w1 = (Some b, fd_set (Some b) (Some (Opened (Regular c))) w1)"
    "b < length (fds w1)" "fd_get w1 (Some b) = None"
    "free_count (fd_set (Some b) (Some (Opened (Regular c))) w1) = free_count w1 - 1"
    using open_read_free [of w1 p "Regular c"] w1 assms(3,4) by auto
  define w2 where "w2 = fd_set (Some b) (Some (Opened (Regular c))) w1"
  have bf: "Some b \<noteq> f" "Some b \<noteq> Some a" using b(3) w1(3,4) by auto
  have w2: "files w2 = files w" "free_count w2 = free_count w - 2" "fd_get w2 f = Some (Socket s t m)"
    "fd_get w2 (Some a) = Some (Opened (Regular c))" "fd_get w2 (Some b) = Some (Opened (Regular c))"
    "length (fds w2) = length (fds w)"
    using b w1 bf by (simp_all add: w2_def)
  let ?r = "file_response ctype (take k c)"
  define w3 where "w3 = fd_set f (Some (Socket s (t @ accepted m ?r) (room_left m ?r))) w2"
  have resp: "file_response ctype [] @ take k c = ?r" by (simp add: file_response_def)
  have "sendfile f (Some b) k (send f (file_response ctype []) w2) = w3"
    using w2 bf(1) unfolding sendfile_def
    by (simp add: send_socket [of w2] send_send [of f _ _ w2, unfolded send_socket [OF w2(3)]]
        resp accepted_append [symmetric] room_left_append [symmetric] send_def w3_def)
  then have "header f p k w1 = Ret w3" by (simp add: header_law b(1) w2_def)
  then have res: "get_file f p k w = Ret (close (Some a) w3)"
    using skips_header [OF assms(1,2), of p k] by (simp add: w0(1) a(1) w1_def)
  have w3: "free_count w3 = free_count w - 2" "fd_get w3 (Some a) = Some (Opened (Regular c))"
    "files w3 = files w" "length (fds w3) = length (fds w)"
    "fd_get w3 f = Some (Socket s (t @ accepted m ?r) (room_left m ?r))"
    using w2 af f by (simp_all add: w3_def free_count_set_used)
  have "free_count (close (Some a) w3) = Suc (free_count w3)"
    using w3(2) by (rule free_count_close)
  with res w3 af assms(4) show ?thesis by (auto simp: close_def)
qed

lemmas serves = serves_skip [OF header_skip_block]

text \<open>With one free descriptor left \<open>fopen\<close> takes it, \<open>open\<close> fails and only the header goes out.\<close>

lemma starves:
  assumes "\<forall>h\<in>set hs. good_header bufsize h" "fd_get w f = Some (Socket (header_block hs @ s) t m)"
    "files w p = Some i" "free_count w = 1"
  shows "\<exists>w'. get_file f p k w = Ret w' \<and> free_count w' = 1 \<and>
     length (fds w') = length (fds w) \<and> files w' = files w \<and>
     fd_get w' f = Some (Socket s (t @ accepted m (file_response ctype []))
        (room_left m (file_response ctype [])))"
proof -
  from fd_get_bound [OF assms(2)] obtain n where f: "f = Some n" "n < length (fds w)" by auto
  define w0 where "w0 = fd_set f (Some (Socket s t m)) w"
  have w0: "set_rx f s w = w0" "files w0 = files w" "free_count w0 = 1"
    "fd_get w0 f = Some (Socket s t m)" "length (fds w0) = length (fds w)"
    using assms(2,4) f by (simp_all add: set_rx_def w0_def free_count_set_used)
  obtain a where a: "open_read p w0 = (Some a, fd_set (Some a) (Some (Opened i)) w0)"
    "a < length (fds w0)" "fd_get w0 (Some a) = None"
    "free_count (fd_set (Some a) (Some (Opened i)) w0) = free_count w0 - 1"
    using open_read_free [of w0 p i] w0 assms(3) by auto
  define w1 where "w1 = fd_set (Some a) (Some (Opened i)) w0"
  have af: "Some a \<noteq> f" using a(3) w0(4) by auto
  have w1: "files w1 = files w" "free_count w1 = 0" "fd_get w1 f = Some (Socket s t m)"
    "fd_get w1 (Some a) = Some (Opened i)" "length (fds w1) = length (fds w)"
    using a w0 af by (simp_all add: w1_def)
  let ?r = "file_response ctype []"
  define w3 where "w3 = fd_set f (Some (Socket s (t @ accepted m ?r) (room_left m ?r))) w1"
  have "header f p k w1 = Ret w3"
    using w1 by (simp add: header_law open_read_full send_socket w3_def sendfile_def fd_get_def [of _ None])
  then have res: "get_file f p k w = Ret (close (Some a) w3)"
    using skips_header [OF header_skip_block [OF assms(1)] assms(2), of p k] by (simp add: w0(1) a(1) w1_def)
  have w3: "free_count w3 = 0" "fd_get w3 (Some a) = Some (Opened i)"
    "files w3 = files w" "length (fds w3) = length (fds w)"
    "fd_get w3 f = Some (Socket s (t @ accepted m ?r) (room_left m ?r))"
    using w1 af f by (simp_all add: w3_def free_count_set_used)
  have "free_count (close (Some a) w3) = Suc (free_count w3)"
    using w3(2) by (rule free_count_close)
  with res w3 af show ?thesis by (auto simp: close_def)
qed

text \<open>With no free descriptor the process dies in \<open>fclose(NULL)\<close>, as it does when the file is
  missing.\<close>

lemma dies:
  assumes "\<forall>h\<in>set hs. good_header bufsize h" "fd_get w f = Some (Socket (header_block hs @ s) t m)"
    "free_count w = 0 \<or> files w p = None"
  shows "get_file f p k w = Fail NullDeref"
proof -
  have "open_read p (set_rx f s w) = (None, set_rx f s w)"
    using assms(2,3) by (auto simp: set_rx_def free_count_set_used intro: open_read_full open_read_missing)
  with skips_header [OF header_skip_block [OF assms(1)] assms(2)] show ?thesis by simp
qed

end

lemma strcat_string:
  assumes "cstr path = Ret p" "no_nul x" "length p + length x < length path"
  shows "\<exists>path1. strcat path x = Ret path1 \<and> cstr path1 = Ret (p @ x)"
proof -
  have "no_nul p" using assms(1) by (auto simp: cstr_def no_nul_def dest: set_takeWhileD split: if_splits)
  with assms cstr_app [of "p @ x"] show ?thesis by (simp add: strcat_def strcpy_def)
qed

lemma exec_get_missing:
  assumes "cstr path = Ret p" "files w p = None"
  shows "exec_get f path w = Ret w" and "epoll_exec_get f path w = Ret w"
  using assms by (simp_all add: exec_get_def epoll_exec_get_def)

lemma exec_get_regular:
  assumes "cstr path = Ret p" "files w p = Some (Regular c)"
  shows "exec_get f path w = exec_get_file f p (length c) w"
    and "epoll_exec_get f path w = epoll_exec_get_file f p (length c) w"
  using assms by (simp_all add: exec_get_def epoll_exec_get_def)

lemma exec_get_directory:
  assumes "cstr path = Ret p" "files w p = Some (Directory n)" "length p + 11 < length path"
  shows "exec_get f path w = exec_get_file f (p @ ''/index.html'') n w"
    and "epoll_exec_get f path w = epoll_exec_get_file f (p @ ''/index.html'') n w"
  using strcat_string [of path p "''/index.html''"] assms
  by (auto simp: exec_get_def epoll_exec_get_def)

lemma header_parts:
  "send f a (send f b (send f c (send f d w))) = send f (d @ c @ b @ a) w"
  by (simp add: send_send)

interpretation http_files: file_server http_get_line SIZE "''Content-Type''" send_header exec_get_file exec_get
proof
  show "1 < SIZE" by (simp add: SIZE_def)
  show "send_header f p k w = (case open_read p w of (g, w0) \<Rightarrow>
        Ret (sendfile f g k (send f (file_response ''Content-Type'' []) w0)))" for f p k w
    by (simp add: send_header_def header_parts file_response_def size_defs split: prod.split)
qed (rule exec_get_file_def, simp_all add: exec_get_missing exec_get_regular exec_get_directory)

interpretation epoll_files: file_server epoll_get_line E_SIZE "''COntent-Type''" epoll_send_header
  epoll_exec_get_file epoll_exec_get
proof
  show "1 < E_SIZE" by (simp add: E_SIZE_def)
  show "epoll_send_header f p k w = (case open_read p w of (g, w0) \<Rightarrow>
        Ret (sendfile f g k (send f (file_response ''COntent-Type'' []) w0)))" for f p k w
    by (simp add: epoll_send_header_def header_parts file_response_def size_defs split: prod.split)
qed (rule epoll_exec_get_file_def, simp_all add: exec_get_missing exec_get_regular exec_get_directory)

section \<open>Properties\<close>

text \<open>A request for a regular file is answered by the thread server with the status line, the two
  header lines, a blank line and the whole file, byte for byte; the header block of the request is
  consumed and what follows it is left.  The descriptor that \<open>send_header\<close> opened stays open: every
  answered request costs the process one descriptor.\<close>
theorem exec_get_answers_file:
  assumes "\<forall>h\<in>set hs. good_header SIZE h" "fd_get w client = Some (Socket (header_block hs @ s) t None)"
    "cstr path = Ret p" "files w p = Some (Regular body)" "2 \<le> free_count w"
  shows "\<exists>w'. exec_get client path w = Ret w' \<and> files w' = files w \<and>
     fd_get w' client = Some (Socket s (t @ file_response ''Content-Type'' body) None) \<and>
     open_count w' = Suc (open_count w)"
proof -
  obtain w' where w': "exec_get_file client p (length body) w = Ret w'" "free_count w' = free_count w - 1"
    "length (fds w') = length (fds w)" "files w' = files w"
    "fd_get w' client = Some (Socket s (t @ file_response ''Content-Type'' body) None)"
    using http_files.serves [OF assms(1,2,4,5), of "length body"] by auto
  moreover have "open_count w' = open_count w + 1"
    using w'(2,3) assms(5) by (intro open_count_free) auto
  ultimately show ?thesis using exec_get_regular(1) [OF assms(3,4)] by auto
qed

definition demo_files :: "string \<Rightarrow> inode option" where
  "demo_files p = (if p = ''htdocs/a'' then Some (Regular ''hello'')
     else if p = ''htdocs'' then Some (Directory 3) else if p = ''htdocs/index.html'' then Some (Regular ''hello'')
     else if p = ''htdocs/empty'' then Some (Directory 3) else None)"

definition demo_world :: "nat option \<Rightarrow> world" where
  "demo_world m = \<lparr>files = demo_files,
     fds = [Some Terminal, Some Terminal, Some (Socket (header_block [''Host: x'']) [] m), None, None, None]\<rparr>"

lemma demo_world_simps:
  "fd_get (demo_world m) (Some 2) = Some (Socket (header_block [''Host: x'']) [] m)"
  "free_count (demo_world m) = 3" "files (demo_world m) = demo_files"
  by (simp_all add: fd_get_def demo_world_def free_count_def)

lemma demo_header: "good_header SIZE ''Host: x''" "good_header E_SIZE ''Host: x''"
  by (simp_all add: good_header_def terminator_def size_defs)

theorem exec_get_answers_file_witness:
  "\<exists>w'. exec_get (Some 2) (cbuf 512 ''htdocs/a'') (demo_world None) = Ret w' \<and>
     fd_get w' (Some 2) = Some (Socket [] (file_response ''Content-Type'' ''hello'') None)"
  using exec_get_answers_file [of "[''Host: x'']" "demo_world None" "Some 2" "[]" "[]"
      "cbuf 512 ''htdocs/a''" "''htdocs/a''" "''hello''"]
  by (auto simp: demo_world_simps demo_header cstr_cbuf demo_files_def)

text \<open>C27. A request for a directory is answered with its \<open>index.html\<close>, but the number of bytes sent is
  the \<open>st_size\<close> of the directory: a longer index page arrives cut off.  When the directory has no
  index page, \<open>fopen\<close> fails and the process dies in \<open>fclose(NULL)\<close>.\<close>
theorem exec_get_directory_index:
  assumes "\<forall>h\<in>set hs. good_header SIZE h" "fd_get w client = Some (Socket (header_block hs @ s) t None)"
    "cstr path = Ret p" "files w p = Some (Directory n)" "length p + 11 < length path" "2 \<le> free_count w"
  shows "case files w (p @ ''/index.html'') of
     Some (Regular body) \<Rightarrow> (\<exists>w'. exec_get client path w = Ret w' \<and>
       fd_get w' client = Some (Socket s (t @ file_response ''Content-Type'' (take n body)) None))
   | Some (Directory k) \<Rightarrow> True
   | None \<Rightarrow> exec_get client path w = Fail NullDeref"
proof (cases "files w (p @ ''/index.html'')")
  case None
  with http_files.dies [OF assms(1,2), of "p @ ''/index.html''" n] exec_get_directory(1) [OF assms(3-5), of client]
  show ?thesis by simp
next
  case (Some i)
  show ?thesis
  proof (cases i)
    case (Regular body)
    with Some http_files.serves [OF assms(1,2) _ assms(6), of "p @ ''/index.html''" body n]
      exec_get_directory(1) [OF assms(3-5), of client]
    show ?thesis by auto
  qed (simp add: Some)
qed

theorem exec_get_directory_index_witness:
  "(\<exists>w'. exec_get (Some 2) (cbuf 512 ''htdocs'') (demo_world None) = Ret w' \<and>
      fd_get w' (Some 2) = Some (Socket [] (file_response ''Content-Type'' ''hel'') None)) \<and>
   exec_get (Some 2) (cbuf 512 ''htdocs/empty'') (demo_world None) = Fail NullDeref"
  using exec_get_directory_index [of "[''Host: x'']" "demo_world None" "Some 2" "[]" "[]"
      "cbuf 512 ''htdocs''" "''htdocs''" 3]
    exec_get_directory_index [of "[''Host: x'']" "demo_world None" "Some 2" "[]" "[]"
      "cbuf 512 ''htdocs/empty''" "''htdocs/empty''" 3]
  by (simp add: demo_world_simps demo_header cstr_cbuf demo_files_def)

text \<open>The epoll server puts its connections into non-blocking mode and never looks at what \<open>send\<close> and
  \<open>sendfile\<close> return: of the answer exactly as many bytes go out as the send buffer has room for, and
  the rest is lost.\<close>
theorem epoll_answer_cut_by_buffer:
  assumes "\<forall>h\<in>set hs. good_header E_SIZE h" "fd_get w sock = Some (Socket (header_block hs @ s) t (Some room))"
    "cstr path = Ret p" "files w p = Some (Regular body)" "2 \<le> free_count w"
  shows "\<exists>w' left. epoll_exec_get sock path w = Ret w' \<and>
     fd_get w' sock = Some (Socket s (t @ take room (file_response ''COntent-Type'' body)) (Some left))"
proof -
  obtain w' where "epoll_exec_get_file sock p (length body) w = Ret w'"
    "fd_get w' sock = Some (Socket s (t @ accepted (Some room) (file_response ''COntent-Type'' body))
       (room_left (Some room) (file_response ''COntent-Type'' body)))"
    using epoll_files.serves [OF assms(1,2,4,5), of "length body"] by auto
  with exec_get_regular(2) [OF assms(3,4)] show ?thesis by (auto simp: accepted_def room_left_def)
qed

theorem epoll_answer_cut_by_buffer_witness:
  "\<exists>w' left. epoll_exec_get (Some 2) (cbuf 128 ''htdocs/a'') (demo_world (Some 20)) = Ret w' \<and>
     fd_get w' (Some 2) = Some (Socket [] (take 20 (file_response ''COntent-Type'' ''hello'')) (Some left))"
  using epoll_answer_cut_by_buffer [of "[''Host: x'']" "demo_world (Some 20)" "Some 2" "[]" "[]" 20
      "cbuf 128 ''htdocs/a''" "''htdocs/a''" "''hello''"]
  by (auto simp: demo_world_simps demo_header cstr_cbuf demo_files_def)

end
