(* ===== verification/Cgi.thy ===== *)
theory Cgi
  imports Static_File
begin

text \<open>
  Running a CGI program: \<open>clear_head\<close> and \<open>exec_cgi\<close> of \<open>server/server_http.h\<close>.  The program behind
  \<open>execl\<close> is a parameter, a function of its path, its environment and its standard input, with a note of how
  it uses that input.  A pipe holds 65536 bytes, so the server waits in \<open>write\<close> when the program has stopped
  reading, for instance because its own output is not read yet; the server reads that only behind the body.
  A fault of the child in front of \<open>execl\<close> ends the child and not the server.
\<close>

section \<open>The request\<close>

text \<open>\<open>strcasecmp(buf, "\\n")\<close> is 0 only for the line feed itself, so the condition of \<open>clear_head\<close> is
  that of \<open>header_loop\<close>; the loop body runs once before the condition is looked at.\<close>

definition clear_head :: "rx \<Rightarrow> rx res" where
  "clear_head s =
    bindR (http_get_line SIZE (zeros SIZE) s) (\<lambda>(num, buf, s1).
    bindR (header_loop http_get_line SIZE num buf s1) (\<lambda>(buf1, s2). Ret s2))"

lemma strcaseeq_LF: "strcaseeq t [LF] \<longleftrightarrow> t = [LF]"
proof -
  have "tolower c = LF \<longleftrightarrow> c = LF" for c
  proof (cases "65 \<le> (of_char c :: nat) \<and> (of_char c :: nat) \<le> 90")
    case True
    then have "(of_char (tolower c) :: nat) = (of_char c + 32)" by (simp add: tolower_def)
    moreover have "(of_char LF :: nat) = 10" by simp
    ultimately show ?thesis using True by auto
  next
    case False
    then have "tolower c = c" unfolding tolower_def by (rule if_not_P)
    then show ?thesis by simp
  qed
  then have "map tolower t = [LF] \<longleftrightarrow> t = [LF]" by (cases t) simp_all
  moreover have "map tolower [LF] = [LF]" by (simp add: tolower_def)
  ultimately show ?thesis unfolding strcaseeq_def by (simp only:)
qed

text \<open>The loop of the POST branch: the last line that begins with \<open>Content-Length:\<close> wins, and its number
  is read from the character after the next one.\<close>

partial_function (option) content_loop :: "int \<Rightarrow> rx \<Rightarrow> (int \<times> rx) res" where
  "content_loop cl s =
    bindR (http_get_line SIZE (zeros SIZE) s) (\<lambda>(num, buf, s1).
    bindR (cstr buf) (\<lambda>t.
    bindR (if strneq t ''Content-Length:'' 15
           then bindR (at buf 16) (\<lambda>p. bindR (cstr p) atoi) else Ret cl) (\<lambda>cl1.
      if num > 0 \<and> t \<noteq> [LF] then content_loop cl1 s1 else Ret (cl1, s1))))"

section \<open>The child process\<close>

text \<open>\<open>putenv\<close>: with an equals sign it sets a variable; without one the C library removes the variable of
  that name.\<close>

type_synonym environment = "string \<Rightarrow> string option"

definition putenv :: "string \<Rightarrow> environment \<Rightarrow> environment" where
  "putenv s env =
    (if CHR ''='' \<in> set s
     then env (takeWhile (\<lambda>c. c \<noteq> CHR ''='') s := Some (tl (dropWhile (\<lambda>c. c \<noteq> CHR ''='') s)))
     else env (s := None))"

text \<open>How the program uses its standard input: it takes the bytes as they come and needs no end of the input;
  it reads everything up to the end of the input; it takes only so many bytes before it closes it (by
  ending, say); or it takes so many and reads on only when its output has been read.\<close>

datatype stdin_use = ReadsOnDemand | ReadsToEnd | ClosesAfter nat | StallsAfter nat

text \<open>\<open>crash_output\<close>: what a child that has run into a fault has left in the pipe when it is gone (\<open>None\<close>: it does
  not go).  The language says nothing of it, and no theorem assumes anything of it.\<close>

record cgi_env =
  fork_fails :: bool
  program :: "string \<Rightarrow> environment \<Rightarrow> string \<Rightarrow> string option"
  input_use :: stdin_use
  server_env :: environment
  crash_output :: "fault \<Rightarrow> string option"

text \<open>The environment the child hands to the program, and the line it prints when its standard output
  already is the pipe.\<close>

definition cgi_setup :: "string \<Rightarrow> string \<Rightarrow> int \<Rightarrow> environment \<Rightarrow> (environment \<times> string) res" where
  "cgi_setup method query content_length env =
    bindR (strcpy (zeros METHOD_SIZE) (''REQUEST_METHOD:'' @ method)) (\<lambda>method_env.
    bindR (cstr method_env) (\<lambda>me.
    let env1 = putenv me env in
    if method = ''GET'' then
      bindR (strcpy (zeros QUERY_SIZE) (''QUERY_STRING:'' @ query)) (\<lambda>query_env.
      bindR (cstr query_env) (\<lambda>qe. Ret (putenv qe env1, '' GET  query env :'' @ qe @ [LF])))
    else
      bindR (strcpy (zeros METHOD_SIZE) (''CONTENT-LENGTH:'' @ int_str content_length)) (\<lambda>len_env.
      bindR (cstr len_env) (\<lambda>le. Ret (putenv le env1, '' POST  content len env :'' @ le @ [LF])))))"

text \<open>What the child writes into the pipe; when \<open>execl\<close> fails that is its own line only.\<close>

definition cgi_child :: "cgi_env \<Rightarrow> string \<Rightarrow> string \<Rightarrow> string \<Rightarrow> int \<Rightarrow> string \<Rightarrow> string res" where
  "cgi_child ce path method query content_length input =
    bindR (cgi_setup method query content_length (server_env ce)) (\<lambda>(env, line).
      Ret (line @ (case program ce path env input of None \<Rightarrow> [] | Some o1 \<Rightarrow> o1)))"

definition child_text :: "cgi_env \<Rightarrow> fault + string \<Rightarrow> string option" where
  "child_text ce r = (case r of Inl e \<Rightarrow> crash_output ce e | Inr o1 \<Rightarrow> Some o1)"

section \<open>Pipes\<close>

text \<open>\<open>int p[2] = {0,0}; pipe(p)\<close>: on failure the two numbers stay 0.\<close>

definition make_pipe :: "world \<Rightarrow> (nat \<times> nat) \<times> bool \<times> world" where
  "make_pipe w =
    (case fd_new (PipeRead []) w of
       (None, _) \<Rightarrow> ((0, 0), False, w)
     | (Some r, w1) \<Rightarrow> (case fd_new (PipeWrite []) w1 of
         (None, _) \<Rightarrow> ((0, 0), False, w)
       | (Some x, w2) \<Rightarrow> ((r, x), True, w2)))"

definition write_byte :: "fd \<Rightarrow> char \<Rightarrow> world \<Rightarrow> world" where
  "write_byte f c w =
    (case fd_get w f of Some (PipeWrite x) \<Rightarrow> fd_set f (Some (PipeWrite (x @ [c]))) w | _ \<Rightarrow> w)"

definition pipe_text :: "fd \<Rightarrow> world \<Rightarrow> string" where
  "pipe_text f w = (case fd_get w f of Some (PipeWrite x) \<Rightarrow> x | Some (PipeRead x) \<Rightarrow> x | _ \<Rightarrow> [])"

definition is_pipe :: "fd \<Rightarrow> world \<Rightarrow> bool" where
  "is_pipe f w = (case fd_get w f of Some (PipeWrite x) \<Rightarrow> True | Some (PipeRead x) \<Rightarrow> True | _ \<Rightarrow> False)"

definition PIPE_SIZE :: nat where "PIPE_SIZE = 65536"

text \<open>Writing byte \<open>i\<close> into the pipe.  When nobody reads it any more, \<open>SIGPIPE\<close> ends the process; when it is full
  and the program does not read on, \<open>write\<close> does not return.\<close>

fun write_fate :: "stdin_use \<Rightarrow> nat \<Rightarrow> unit res" where
  "write_fate (ClosesAfter k) i = (if k \<le> i then Fail Killed else Ret ())"
| "write_fate (StallsAfter k) i = (if k + PIPE_SIZE \<le> i then Hang else Ret ())"
| "write_fate _ i = Ret ()"

text \<open>\<open>for(i=0; i<content_length; ++i) { recv(client,&ch,1,0); write(cgi_input[1],&ch,1); }\<close>.  A byte that
  does not come repeats the last one (or the indeterminate \<open>ch\<close>).\<close>

fun copy_body :: "nat \<Rightarrow> char \<Rightarrow> stdin_use \<Rightarrow> nat \<Rightarrow> fd \<Rightarrow> fd \<Rightarrow> world \<Rightarrow> world res" where
  "copy_body 0 ch use i client f w = Ret w"
| "copy_body (Suc n) ch use i client f w =
    (case recv1 (sock_rx client w) ch of (num, ch1, s) \<Rightarrow>
      let w1 = set_rx client s w in
      bindR (if is_pipe f w1 then write_fate use i else Ret ()) (\<lambda>u.
        copy_body n ch1 use (Suc i) client f (write_byte f ch1 w1)))"

text \<open>\<open>while(read(cgi_output[0],&ch,1)>0) send(client,&ch,1,0)\<close>.\<close>

fun send_bytes :: "fd \<Rightarrow> string \<Rightarrow> world \<Rightarrow> world" where
  "send_bytes client [] w = w"
| "send_bytes client (c # cs) w = send_bytes client cs (send client [c] w)"

section \<open>The handler\<close>

definition send_cgi_head :: "fd \<Rightarrow> world \<Rightarrow> world res" where
  "send_cgi_head client w =
      bindR (send_line SIZE (''HTTP/1.1 200 OK'' @ CRLF @ CRLF) client w) (\<lambda>w1.
      bindR (send_line SIZE SERVER_STRING client w1) (\<lambda>w2.
      bindR (send_line SIZE (''Content-Type:text/html'' @ CRLF) client w2) (\<lambda>w3.
        send_line SIZE CRLF client w3)))"

text \<open>The parent after \<open>fork\<close>.  It closes its end of the program's input only after the program has
  closed its output, so a program that reads its input to the end never gets there.  A child that has
  crashed has closed everything.\<close>

definition cgi_parent :: "char \<Rightarrow> cgi_env \<Rightarrow> fd \<Rightarrow> string \<Rightarrow> string \<Rightarrow> string \<Rightarrow> int \<Rightarrow>
    nat \<times> nat \<Rightarrow> nat \<times> nat \<Rightarrow> world \<Rightarrow> world res" where
  "cgi_parent junk ce client path method query content_length cgi_input cgi_output w =
    (let w1 = close (Some (snd cgi_output)) (close (Some (fst cgi_input)) w) in
     bindR (if strcaseeq method ''POST''
            then copy_body (nat content_length) junk (input_use ce) 0 client (Some (snd cgi_input)) w1
            else Ret w1) (\<lambda>w2.
     case cgi_child ce path method query content_length (pipe_text (Some (snd cgi_input)) w2) of
       None \<Rightarrow> Hang
     | Some r \<Rightarrow>
         (if is_pipe (Some (snd cgi_input)) w2 \<and> \<not> isl r \<and> input_use ce = ReadsToEnd then Hang
          else case child_text ce r of
            None \<Rightarrow> Hang
          | Some out1 \<Rightarrow>
             let w3 = (if is_pipe (Some (fst cgi_output)) w2 then send_bytes client out1 w2 else w2)
             in Ret (close (Some (fst cgi_output)) (close (Some (snd cgi_input)) w3)))))"

text \<open>From the two pipes on.  A failing \<open>pipe\<close> is only logged.\<close>

definition spawn_cgi :: "char \<Rightarrow> cgi_env \<Rightarrow> fd \<Rightarrow> string \<Rightarrow> string \<Rightarrow> string \<Rightarrow> int \<Rightarrow> world \<Rightarrow> world res" where
  "spawn_cgi junk ce client path method query content_length w1 =
     (case make_pipe w1 of (cgi_input, ok1, w2) \<Rightarrow>
      case make_pipe w2 of (cgi_output, ok2, w3) \<Rightarrow>
      let w4 = (if ok2 then w3
                else close (Some (snd cgi_input)) (close (Some (fst cgi_input)) w3))
      in if fork_fails ce then Fail (ExitCall 1)
         else cgi_parent junk ce client path method query content_length cgi_input cgi_output w4)"

definition exec_cgi :: "char \<Rightarrow> cgi_env \<Rightarrow> fd \<Rightarrow> string \<Rightarrow> string \<Rightarrow> string \<Rightarrow> world \<Rightarrow> world res" where
  "exec_cgi junk ce client path method query w =
    bindR (if method = ''GET'' then bindR (clear_head (sock_rx client w)) (\<lambda>s. Ret (0, s))
           else content_loop 0 (sock_rx client w)) (\<lambda>(content_length, s).
    let w0 = set_rx client s w in
    if method \<noteq> ''GET'' \<and> content_length = -1 then Ret w0
    else
      bindR (send_cgi_head client w0) (\<lambda>w1.
        spawn_cgi junk ce client path method query content_length w1))"

section \<open>Reading the request\<close>

lemma line_cstr: "\<forall>c\<in>set h. \<not> terminator c \<Longrightarrow> cstr (put buf 0 (h @ [LF, NUL])) = Ret (h @ [LF])"
  by (rule http_lines.line_end_no_nul)

lemma get_header_line:
  assumes "h = [] \<or> good_header SIZE h"
  shows "http_get_line SIZE (zeros SIZE) (crlf_line h @ s) =
    Ret (Suc (length h), put (zeros SIZE) 0 (h @ [LF, NUL]), s)"
  using assms get_line_crlf(1) [of h SIZE "zeros SIZE" s] by (auto simp: good_header_def SIZE_def)

lemma header_block_Cons: "header_block (h # hs) @ s = crlf_line h @ header_block hs @ s"
  by (simp add: header_block_def)

lemma header_block_Nil: "header_block [] @ s = crlf_line [] @ s"
  by (simp add: header_block_def)

lemma clear_head_block:
  assumes "\<forall>h\<in>set hs. good_header SIZE h"
  shows "clear_head (header_block hs @ s) = Ret s"
proof (cases hs)
  case Nil
  show ?thesis
    using get_header_line [of "[]" s] http_lines.header_loop_blank [of SIZE "Suc 0" "zeros SIZE" s]
    by (simp add: clear_head_def Nil header_block_Nil)
next
  case (Cons h hs')
  let ?buf = "put (zeros SIZE) 0 (h @ [LF, NUL])"
  have h: "good_header SIZE h" using assms Cons by simp
  then have len: "length ?buf = SIZE" "cstr ?buf = Ret (h @ [LF])"
    using line_cstr [of h] by (auto simp: good_header_def)
  obtain buf1 where "header_loop http_get_line SIZE (Suc (length h)) ?buf (header_block hs' @ s) = Ret (buf1, s)"
    using http_lines.header_loop_block [of hs' SIZE "Suc (length h)" ?buf "h @ [LF]" s] assms Cons h len
    by (auto simp: good_header_def SIZE_def)
  then show ?thesis using get_header_line [of h] h by (simp add: clear_head_def Cons header_block_Cons)
qed

text \<open>The value the loop of the POST branch computes from a list of header lines.\<close>

fun spec_content :: "int \<Rightarrow> string list \<Rightarrow> int res" where
  "spec_content cl [] = Ret cl"
| "spec_content cl (h # hs) =
    bindR (if take 15 h = ''Content-Length:'' then atoi (drop 16 (h @ [LF])) else Ret cl)
      (\<lambda>cl1. spec_content cl1 hs)"

lemma length_clen: "length ''Content-Length:'' = 15"
  by simp

lemma content_line:
  assumes "\<forall>c\<in>set h. \<not> terminator c" "length h + 1 < SIZE"
  shows "(if strneq (h @ [LF]) ''Content-Length:'' 15
      then bindR (at (put (zeros SIZE) 0 (h @ [LF, NUL])) 16) (\<lambda>p. bindR (cstr p) atoi) else Ret cl) =
    (if take 15 h = ''Content-Length:'' then atoi (drop 16 (h @ [LF])) else Ret cl)"
proof (cases "15 \<le> length h")
  case True
  have buf: "put (zeros SIZE) 0 (h @ [LF, NUL]) = (h @ [LF]) @ NUL # drop (length h + 2) (zeros SIZE)"
    by (simp add: put_0)
  have "no_nul (drop 16 (h @ [LF]))"
    using plain_no_nul [OF assms(1)] by (auto simp: no_nul_def dest: in_set_dropD)
  moreover have "16 \<le> length ((h @ [LF]) @ NUL # r)" "drop 16 ((h @ [LF]) @ NUL # r) = drop 16 (h @ [LF]) @ NUL # r" for r
    using True by (simp, intro drop_append_early, simp)
  ultimately have "bindR (at (put (zeros SIZE) 0 (h @ [LF, NUL])) 16) (\<lambda>p. bindR (cstr p) atoi) = atoi (drop 16 (h @ [LF]))"
    unfolding buf by (simp only: at_ok bindR_Ret cstr_app)
  moreover have "strneq (h @ [LF]) ''Content-Length:'' 15 \<longleftrightarrow> take 15 h = ''Content-Length:''"
    using True by (simp add: strneq_def)
  ultimately show ?thesis by simp
next
  case False
  then have "take 15 h \<noteq> ''Content-Length:''"
    using arg_cong [of "take 15 h" "''Content-Length:''" length] by auto
  moreover have "\<not> strneq (h @ [LF]) ''Content-Length:'' 15"
  proof
    assume eq: "strneq (h @ [LF]) ''Content-Length:'' 15"
    then have "h @ [LF] = ''Content-Length:''" using False by (simp add: strneq_def)
    then have "last (h @ [LF]) = last ''Content-Length:''" by (simp only:)
    then show False by simp
  qed
  ultimately show ?thesis by simp
qed

lemma content_loop_block:
  assumes "\<forall>h\<in>set hs. good_header SIZE h"
  shows "content_loop cl (header_block hs @ s) = bindR (spec_content cl hs) (\<lambda>cl1. Ret (cl1, s))"
  using assms
proof (induction hs arbitrary: cl)
  case Nil
  have "cstr (put (zeros SIZE) 0 [LF, NUL]) = Ret [LF]" using line_cstr [of "[]" "zeros SIZE"] by simp
  with get_header_line [of "[]" s] show ?case
    by (subst content_loop.simps) (simp add: header_block_Nil strneq_def)
next
  case (Cons h hs)
  then have h: "\<forall>c\<in>set h. \<not> terminator c" "length h + 1 < SIZE" "h \<noteq> []" "good_header SIZE h"
    by (auto simp: good_header_def)
  then have ne: "h @ [LF] \<noteq> [LF]" by simp
  show ?case
    using Cons.IH Cons.prems get_header_line [of h "header_block hs @ s"] h(4) line_cstr [OF h(1)] ne
    by (subst content_loop.simps)
       (simp add: header_block_Cons content_line [OF h(1,2)] bindR_assoc del: append_is_Nil_conv)
qed

section \<open>Pipes and processes\<close>

lemma send_nothing [simp]: "send f [] w = w"
proof -
  have "accepted m [] = []" "room_left m [] = m" for m
    by (cases m; simp add: accepted_def room_left_def)+
  then show ?thesis by (cases "fd_get w f"; cases "the (fd_get w f)") (simp_all add: send_def)
qed

lemma send_bytes_eq: "send_bytes f cs w = send f cs w"
  by (induction f cs w rule: send_bytes.induct) (simp_all add: send_send)

definition cgi_head :: string where
  "cgi_head = ''HTTP/1.1 200 OK'' @ CRLF @ CRLF @ SERVER_STRING @ ''Content-Type:text/html'' @ CRLF @ CRLF"

lemma send_cgi_head_eq: "send_cgi_head client w = Ret (send client cgi_head w)"
  by (simp add: send_cgi_head_def send_send cgi_head_def size_defs)

lemma make_pipe_ok:
  assumes "2 \<le> free_count w"
  obtains r x where "make_pipe w = ((r, x), True,
      fd_set (Some x) (Some (PipeWrite [])) (fd_set (Some r) (Some (PipeRead [])) w))"
    "fd_get w (Some r) = None" "fd_get w (Some x) = None" "r \<noteq> x" "r < length (fds w)" "x < length (fds w)"
    "free_count (fd_set (Some x) (Some (PipeWrite [])) (fd_set (Some r) (Some (PipeRead [])) w)) = free_count w - 2"
proof -
  have pos: "0 < free_count w" using assms by simp
  obtain r where r: "fd_new (PipeRead []) w = (Some r, fd_set (Some r) (Some (PipeRead [])) w)"
    "r < length (fds w)" "fds w ! r = None" "free_count (fd_set (Some r) (Some (PipeRead [])) w) = free_count w - 1"
    using fd_new_free [OF pos, of "PipeRead []"] by (auto simp: fd_set_def)
  let ?w1 = "fd_set (Some r) (Some (PipeRead [])) w"
  have pos1: "0 < free_count ?w1" using r(4) assms by simp
  obtain x where x: "fd_new (PipeWrite []) ?w1 = (Some x, fd_set (Some x) (Some (PipeWrite [])) ?w1)"
    "x < length (fds ?w1)" "fds ?w1 ! x = None"
    "free_count (fd_set (Some x) (Some (PipeWrite [])) ?w1) = free_count ?w1 - 1"
    using fd_new_free [OF pos1, of "PipeWrite []"] by (auto simp: fd_set_def)
  have rx: "r \<noteq> x" using x(2,3) r(2) by (auto simp: fd_set_def)
  show thesis
    by (rule that [of r x]) (use r x rx in \<open>auto simp: make_pipe_def fd_get_def fd_set_def\<close>)
qed

text \<open>The program takes a body of \<open>n\<close> bytes, or the pipe holds what it does not take.\<close>

fun takes :: "stdin_use \<Rightarrow> nat \<Rightarrow> bool" where
  "takes (ClosesAfter k) n \<longleftrightarrow> n \<le> k"
| "takes (StallsAfter k) n \<longleftrightarrow> n \<le> k + PIPE_SIZE"
| "takes _ n \<longleftrightarrow> True"

lemma takes_mono: "takes use n \<Longrightarrow> m \<le> n \<Longrightarrow> takes use m"
  by (cases use) auto

lemma write_fate_takes: "takes use n \<Longrightarrow> i < n \<Longrightarrow> write_fate use i = Ret ()"
  by (cases use) auto

text \<open>A body that comes in full is copied byte for byte into the pipe, as long as it is taken.\<close>

lemma copy_body_all:
  assumes "fd_get w client = Some (Socket (map Byte body @ s) t m)" "fd_get w f = Some (PipeWrite x)"
    "client \<noteq> f" "takes use (i + length body)"
  shows "copy_body (length body) ch use i client f w =
    Ret (fd_set f (Some (PipeWrite (x @ body))) (fd_set client (Some (Socket s t m)) w))"
  using assms
proof (induction body arbitrary: w ch x i)
  case Nil
  then show ?case by simp
next
  case (Cons c body)
  let ?w1 = "fd_set client (Some (Socket (map Byte body @ s) t m)) w"
  let ?w2 = "fd_set f (Some (PipeWrite (x @ [c]))) ?w1"
  have one: "copy_body (length (c # body)) ch use i client f w = copy_body (length body) c use (Suc i) client f ?w2"
    using Cons.prems
    using write_fate_takes [OF Cons.prems(4), of i] by (simp add: sock_rx_def set_rx_def write_byte_def Let_def)
  have "fd_get ?w2 client = Some (Socket (map Byte body @ s) t m)" "fd_get ?w2 f = Some (PipeWrite (x @ [c]))"
    using Cons.prems(1-3) by (auto dest: fd_get_bound)
  note IH = Cons.IH [OF this Cons.prems(3), of "Suc i" c]
  have use: "takes use (Suc i + length body)" using Cons.prems(4) by simp
  have "fd_set f a (fd_set client b (fd_set f a' (fd_set client b' w))) = fd_set f a (fd_set client b w)" for a b a' b'
    using fd_set_swap [of client f b a' "fd_set client b' w"] Cons.prems(3) by simp
  with IH [OF use] one show ?case by simp
qed

text \<open>A program that waits for its output to be read while the server waits for its input to be taken: they wait
  for each other.\<close>

lemma copy_body_stalls:
  assumes "fd_get w client = Some (Socket (map Byte body @ s) t m)" "fd_get w f = Some (PipeWrite x)"
    "client \<noteq> f" "i \<le> k + PIPE_SIZE" "k + PIPE_SIZE < i + length body"
  shows "copy_body (length body) ch (StallsAfter k) i client f w = Hang"
  using assms
proof (induction body arbitrary: w ch x i)
  case (Cons c body)
  let ?w2 = "fd_set f (Some (PipeWrite (x @ [c]))) (fd_set client (Some (Socket (map Byte body @ s) t m)) w)"
  have one: "copy_body (length (c # body)) ch (StallsAfter k) i client f w =
      (if k + PIPE_SIZE \<le> i then Hang else copy_body (length body) c (StallsAfter k) (Suc i) client f ?w2)"
    using Cons.prems(1-3) by (simp add: sock_rx_def set_rx_def write_byte_def is_pipe_def Let_def)
  have "fd_get ?w2 client = Some (Socket (map Byte body @ s) t m)" "fd_get ?w2 f = Some (PipeWrite (x @ [c]))"
    using Cons.prems(1-3) by (auto dest: fd_get_bound)
  from Cons.IH [OF this Cons.prems(3), of "Suc i" c] Cons.prems(4,5) show ?case unfolding one by auto
qed simp

section \<open>The answer\<close>

text \<open>The body the parent copies into the pipe, when it all comes and somebody reads it.\<close>

definition body_for :: "string \<Rightarrow> int \<Rightarrow> stdin_use \<Rightarrow> string \<Rightarrow> bool" where
  "body_for method cl use body \<longleftrightarrow>
     (if strcaseeq method ''POST'' then length body = nat cl \<and> takes use (length body) else body = [])"

lemma updates_restored:
  assumes "xs ! r = None" "xs ! x = None" "xs ! r2 = None" "xs ! x2 = None" "n < length xs"
    "r < length xs" "x < length xs" "r2 < length xs" "x2 < length xs" "n \<notin> {r, x, r2, x2}"
  shows "xs[r := a, x := b, r2 := c, x2 := d, r := None, x2 := None, n := b0, x := e, n := b1, x := None, r2 := None]
    = xs[n := b1]"
  by (rule nth_equalityI) (use assms in \<open>auto simp: nth_list_update\<close>)

lemma pipes_restored:
  assumes "fd_get w (Some r) = None" "fd_get w (Some x) = None" "fd_get w (Some r2) = None"
    "fd_get w (Some x2) = None" "r < length (fds w)" "x < length (fds w)" "r2 < length (fds w)" "x2 < length (fds w)"
    "client \<notin> {Some r, Some x, Some r2, Some x2}" "fd_get w client = Some ob"
  shows "close (Some r2) (close (Some x) (fd_set client b1 (fd_set (Some x) e (fd_set client b0
     (close (Some x2) (close (Some r) (fd_set (Some x2) d (fd_set (Some r2) c (fd_set (Some x) bb (fd_set (Some r) a w))))))))))
   = fd_set client b1 w"
proof -
  from fd_get_bound [OF assms(10)] obtain n where n: "client = Some n" "n < length (fds w)" by blast
  with assms(1-9) updates_restored [of "fds w" r x r2 x2 n a bb c d b0 e b1] show ?thesis
    by (simp add: close_def fd_get_def fd_set_def)
qed

lemma spawn_cgi_result:
  assumes sock: "fd_get w client = Some (Socket (map Byte body @ s) t None)" and room: "4 \<le> free_count w"
    and forks: "\<not> fork_fails ce" and body: "body_for method cl (input_use ce) body"
    and child: "cgi_child ce path method query cl body = Some ch" "child_text ce ch = Some out1"
      "isl ch \<or> input_use ce \<noteq> ReadsToEnd"
  shows "spawn_cgi junk ce client path method query cl w =
    Ret (fd_set client (Some (Socket s (t @ out1) None)) w)"
proof -
  have room2: "2 \<le> free_count w" using room by simp
  obtain r x where p1: "make_pipe w = ((r, x), True, fd_set (Some x) (Some (PipeWrite [])) (fd_set (Some r) (Some (PipeRead [])) w))"
    "fd_get w (Some r) = None" "fd_get w (Some x) = None" "r \<noteq> x" "r < length (fds w)" "x < length (fds w)"
    "free_count (fd_set (Some x) (Some (PipeWrite [])) (fd_set (Some r) (Some (PipeRead [])) w)) = free_count w - 2"
    using make_pipe_ok [OF room2] .
  let ?w2 = "fd_set (Some x) (Some (PipeWrite [])) (fd_set (Some r) (Some (PipeRead [])) w)"
  have room3: "2 \<le> free_count ?w2" using p1(7) room by simp
  obtain r2 x2 where p2: "make_pipe ?w2 = ((r2, x2), True, fd_set (Some x2) (Some (PipeWrite [])) (fd_set (Some r2) (Some (PipeRead [])) ?w2))"
    "fd_get ?w2 (Some r2) = None" "fd_get ?w2 (Some x2) = None" "r2 \<noteq> x2" "r2 < length (fds ?w2)" "x2 < length (fds ?w2)"
    using make_pipe_ok [OF room3] .
  have ne: "r2 \<noteq> r" "r2 \<noteq> x" "x2 \<noteq> r" "x2 \<noteq> x"
    using p2(2,3,5,6) p1(4-6) by (auto simp: fd_get_def fd_set_def nth_list_update split: if_splits)
  have fresh: "fd_get w (Some r2) = None" "fd_get w (Some x2) = None" using p2(2,3) ne by simp_all
  have cl: "client \<noteq> Some r" "client \<noteq> Some x" "client \<noteq> Some r2" "client \<noteq> Some x2"
    using sock p1(2,3) fresh by auto
  define w5 where "w5 = close (Some x2) (close (Some r) (fd_set (Some x2) (Some (PipeWrite [])) (fd_set (Some r2) (Some (PipeRead [])) ?w2)))"
  have w5: "fd_get w5 client = Some (Socket (map Byte body @ s) t None)" "fd_get w5 (Some x) = Some (PipeWrite [])"
    "fd_get w5 (Some r2) = Some (PipeRead [])"
    using sock cl ne p1 p2 unfolding w5_def close_def by simp_all
  let ?w6 = "fd_set (Some x) (Some (PipeWrite body)) (fd_set client (Some (Socket s t None)) w5)"
  have copied: "(if strcaseeq method ''POST'' then copy_body (nat cl) junk (input_use ce) 0 client (Some x) w5 else Ret w5) = Ret ?w6"
    using body copy_body_all [OF w5(1,2) cl(2), where use = "input_use ce" and i = 0 and ch = junk] w5 cl(2)
    by (auto simp: body_for_def split: if_splits)
  have ends: "pipe_text (Some x) ?w6 = body" "is_pipe (Some r2) ?w6"
    using w5 cl p1(5,6) p2(5) ne by (auto simp: pipe_text_def is_pipe_def dest: fd_get_bound)
  have stops: "\<not> (is_pipe (Some x) ?w6 \<and> \<not> isl ch \<and> input_use ce = ReadsToEnd)"
    using child(3) by blast
  have sent: "send_bytes client out1 ?w6 = fd_set client (Some (Socket s (t @ out1) None)) ?w6"
    using w5(1) cl(2) by (auto simp: send_bytes_eq send_def dest: fd_get_bound)
  have "spawn_cgi junk ce client path method query cl w =
      cgi_parent junk ce client path method query cl (r, x) (r2, x2)
        (fd_set (Some x2) (Some (PipeWrite [])) (fd_set (Some r2) (Some (PipeRead [])) ?w2))"
    using p1(1) p2(1) forks by (simp add: spawn_cgi_def)
  also have "\<dots> = Ret (close (Some r2) (close (Some x) (fd_set client (Some (Socket s (t @ out1) None)) ?w6)))"
    unfolding cgi_parent_def Let_def fst_conv snd_conv w5_def [symmetric] copied bindR_Ret ends child option.case
      if_not_P [OF stops] sent by (simp only: if_P ends(2))
  also have "close (Some r2) (close (Some x) (fd_set client (Some (Socket s (t @ out1) None)) ?w6)) =
      fd_set client (Some (Socket s (t @ out1) None)) w"
    unfolding w5_def using p1 p2(5,6) fresh cl sock by (intro pipes_restored) auto
  finally show ?thesis .
qed

lemma strcpy_cstr: "strcpy dst s = Ret buf \<Longrightarrow> cstr buf = Ret (c_str s)"
  by (auto simp: strcpy_def cstr_def c_str_def takeWhile_append takeWhile_eq_all_conv [THEN iffD2] split: if_splits)

lemma putenv_other:
  assumes "CHR '':'' \<in> set (takeWhile (\<lambda>c. c \<noteq> CHR ''='') s)" "CHR '':'' \<notin> set v"
  shows "putenv s env v = env v"
  using assms by (auto simp: putenv_def dest: set_takeWhileD)

lemma putenv_name:
  assumes "x = p @ CHR '':'' # r" "CHR ''='' \<notin> set p" "NUL \<notin> set p" "CHR '':'' \<notin> set v"
  shows "putenv (c_str x) env v = env v"
proof (rule putenv_other [OF _ assms(4)])
  have "c_str x = p @ CHR '':'' # c_str r" using assms(1,3) by (simp add: c_str_def takeWhile_append)
  then have "takeWhile (\<lambda>c. c \<noteq> CHR ''='') (c_str x) = p @ CHR '':'' # takeWhile (\<lambda>c. c \<noteq> CHR ''='') (c_str r)"
    using assms(2) by (auto simp: takeWhile_append)
  then show "CHR '':'' \<in> set (takeWhile (\<lambda>c. c \<noteq> CHR ''='') (c_str x))" by simp
qed

lemma cgi_setup_get:
  assumes "no_nul q" "length q + 13 < QUERY_SIZE"
  shows "cgi_setup ''GET'' q cl env = Ret (putenv (''QUERY_STRING:'' @ q) (putenv ''REQUEST_METHOD:GET'' env),
     '' GET  query env :QUERY_STRING:'' @ q @ [LF])"
  using assms by (simp add: cgi_setup_def size_defs buf_simps)

lemma cgi_setup_post:
  assumes "INT_MIN \<le> cl" "cl \<le> INT_MAX"
  shows "cgi_setup ''POST'' q cl env = Ret (putenv (''CONTENT-LENGTH:'' @ int_str cl) (putenv ''REQUEST_METHOD:POST'' env),
     '' POST  content len env :CONTENT-LENGTH:'' @ int_str cl @ [LF])"
  using length_int_str [OF assms] by (simp add: cgi_setup_def size_defs buf_simps)

definition cgi_output :: "cgi_env \<Rightarrow> string \<Rightarrow> environment \<Rightarrow> string \<Rightarrow> string" where
  "cgi_output ce path env input = (case program ce path env input of None \<Rightarrow> [] | Some o1 \<Rightarrow> o1)"

definition get_environment :: "cgi_env \<Rightarrow> string \<Rightarrow> environment" where
  "get_environment ce q = putenv (''QUERY_STRING:'' @ q) (putenv ''REQUEST_METHOD:GET'' (server_env ce))"

definition post_environment :: "cgi_env \<Rightarrow> int \<Rightarrow> environment" where
  "post_environment ce cl =
     putenv (''CONTENT-LENGTH:'' @ int_str cl) (putenv ''REQUEST_METHOD:POST'' (server_env ce))"

lemma send_head_set:
  assumes "fd_get w client = Some (Socket r t None)"
  shows "send client cgi_head (set_rx client s w) = fd_set client (Some (Socket s (t @ cgi_head) None)) w"
  using assms by (simp add: set_rx_def send_def)

lemma exec_cgi_get_skip:
  assumes sock: "fd_get w client = Some (Socket r t None)"
    and skip: "clear_head r = Ret s" and room: "4 \<le> free_count w"
    and forks: "\<not> fork_fails ce" and use: "input_use ce \<noteq> ReadsToEnd"
    and q: "no_nul q" "length q + 13 < QUERY_SIZE"
  shows "exec_cgi junk ce client path ''GET'' q w =
     Ret (fd_set client (Some (Socket s (t @ cgi_head @ '' GET  query env :QUERY_STRING:'' @ q @ [LF]
       @ cgi_output ce path (get_environment ce q) []) None)) w)"
proof -
  let ?w1 = "fd_set client (Some (Socket s (t @ cgi_head) None)) w"
  let ?line = "'' GET  query env :QUERY_STRING:'' @ q @ [LF]"
  have child: "cgi_child ce path ''GET'' q 0 [] = Ret (?line @ cgi_output ce path (get_environment ce q) [])"
    by (simp add: cgi_child_def cgi_setup_get [OF q] cgi_output_def get_environment_def)
  have "fd_get ?w1 client = Some (Socket (map Byte [] @ s) (t @ cgi_head) None)" "free_count ?w1 = free_count w"
    using sock by (simp_all add: free_count_set_used)
  moreover have "body_for ''GET'' 0 (input_use ce) []"
    by (auto simp: body_for_def strcaseeq_def tolower_def)
  ultimately have "spawn_cgi junk ce client path ''GET'' q 0 ?w1 =
      Ret (fd_set client (Some (Socket s ((t @ cgi_head) @ ?line @ cgi_output ce path (get_environment ce q) []) None)) ?w1)"
    using room forks child use by (intro spawn_cgi_result) (auto simp: child_text_def)
  moreover have "sock_rx client w = r" using sock by (simp add: sock_rx_def)
  ultimately show ?thesis
    using skip send_head_set [OF sock, of s]
    by (simp add: exec_cgi_def send_cgi_head_eq)
qed

lemmas exec_cgi_get = exec_cgi_get_skip [OF _ clear_head_block]

text \<open>\<open>clear_head\<close> stops where the loop of the file handler does.\<close>

lemma clear_head_skip: "http_files.header_skip r s \<Longrightarrow> clear_head r = Ret s"
proof -
  have "header_loop http_get_line SIZE 1 (zeros SIZE) r =
      bindR (http_get_line SIZE (zeros SIZE) r) (\<lambda>x. header_loop http_get_line SIZE (fst x) (fst (snd x)) (snd (snd x)))"
    by (subst header_loop.simps) (simp add: cstr_zeros SIZE_def)
  then have "clear_head r = bindR (header_loop http_get_line SIZE 1 (zeros SIZE) r) (\<lambda>x. Ret (snd x))"
    by (simp add: clear_head_def bindR_assoc case_prod_unfold)
  then show "http_files.header_skip r s \<Longrightarrow> clear_head r = Ret s" by (auto simp: http_files.header_skip_def)
qed

text \<open>Without the descriptors for two pipes the handler works on the number 0.\<close>

lemma make_pipe_full:
  assumes "free_count w < 2"
  shows "make_pipe w = ((0, 0), False, w)"
proof (cases "free_count w = 0")
  case True
  then show ?thesis by (simp add: make_pipe_def fd_new_full)
next
  case False
  then obtain r where "fd_new (PipeRead []) w = (Some r, w\<lparr>fds := (fds w)[r := Some (PipeRead [])]\<rparr>)"
    "free_count (w\<lparr>fds := (fds w)[r := Some (PipeRead [])]\<rparr>) = free_count w - 1"
    using fd_new_free [of w "PipeRead []"] by auto
  with assms False show ?thesis by (simp add: make_pipe_def fd_new_full)
qed

lemma close_free: "fd_get w (Some n) = None \<Longrightarrow> close (Some n) (fd_set (Some n) ob w) = w"
  by (cases "n < length (fds w)") (auto simp: fd_get_def close_def fd_set_def list_update_beyond list_update_same_conv)

lemma closed_descriptor: "\<not> is_pipe (Some n) (close (Some n) w)" "pipe_text (Some n) (close (Some n) w) = []"
  by (simp_all add: is_pipe_def pipe_text_def close_def fd_get_def fd_set_def)

lemma spawn_cgi_starved:
  assumes "free_count w < 4" "\<not> fork_fails ce" "\<not> strcaseeq method ''POST''"
    "cgi_child ce path method query cl [] = Ret out1"
  shows "spawn_cgi junk ce client path method query cl w = Ret (close (Some 0) w)"
proof (cases "free_count w < 2")
  case True
  then have "make_pipe w = ((0, 0), False, w)" by (rule make_pipe_full)
  moreover have "close (Some 0) (close (Some 0) w) = close (Some 0) w" for w by (simp add: close_def)
  ultimately show ?thesis using assms(2-4) closed_descriptor [of 0 w] by (simp add: spawn_cgi_def cgi_parent_def child_text_def Let_def)
next
  case False
  then have room: "2 \<le> free_count w" by simp
  obtain r x where p: "make_pipe w = ((r, x), True, fd_set (Some x) (Some (PipeWrite [])) (fd_set (Some r) (Some (PipeRead [])) w))"
    "fd_get w (Some r) = None" "fd_get w (Some x) = None" "r \<noteq> x" "r < length (fds w)" "x < length (fds w)"
    "free_count (fd_set (Some x) (Some (PipeWrite [])) (fd_set (Some r) (Some (PipeRead [])) w)) = free_count w - 2"
    using make_pipe_ok [OF room] .
  let ?w2 = "fd_set (Some x) (Some (PipeWrite [])) (fd_set (Some r) (Some (PipeRead [])) w)"
  have "free_count ?w2 < 2" using p(7) assms(1) by simp
  then have full: "make_pipe ?w2 = ((0, 0), False, ?w2)" by (rule make_pipe_full)
  have undone: "close (Some x) (close (Some r) ?w2) = w"
  proof -
    have "close (Some x) (close (Some r) ?w2) = close (Some x) (fd_set (Some x) (Some (PipeWrite [])) (close (Some r) (fd_set (Some r) (Some (PipeRead [])) w)))"
      using fd_set_swap [of "Some r" "Some x"] p(4) by (simp add: close_def)
    then show ?thesis using p(2,3) by (simp add: close_free)
  qed
  have again: "close (Some n) w = w" if "fd_get w (Some n) = None" for n
    using close_free [OF that, of None] by (simp add: close_def)
  have x0: "close (Some x) (close (Some 0) w) = close (Some 0) w"
    using again [OF p(3)] fd_set_swap [of "Some x" "Some 0" None None w] by (cases "x = 0") (simp_all add: close_def)
  have off: "\<not> is_pipe (Some x) (close (Some 0) w)" "pipe_text (Some x) (close (Some 0) w) = []" "\<not> is_pipe (Some 0) (close (Some 0) w)"
    using p(3) closed_descriptor [of 0 w] by (cases "x = 0"; simp add: is_pipe_def pipe_text_def close_def)+
  show ?thesis
    using assms(2-4) p(1) full undone again [OF p(2)] off x0
    by (simp add: spawn_cgi_def cgi_parent_def child_text_def Let_def) (simp add: close_def)
qed

lemma exec_cgi_starved:
  assumes sock: "fd_get w client = Some (Socket (header_block hs @ s) t None)"
    and hs: "\<forall>h\<in>set hs. good_header SIZE h" and room: "free_count w < 4"
    and forks: "\<not> fork_fails ce" and q: "no_nul q" "length q + 13 < QUERY_SIZE"
  shows "exec_cgi junk ce client path ''GET'' q w =
     Ret (close (Some 0) (fd_set client (Some (Socket s (t @ cgi_head) None)) w))"
proof -
  let ?w1 = "fd_set client (Some (Socket s (t @ cgi_head) None)) w"
  have "free_count ?w1 < 4" using room sock by (simp add: free_count_set_used)
  moreover have "\<not> strcaseeq ''GET'' ''POST''" by (simp add: strcaseeq_def tolower_def)
  moreover have "cgi_child ce path ''GET'' q 0 [] = Ret ('' GET  query env :QUERY_STRING:'' @ q @ [LF]
      @ cgi_output ce path (get_environment ce q) [])"
    by (simp add: cgi_child_def cgi_setup_get [OF q] cgi_output_def get_environment_def)
  ultimately have "spawn_cgi junk ce client path ''GET'' q 0 ?w1 = Ret (close (Some 0) ?w1)"
    using forks by (intro spawn_cgi_starved)
  moreover have "sock_rx client w = header_block hs @ s" using sock by (simp add: sock_rx_def)
  ultimately show ?thesis
    using clear_head_block [OF hs] send_head_set [OF sock, of s]
    by (simp add: exec_cgi_def send_cgi_head_eq)
qed

lemma spec_content_append: "spec_content cl (hs @ ks) = bindR (spec_content cl hs) (\<lambda>c. spec_content c ks)"
  by (induction cl hs rule: spec_content.induct) (simp_all add: bindR_assoc)

lemma spec_content_other: "\<forall>h\<in>set hs. take 15 h \<noteq> ''Content-Length:'' \<Longrightarrow> spec_content cl hs = Ret cl"
  by (induction cl hs rule: spec_content.induct) simp_all

lemma not_digit_LF: "\<not> is_digit LF"
  by (simp add: is_digit_def)

lemma content_length_header:
  assumes "\<forall>h\<in>set (hs1 @ hs2). take 15 h \<noteq> ''Content-Length:''" "int n \<le> INT_MAX"
  shows "spec_content cl (hs1 @ (''Content-Length: '' @ nat_str n) # hs2) = Ret (int n)"
  using assms atoi_nat_str [of n "[LF]"] not_digit_LF
  by (simp add: spec_content_append spec_content_other)

lemma exec_cgi_post:
  assumes sock: "fd_get w client = Some (Socket (header_block hs @ map Byte body @ s) t None)"
    and hs: "\<forall>h\<in>set hs. good_header SIZE h" "spec_content 0 hs = Ret (int (length body))"
    and room: "4 \<le> free_count w" and forks: "\<not> fork_fails ce" and use: "input_use ce = ReadsOnDemand"
    and len: "int (length body) \<le> INT_MAX"
  shows "exec_cgi junk ce client path ''POST'' q w =
     Ret (fd_set client (Some (Socket s (t @ cgi_head @ '' POST  content len env :CONTENT-LENGTH:''
       @ int_str (int (length body)) @ [LF]
       @ cgi_output ce path (post_environment ce (int (length body))) body) None)) w)"
proof -
  let ?n = "int (length body)"
  let ?w1 = "fd_set client (Some (Socket (map Byte body @ s) (t @ cgi_head) None)) w"
  let ?line = "'' POST  content len env :CONTENT-LENGTH:'' @ int_str ?n @ [LF]"
  let ?out = "cgi_output ce path (post_environment ce ?n) body"
  have "INT_MIN \<le> ?n" by (simp add: INT_MIN_def)
  then have child: "cgi_child ce path ''POST'' q ?n body = Ret (?line @ ?out)"
    by (simp add: cgi_child_def cgi_setup_post [OF _ len] cgi_output_def post_environment_def)
  have "fd_get ?w1 client = Some (Socket (map Byte body @ s) (t @ cgi_head) None)" "free_count ?w1 = free_count w"
    using sock by (simp_all add: free_count_set_used)
  moreover have "body_for ''POST'' ?n (input_use ce) body"
    using use by (simp add: body_for_def strcaseeq_def)
  ultimately have spawn: "spawn_cgi junk ce client path ''POST'' q ?n ?w1 =
      Ret (fd_set client (Some (Socket s ((t @ cgi_head) @ ?line @ ?out) None)) ?w1)"
    using room forks child use by (intro spawn_cgi_result) (auto simp: child_text_def)
  have "sock_rx client w = header_block hs @ map Byte body @ s" using sock by (simp add: sock_rx_def)
  then have "content_loop 0 (sock_rx client w) = Ret (?n, map Byte body @ s)"
    using content_loop_block [OF hs(1), of 0 "map Byte body @ s"] hs(2) by simp
  with spawn show ?thesis
    using send_head_set [OF sock, of "map Byte body @ s"]
    by (simp add: exec_cgi_def send_cgi_head_eq)
qed

lemma cgi_setup_keeps:
  assumes "cgi_setup method q cl env = Ret (env', line)" "CHR '':'' \<notin> set v"
  shows "env' v = env v"
proof -
  have "putenv (c_str (''REQUEST_METHOD:'' @ x)) e v = e v" "putenv (c_str (''QUERY_STRING:'' @ x)) e v = e v"
    "putenv (c_str (''CONTENT-LENGTH:'' @ x)) e v = e v" for x e
    using putenv_name [of _ "''REQUEST_METHOD''" x v e] putenv_name [of _ "''QUERY_STRING''" x v e]
      putenv_name [of _ "''CONTENT-LENGTH''" x v e] assms(2) by simp_all
  with assms(1) show ?thesis by (auto simp: cgi_setup_def Let_def dest!: strcpy_cstr split: if_splits
      simp del: c_str_no_nul append_Cons)
qed

section \<open>Properties\<close>

text \<open>A GET for a CGI program is answered with the fixed head, the line the child prints while its
  output already is the pipe, and the output of the program on an empty input, byte for byte; of the
  process nothing changes but the client's socket, so both pipes are closed again.\<close>
theorem exec_cgi_get_answer:
  assumes "fd_get w client = Some (Socket (header_block hs @ s) t None)"
    "\<forall>h\<in>set hs. good_header SIZE h" "4 \<le> free_count w"
    "\<not> fork_fails ce" "input_use ce \<noteq> ReadsToEnd" "no_nul q" "length q + 13 < QUERY_SIZE"
  shows "exec_cgi junk ce client path ''GET'' q w =
     Ret (fd_set client (Some (Socket s (t @ cgi_head @ '' GET  query env :QUERY_STRING:'' @ q @ [LF]
       @ cgi_output ce path (get_environment ce q) []) None)) w)"
  using assms by (rule exec_cgi_get)

definition demo_cgi :: cgi_env where
  "demo_cgi = \<lparr>fork_fails = False, program = (\<lambda>p env input. Some (p @ input)), input_use = ReadsOnDemand,
     server_env = (\<lambda>v. None), crash_output = (\<lambda>e. Some [])\<rparr>"

definition cgi_world :: "string list \<Rightarrow> string \<Rightarrow> world" where
  "cgi_world hs body = \<lparr>files = (\<lambda>p. None),
     fds = [Some Terminal, Some Terminal, Some (Socket (header_block hs @ map Byte body @ []) [] None), None, None, None, None]\<rparr>"

lemma cgi_world_simps:
  "fd_get (cgi_world hs body) (Some 2) = Some (Socket (header_block hs @ map Byte body @ []) [] None)"
  "free_count (cgi_world hs body) = 4"
  by (simp_all add: fd_get_def cgi_world_def free_count_def)

lemma demo_cgi_simps:
  "\<not> fork_fails demo_cgi" "input_use demo_cgi = ReadsOnDemand" "cgi_output demo_cgi p e i = p @ i"
  "crash_output demo_cgi x = Some []"
  by (simp_all add: demo_cgi_def cgi_output_def)

lemma demo_length_header:
  "good_header SIZE ''Content-Length: 3''" "nat_str (Suc (Suc (Suc 0))) = ''3''"
  "good_header SIZE ''Content-Length:57''" "nat_str 57 = ''57''"
  by (simp add: good_header_def terminator_def size_defs, code_simp,
      simp add: good_header_def terminator_def size_defs, code_simp)

theorem exec_cgi_get_answer_witness:
  "exec_cgi CHR ''x'' demo_cgi (Some 2) ''htdocs/show'' ''GET'' ''a=li&b=7'' (cgi_world [''Host: x''] []) =
     Ret (fd_set (Some 2) (Some (Socket [] (cgi_head @ '' GET  query env :QUERY_STRING:'' @ ''a=li&b=7'' @ [LF]
       @ ''htdocs/show'') None)) (cgi_world [''Host: x''] []))"
  using exec_cgi_get_answer [of "cgi_world [''Host: x''] []" "Some 2" "[''Host: x'']" "[]" "[]" demo_cgi
      "''a=li&b=7''" "CHR ''x''" "''htdocs/show''"]
    cgi_world_simps [of "[''Host: x'']" "[]"] demo_header
  by (simp add: demo_cgi_simps size_defs)

text \<open>A query that does not fit into the child's buffer is the child's fault alone: the server sends what the
  child has left in the pipe and goes on, its descriptors as they were.\<close>
theorem exec_cgi_child_crashes:
  assumes "fd_get w client = Some (Socket (header_block hs @ s) t None)"
    "\<forall>h\<in>set hs. good_header SIZE h" "4 \<le> free_count w" "\<not> fork_fails ce" "no_nul q" "QUERY_SIZE \<le> length q + 13"
    "crash_output ce OutOfBounds = Some left"
  shows "exec_cgi junk ce client path ''GET'' q w =
     Ret (fd_set client (Some (Socket s (t @ cgi_head @ left) None)) w)"
proof -
  let ?w1 = "fd_set client (Some (Socket s (t @ cgi_head) None)) w"
  have "strcpy (zeros METHOD_SIZE) ''REQUEST_METHOD:GET'' = Ret (cbuf METHOD_SIZE ''REQUEST_METHOD:GET'')"
    "cstr (cbuf METHOD_SIZE ''REQUEST_METHOD:GET'') = Ret ''REQUEST_METHOD:GET''"
    by (simp_all add: buf_simps size_defs)
  moreover have "strcpy (zeros QUERY_SIZE) (''QUERY_STRING:'' @ q) = Fail OutOfBounds"
    using assms(5,6) by (simp add: strcpy_def)
  ultimately have child: "cgi_child ce path ''GET'' q 0 [] = Fail OutOfBounds"
    by (simp add: cgi_child_def cgi_setup_def Let_def)
  have "fd_get ?w1 client = Some (Socket (map Byte [] @ s) (t @ cgi_head) None)" "free_count ?w1 = free_count w"
    using assms(1) by (simp_all add: free_count_set_used)
  moreover have "body_for ''GET'' 0 (input_use ce) []"
    by (auto simp: body_for_def strcaseeq_def tolower_def)
  ultimately have "spawn_cgi junk ce client path ''GET'' q 0 ?w1 = Ret (fd_set client (Some (Socket s ((t @ cgi_head) @ left) None)) ?w1)"
    using assms(3,4,7) child by (intro spawn_cgi_result) (auto simp: child_text_def)
  moreover have "sock_rx client w = header_block hs @ s" using assms(1) by (simp add: sock_rx_def)
  ultimately show ?thesis
    using clear_head_block [OF assms(2), of s] send_head_set [OF assms(1), of s]
    by (simp add: exec_cgi_def send_cgi_head_eq)
qed

theorem exec_cgi_child_crashes_witness:
  "exec_cgi CHR ''x'' demo_cgi (Some 2) ''p'' ''GET'' (replicate QUERY_SIZE CHR ''q'') (cgi_world [''Host: x''] []) =
     Ret (fd_set (Some 2) (Some (Socket [] cgi_head None)) (cgi_world [''Host: x''] []))"
  using exec_cgi_child_crashes [of "cgi_world [''Host: x''] []" "Some 2" "[''Host: x'']" "[]" "[]" demo_cgi
      "replicate QUERY_SIZE CHR ''q''" "[]" "CHR ''x''" "''p''"]
    cgi_world_simps [of "[''Host: x'']" "[]"] demo_header
  by (simp add: demo_cgi_simps no_nul_def)

text \<open>C14. A CGI program run for a GET is not heard when fewer than four descriptors are free: a failing \<open>pipe\<close> is only logged,
  the numbers stay 0, and the handler goes on with them.  The client gets the fixed head and nothing behind
  it, and the server closes its own descriptor 0.\<close>
theorem exec_cgi_without_pipes:
  assumes "fd_get w client = Some (Socket (header_block hs @ s) t None)"
    "\<forall>h\<in>set hs. good_header SIZE h" "free_count w < 4" "\<not> fork_fails ce" "no_nul q" "length q + 13 < QUERY_SIZE"
  shows "exec_cgi junk ce client path ''GET'' q w =
     Ret (close (Some 0) (fd_set client (Some (Socket s (t @ cgi_head) None)) w))"
  using assms by (rule exec_cgi_starved)

theorem exec_cgi_without_pipes_witness:
  "exec_cgi CHR ''x'' demo_cgi (Some 2) ''p'' ''GET'' ''a=li&b=7'' \<lparr>files = (\<lambda>p. None),
      fds = [Some Terminal, Some Terminal, Some (Socket (header_block [''Host: x''] @ []) [] None), None, None, None]\<rparr> =
    Ret \<lparr>files = (\<lambda>p. None), fds = [None, Some Terminal, Some (Socket [] cgi_head None), None, None, None]\<rparr>"
  using exec_cgi_without_pipes [of "\<lparr>files = (\<lambda>p. None),
      fds = [Some Terminal, Some Terminal, Some (Socket (header_block [''Host: x''] @ []) [] None), None, None, None]\<rparr>"
      "Some 2" "[''Host: x'']" "[]" "[]" demo_cgi "''a=li&b=7''" "CHR ''x''" "''p''"] demo_header(1)
  by (simp add: fd_get_def free_count_def demo_cgi_simps size_defs close_def fd_set_def)

text \<open>A POST hands the program exactly the body the request announces: with a header line
  \<open>Content-Length: n\<close> and \<open>n\<close> bytes behind the header block, the program reads these bytes, the answer
  is the fixed head, the child's line and the program's output, and what follows the body stays in
  the socket.\<close>
theorem exec_cgi_post_answer:
  assumes "fd_get w client = Some (Socket (header_block hs @ map Byte body @ s) t None)"
    "hs = hs1 @ (''Content-Length: '' @ nat_str (length body)) # hs2"
    "\<forall>h\<in>set (hs1 @ hs2). take 15 h \<noteq> ''Content-Length:''"
    "\<forall>h\<in>set hs. good_header SIZE h" "int (length body) \<le> INT_MAX"
    "4 \<le> free_count w" "\<not> fork_fails ce" "input_use ce = ReadsOnDemand"
  shows "exec_cgi junk ce client path ''POST'' q w =
     Ret (fd_set client (Some (Socket s (t @ cgi_head @ '' POST  content len env :CONTENT-LENGTH:''
       @ int_str (int (length body)) @ [LF]
       @ cgi_output ce path (post_environment ce (int (length body))) body) None)) w)"
  using content_length_header [OF assms(3,5), of 0] assms(2)
  by (intro exec_cgi_post [OF assms(1,4) _ assms(6-8,5)]) simp

theorem exec_cgi_post_answer_witness:
  "\<exists>w'. exec_cgi CHR ''x'' demo_cgi (Some 2) ''p'' ''POST'' [] (cgi_world [''Content-Length: 3''] ''abc'') = Ret w' \<and>
     fd_get w' (Some 2) = Some (Socket [] (cgi_head @ '' POST  content len env :CONTENT-LENGTH:'' @ int_str 3 @ [LF]
       @ ''pabc'') None)"
proof -
  let ?h = "''Content-Length: '' @ nat_str (length ''abc'')" and ?w = "cgi_world [''Content-Length: 3''] ''abc''"
  have h: "?h = ''Content-Length: 3''" by (simp add: demo_length_header(2))
  have "exec_cgi CHR ''x'' demo_cgi (Some 2) ''p'' ''POST'' [] ?w = Ret (fd_set (Some 2) (Some (Socket []
      ([] @ cgi_head @ '' POST  content len env :CONTENT-LENGTH:'' @ int_str (int (length ''abc'')) @ [LF]
       @ cgi_output demo_cgi ''p'' (post_environment demo_cgi (int (length ''abc''))) ''abc'') None)) ?w)"
  proof (rule exec_cgi_post_answer [where hs = "[''Content-Length: 3'']" and ?hs1.0 = "[]" and ?hs2.0 = "[]"])
    show "[''Content-Length: 3''] = [] @ ?h # []" unfolding h by simp
    show "fd_get ?w (Some 2) = Some (Socket (header_block [''Content-Length: 3''] @ map Byte ''abc'' @ []) [] None)"
      by (rule cgi_world_simps(1))
  qed (simp_all add: demo_length_header(1) demo_cgi_simps cgi_world_simps(2) INT_MAX_def)
  moreover have "int (length ''abc'') = 3" by simp
  ultimately show ?thesis using fd_get_set_same [OF cgi_world_simps(1)] by (simp only: demo_cgi_simps append.simps) blast
qed

text \<open>The request never reaches the environment of the program: the strings handed to \<open>putenv\<close> have a
  colon where an equals sign belongs, so every variable whose name has no colon, \<open>REQUEST_METHOD\<close>,
  \<open>QUERY_STRING\<close> and \<open>CONTENT_LENGTH\<close> among them, is in the program what it was in the server.\<close>
theorem cgi_environment_unchanged:
  assumes "cgi_setup method q cl env = Ret (env', line)" "CHR '':'' \<notin> set v"
  shows "env' v = env v"
  using assms by (rule cgi_setup_keeps)

theorem cgi_environment_unchanged_witness:
  "\<exists>env' line. cgi_setup ''GET'' ''a=li&b=7'' 0 (\<lambda>v. None) = Ret (env', line) \<and> env' ''QUERY_STRING'' = None \<and>
     env' ''REQUEST_METHOD'' = None"
proof -
  obtain env' line where "cgi_setup ''GET'' ''a=li&b=7'' 0 (\<lambda>v. None) = Ret (env', line)"
    using cgi_setup_get [of "''a=li&b=7''" 0 "\<lambda>v. None"] by (auto simp: size_defs)
  with cgi_environment_unchanged [OF this, of "''QUERY_STRING''"]
    cgi_environment_unchanged [OF this, of "''REQUEST_METHOD''"] show ?thesis by auto
qed

text \<open>The body of an answer, for a client that follows the protocol: what stands behind the first empty
  line.\<close>

fun http_body :: "string \<Rightarrow> string" where
  "http_body (a # b # c # d # r) =
     (if a = CR \<and> b = LF \<and> c = CR \<and> d = LF then r else http_body (b # c # d # r))"
| "http_body _ = []"

text \<open>The header lines of a CGI answer end up in its body: the status line is sent with an empty line
  behind it, so for a client the body begins with the text \<open>Server: jdbhttp/1.1\<close> and the
  \<open>Content-Type\<close> line.\<close>
theorem cgi_headers_become_body:
  assumes "fd_get w client = Some (Socket (header_block hs @ s) [] None)"
    "\<forall>h\<in>set hs. good_header SIZE h" "4 \<le> free_count w"
    "\<not> fork_fails ce" "input_use ce \<noteq> ReadsToEnd" "no_nul q" "length q + 13 < QUERY_SIZE"
  shows "\<exists>w' answer out1. exec_cgi junk ce client path ''GET'' q w = Ret w' \<and>
     fd_get w' client = Some (Socket s answer None) \<and>
     http_body answer = SERVER_STRING @ ''Content-Type:text/html'' @ CRLF @ CRLF @ out1"
proof -
  have "http_body (cgi_head @ x) = SERVER_STRING @ ''Content-Type:text/html'' @ CRLF @ CRLF @ x" for x
    by (simp add: cgi_head_def)
  with exec_cgi_get [OF assms] assms(1) show ?thesis by simp
qed

theorem cgi_headers_become_body_witness:
  "\<exists>w' answer out1. exec_cgi CHR ''x'' demo_cgi (Some 2) ''p'' ''GET'' ''a=li&b=7'' (cgi_world [''Host: x''] []) = Ret w' \<and>
     fd_get w' (Some 2) = Some (Socket [] answer None) \<and>
     http_body answer = SERVER_STRING @ ''Content-Type:text/html'' @ CRLF @ CRLF @ out1"
  using cgi_headers_become_body [of "cgi_world [''Host: x''] []" "Some 2" "[''Host: x'']" "[]" demo_cgi
      "''a=li&b=7''" "CHR ''x''" "''p''"]
    cgi_world_simps [of "[''Host: x'']" "[]"] demo_header
  by (simp add: demo_cgi_simps size_defs)

text \<open>A header line \<open>Content-Length:n\<close> without a space, which the protocol allows, loses its first
  digit: the number is read from the character after the next one.\<close>
theorem content_length_loses_digit:
  assumes "nat_str n = d # ds" "ds \<noteq> []" "int n \<le> INT_MAX"
    "\<forall>h\<in>set (hs1 @ hs2). take 15 h \<noteq> ''Content-Length:''"
    "\<forall>h\<in>set (hs1 @ (''Content-Length:'' @ nat_str n) # hs2). good_header SIZE h"
  shows "content_loop 0 (header_block (hs1 @ (''Content-Length:'' @ nat_str n) # hs2) @ s) =
    Ret (int n mod 10 ^ length ds, s)"
proof -
  have digits: "\<forall>c\<in>set ds. is_digit c" "is_digit d" using nat_str_all_digits [of n] assms(1) by simp_all
  have val: "n = digit_val d * 10 ^ length ds + dec_val ds" "dec_val ds < 10 ^ length ds"
    using dec_val_nat_str [of n] dec_val_Cons [of d ds] dec_val_bound [OF digits(1)] assms(1) by simp_all
  have "dec_val ds \<le> n" using val(1) by simp
  then have "int (dec_val ds) \<le> INT_MAX" using assms(3) by linarith
  then have "atoi (ds @ [LF]) = Ret (int (dec_val ds))"
    using digits(1) assms(2) not_digit_LF by (intro atoi_digits)
  moreover have "n mod 10 ^ length ds = dec_val ds" using val by simp
  then have "int n mod 10 ^ length ds = int (dec_val ds)"
    by (metis of_nat_mod of_nat_numeral of_nat_power)
  ultimately show ?thesis
    using content_loop_block [OF assms(5), of 0 s] assms(1,4)
    by (simp add: spec_content_append spec_content_other)
qed

theorem content_length_loses_digit_witness:
  "content_loop 0 (header_block [''Content-Length:57''] @ map Byte ''body'') = Ret (7, map Byte ''body'')"
  using content_length_loses_digit [of 57 "CHR ''5''" "''7''" "[]" "[]" "map Byte ''body''"] demo_length_header
  by (simp add: INT_MAX_def)

end
