(* ===== verification/Query.thy ===== *)
theory Query
  imports Comm
begin

text \<open>
  Taking name and card number out of \<open>key=name&key=number\<close>, twice: \<open>server_http::get_string\<close> in the
  server (\<open>server/server_http.h\<close>), and \<open>recv_str\<close> in the CGI program (\<open>cgi_bin/show.cpp\<close>).  The mutex
  of the server appears here for the first time: it is a flag, and locking it while it is held by the
  same thread never returns.
\<close>

section \<open>The mutex\<close>

definition pthread_mutex_lock :: "bool \<Rightarrow> bool res" where
  "pthread_mutex_lock held = (if held then Hang else Ret True)"

definition pthread_mutex_unlock :: "bool \<Rightarrow> bool res" where
  "pthread_mutex_unlock held = Ret False"

lemma mutex_simps [simp]:
  "pthread_mutex_lock False = Ret True" "pthread_mutex_lock True = Hang" "pthread_mutex_unlock h = Ret False"
  by (simp_all add: pthread_mutex_lock_def pthread_mutex_unlock_def)

section \<open>The parser of the server\<close>

text \<open>\<open>while (*query++ != '=' && *query != '\\0') NULL;\<close>\<close>

fun skip_eq :: "char list \<Rightarrow> char list res" where
  "skip_eq [] = Fail OutOfBounds"
| "skip_eq (c # p) =
    (if c \<noteq> CHR ''='' then
       (case p of [] \<Rightarrow> Fail OutOfBounds | d # _ \<Rightarrow> if d \<noteq> NUL then skip_eq p else Ret p)
     else Ret p)"

text \<open>\<open>while (*query != '&' && *query != '\\0') tmp[i++] = *query++;\<close>\<close>

fun copy_value :: "char list \<Rightarrow> char list \<Rightarrow> nat \<Rightarrow> (char list \<times> char list \<times> nat) res" where
  "copy_value [] tmp i = Fail OutOfBounds"
| "copy_value (c # p) tmp i =
    (if c \<noteq> CHR ''&'' \<and> c \<noteq> NUL then bindR (wr tmp i c) (\<lambda>tmp1. copy_value p tmp1 (Suc i))
     else Ret (c # p, tmp, i))"

text \<open>\<open>fill\<close> is what the fresh array of \<open>new char[n+1]\<close> holds; \<open>memset(tmp, 0, sizeof(tmp))\<close> clears as
  many bytes as a pointer has.\<close>

definition get_string ::
  "char \<Rightarrow> char list \<Rightarrow> nat \<Rightarrow> bool \<Rightarrow> ((string \<times> string) \<times> bool) res" where
  "get_string fill query n mtx =
    bindR (cstr query) (\<lambda>_.
    if \<not> 0 < n then Fail AssertFail
    else bindR (memset0 (replicate (n + 1) fill) sizeof_ptr) (\<lambda>tmp.
    bindR (pthread_mutex_lock mtx) (\<lambda>mtx1.
    bindR (skip_eq query) (\<lambda>p1. bindR (copy_value p1 tmp 0) (\<lambda>(p2, tmp1, i).
    bindR (pthread_mutex_unlock mtx1) (\<lambda>mtx2.
    bindR (wr tmp1 i NUL) (\<lambda>tmp2. bindR (cstr tmp2) (\<lambda>name.
    bindR (pthread_mutex_lock mtx2) (\<lambda>mtx3.
    bindR (skip_eq p2) (\<lambda>p3.
    bindR (pthread_mutex_unlock mtx3) (\<lambda>mtx4.
    bindR (cstr p3) (\<lambda>id. Ret ((name, id), mtx4)))))))))))))"

section \<open>The parser of the CGI program\<close>

text \<open>The loop of \<open>recv_str\<close>: the buffer is changed in place, \<open>name\<close> and \<open>id\<close> are positions in it.\<close>

function recv_scan ::
  "char list \<Rightarrow> nat \<Rightarrow> nat option \<Rightarrow> (char list \<times> nat option \<times> nat option) res" where
  "recv_scan buf cur name =
    (if cur < length buf then
       (let c = buf ! cur in
        if c \<noteq> NUL then
          (if c = CHR ''='' \<and> name = None then recv_scan buf (Suc cur) (Some (Suc cur))
           else let buf1 = (if c = CHR ''&'' then buf[cur := NUL] else buf) in
             if c = CHR ''='' \<and> name \<noteq> None then Ret (buf1, name, Some (Suc cur))
             else recv_scan buf1 (Suc cur) name)
        else Ret (buf, name, None))
     else Fail OutOfBounds)"
  by pat_completeness auto
termination
  by (relation "measure (\<lambda>(buf, cur, name). length buf - cur)") (auto simp: Let_def)

declare recv_scan.simps [simp del]

text \<open>The strings the two pointers designate when the loop is over; \<open>None\<close> is the null pointer.\<close>

definition cstr_opt :: "char list \<Rightarrow> nat option \<Rightarrow> string option res" where
  "cstr_opt buf k = (case k of None \<Rightarrow> Ret None | Some i \<Rightarrow>
     bindR (at buf i) (\<lambda>p. bindR (cstr p) (\<lambda>s. Ret (Some s))))"

definition recv_str_fields :: "char list \<Rightarrow> (string option \<times> string option) res" where
  "recv_str_fields str =
    bindR (recv_scan str 0 None) (\<lambda>(buf, name, id).
    bindR (cstr_opt buf name) (\<lambda>n. bindR (cstr_opt buf id) (\<lambda>i. Ret (n, i))))"

section \<open>What the parsers compute\<close>

text \<open>The text behind the first equals sign; nothing when there is none.\<close>

definition after_eq :: "string \<Rightarrow> string" where
  "after_eq q = tl (dropWhile (\<lambda>c. c \<noteq> CHR ''='') q)"

definition spec_name :: "string \<Rightarrow> string" where
  "spec_name q = takeWhile (\<lambda>c. c \<noteq> CHR ''&'') (after_eq q)"

definition spec_id :: "string \<Rightarrow> string" where
  "spec_id q = after_eq (dropWhile (\<lambda>c. c \<noteq> CHR ''&'') (after_eq q))"

lemma no_nul_after_eq: "no_nul q \<Longrightarrow> no_nul (after_eq q)"
  by (induction q) (auto simp: after_eq_def)

lemma length_after_eq: "length (after_eq q) \<le> length q"
  by (induction q) (auto simp: after_eq_def)

lemma skip_eq_spec: "q \<noteq> [] \<Longrightarrow> no_nul q \<Longrightarrow> skip_eq (q @ NUL # r) = Ret (after_eq q @ NUL # r)"
proof (induction q)
  case (Cons c q)
  then show ?case by (cases q) (auto simp: after_eq_def)
qed simp

lemma skip_eq_NUL: "skip_eq (NUL # NUL # r) = Ret (NUL # r)"
  by simp

lemma copy_value_spec:
  assumes "no_nul v" "i + length v \<le> length tmp"
  shows "copy_value (v @ NUL # r) tmp i =
    Ret (dropWhile (\<lambda>c. c \<noteq> CHR ''&'') v @ NUL # r,
         put tmp i (takeWhile (\<lambda>c. c \<noteq> CHR ''&'') v),
         i + length (takeWhile (\<lambda>c. c \<noteq> CHR ''&'') v))"
  using assms
proof (induction v arbitrary: tmp i)
  case (Cons c v)
  then show ?case
    using Cons.IH [where tmp = "tmp[i := c]" and i = "Suc i"] by auto
qed simp

lemma no_nul_dropWhile: "no_nul q \<Longrightarrow> no_nul (dropWhile P q)"
  by (auto simp: no_nul_def dest: set_dropWhileD)

lemma no_nul_takeWhile': "no_nul q \<Longrightarrow> no_nul (takeWhile P q)"
  by (auto simp: no_nul_def dest: set_takeWhileD)

text \<open>\<open>query\<close> is the array of \<open>QUERY_SIZE\<close> characters of \<open>Accept\<close>; two cells behind the text are needed
  because a query without an ampersand makes the second loop step over the NUL.\<close>

lemma get_string_eq:
  assumes "no_nul q" "3 \<le> length q" "length q + 2 \<le> n"
  shows "get_string fill (cbuf n q) (length q) False = Ret ((spec_name q, spec_id q), False)"
proof -
  let ?r = "NUL # zeros (n - length q - 2)"
  let ?v = "after_eq q" and ?tmp = "zeros 4 @ drop 4 (replicate (length q + 1) fill)"
  let ?w = "dropWhile (\<lambda>c. c \<noteq> CHR ''&'') ?v" and ?nm = "takeWhile (\<lambda>c. c \<noteq> CHR ''&'') ?v"
  have nq: "q \<noteq> []" using assms(2) by auto
  have "n - length q = Suc (Suc (n - length q - 2))" using assms(3) by simp
  then have "zeros (n - length q) = NUL # ?r" by (metis zeros_Suc)
  then have buf: "cbuf n q = q @ NUL # ?r" by (simp add: cbuf_def)
  have nv: "no_nul ?v" using assms(1) by (rule no_nul_after_eq)
  have mem: "memset0 (replicate (length q + 1) fill) sizeof_ptr = Ret ?tmp"
    using assms(2) by (simp add: memset0_def sizeof_ptr_def)
  have tmp: "length ?tmp = length q + 1" using assms(2) by simp
  have le: "length ?nm \<le> length q"
    using length_takeWhile_le [of "\<lambda>c. c \<noteq> CHR ''&''" ?v] length_after_eq [of q] by linarith
  have copy: "copy_value (?v @ NUL # ?r) ?tmp 0 = Ret (?w @ NUL # ?r, put ?tmp 0 ?nm, length ?nm)"
    using copy_value_spec [of ?v 0 ?tmp ?r] nv tmp length_after_eq [of q] by simp
  have wr: "wr (put ?tmp 0 ?nm) (length ?nm) NUL = Ret (put ?tmp 0 (?nm @ [NUL]))"
    using le tmp put_snoc0 [of ?nm ?tmp NUL] by (simp add: wr_def)
  have name: "cstr (put ?tmp 0 (?nm @ [NUL])) = Ret ?nm"
    using cstr_put [of ?nm ?tmp "[]"] nv by (simp add: no_nul_takeWhile')
  have "skip_eq (?w @ NUL # ?r) = Ret (after_eq ?w @ (if ?w = [] then [] else [NUL]) @ ?r)"
  proof (cases "?w = []")
    case True
    show ?thesis unfolding True by (simp add: after_eq_def)
  next
    case False
    with nv show ?thesis using skip_eq_spec [of ?w ?r] by (simp add: no_nul_dropWhile)
  qed
  moreover have "cstr (after_eq ?w @ (if ?w = [] then [] else [NUL]) @ ?r) = Ret (after_eq ?w)"
    using nv by (auto simp: no_nul_after_eq no_nul_dropWhile)
  ultimately show ?thesis
    using assms(2) buf nq mem copy wr name skip_eq_spec [OF nq assms(1), of ?r] assms(1)
    by (simp add: get_string_def spec_name_def spec_id_def)
qed

subsection \<open>Well-formed queries\<close>

definition query_text :: "string \<Rightarrow> string \<Rightarrow> string \<Rightarrow> string \<Rightarrow> string" where
  "query_text k1 v1 k2 v2 = k1 @ CHR ''='' # v1 @ CHR ''&'' # k2 @ CHR ''='' # v2"

definition clean :: "string \<Rightarrow> bool" where
  "clean w \<longleftrightarrow> CHR ''='' \<notin> set w \<and> CHR ''&'' \<notin> set w \<and> NUL \<notin> set w"

lemma clean_no_nul: "clean w \<Longrightarrow> no_nul w"
  by (simp add: clean_def no_nul_def)

lemma no_nul_query_text:
  "clean k1 \<Longrightarrow> clean v1 \<Longrightarrow> clean k2 \<Longrightarrow> no_nul v2 \<Longrightarrow> no_nul (query_text k1 v1 k2 v2)"
  by (simp add: query_text_def clean_no_nul)

lemma length_query_text: "length (query_text k1 v1 k2 v2) = length k1 + length v1 + length k2 + length v2 + 3"
  by (simp add: query_text_def)

lemma after_eq_app: "CHR ''='' \<notin> set k \<Longrightarrow> after_eq (k @ CHR ''='' # r) = r"
  by (induction k) (auto simp: after_eq_def)

lemma amp_split:
  "CHR ''&'' \<notin> set v \<Longrightarrow> takeWhile (\<lambda>c. c \<noteq> CHR ''&'') (v @ CHR ''&'' # r) = v"
  "CHR ''&'' \<notin> set v \<Longrightarrow> dropWhile (\<lambda>c. c \<noteq> CHR ''&'') (v @ CHR ''&'' # r) = CHR ''&'' # r"
  by (induction v) auto

lemma spec_of_query_text:
  assumes "clean k1" "clean v1" "clean k2"
  shows "spec_name (query_text k1 v1 k2 v2) = v1" and "spec_id (query_text k1 v1 k2 v2) = v2"
  using assms after_eq_app [of "CHR ''&'' # k2" v2]
  by (simp_all add: spec_name_def spec_id_def query_text_def clean_def after_eq_app amp_split)

lemma recv_scan_step:
  "c \<noteq> NUL \<Longrightarrow> c \<noteq> CHR ''='' \<Longrightarrow> c \<noteq> CHR ''&'' \<Longrightarrow>
   recv_scan (pre @ c # rest) (length pre) nm = recv_scan (pre @ c # rest) (Suc (length pre)) nm"
  by (subst recv_scan.simps) simp

lemma recv_scan_run:
  "clean w \<Longrightarrow> recv_scan (pre @ w @ rest) (length pre) nm = recv_scan (pre @ w @ rest) (length pre + length w) nm"
proof (induction w arbitrary: pre)
  case (Cons c w)
  then have "recv_scan (pre @ c # w @ rest) (length pre) nm = recv_scan ((pre @ [c]) @ w @ rest) (length (pre @ [c])) nm"
    using recv_scan_step [of c pre "w @ rest" nm] by (auto simp: clean_def)
  with Cons.IH [of "pre @ [c]"] Cons.prems show ?case by (simp add: clean_def)
qed simp

lemma recv_scan_eq1:
  "recv_scan (pre @ CHR ''='' # rest) (length pre) None = recv_scan (pre @ CHR ''='' # rest) (Suc (length pre)) (Some (Suc (length pre)))"
  by (subst recv_scan.simps) simp

lemma recv_scan_amp:
  "recv_scan (pre @ CHR ''&'' # rest) (length pre) nm = recv_scan (pre @ NUL # rest) (Suc (length pre)) nm"
  by (subst recv_scan.simps) (simp add: Let_def)

lemma recv_scan_eq2:
  "recv_scan (pre @ CHR ''='' # rest) (length pre) (Some k) = Ret (pre @ CHR ''='' # rest, Some k, Some (Suc (length pre)))"
  by (subst recv_scan.simps) (simp add: Let_def)

lemma recv_str_query_text:
  assumes "clean k1" "clean v1" "clean k2" "no_nul v2"
  shows "recv_str_fields (query_text k1 v1 k2 v2 @ NUL # r) = Ret (Some v1, Some v2)"
proof -
  let ?tail = "k2 @ CHR ''='' # v2 @ NUL # r"
  let ?a = "k1 @ [CHR ''='']" let ?b = "?a @ v1" let ?c = "?b @ [NUL]" let ?d = "?c @ k2"
  have "recv_scan (k1 @ CHR ''='' # v1 @ CHR ''&'' # ?tail) 0 None
      = recv_scan (k1 @ CHR ''='' # v1 @ CHR ''&'' # ?tail) (length k1) None"
    using recv_scan_run [of k1 "[]"] assms(1) by simp
  also have "\<dots> = recv_scan (?a @ v1 @ CHR ''&'' # ?tail) (length ?a) (Some (length ?a))"
    using recv_scan_eq1 by simp
  also have "\<dots> = recv_scan (?b @ CHR ''&'' # ?tail) (length ?b) (Some (length ?a))"
    using recv_scan_run [OF assms(2), of ?a] by simp
  also have "\<dots> = recv_scan (?c @ ?tail) (length ?c) (Some (length ?a))"
    using recv_scan_amp [of ?b] by simp
  also have "\<dots> = recv_scan (?d @ CHR ''='' # v2 @ NUL # r) (length ?d) (Some (length ?a))"
    using recv_scan_run [OF assms(3), of ?c] by (simp add: add.assoc)
  also have "\<dots> = Ret (?d @ CHR ''='' # v2 @ NUL # r, Some (length ?a), Some (Suc (length ?d)))"
    by (rule recv_scan_eq2)
  finally have scan: "recv_scan (k1 @ CHR ''='' # v1 @ CHR ''&'' # ?tail) 0 None =
      Ret (?d @ CHR ''='' # v2 @ NUL # r, Some (length ?a), Some (Suc (length ?d)))" .
  have "drop (length ?a) (?a @ v1 @ NUL # ?tail) = v1 @ NUL # ?tail" by (rule append_eq_conv_conj [THEN iffD1, THEN conjunct2, symmetric]) simp
  then have n: "cstr_opt (?d @ CHR ''='' # v2 @ NUL # r) (Some (length ?a)) = Ret (Some v1)"
    using assms(2) by (simp add: cstr_opt_def clean_no_nul)
  have "drop (Suc (length ?d)) (?d @ CHR ''='' # v2 @ NUL # r) = v2 @ NUL # r" by (rule drop_Suc_append)
  then have i: "cstr_opt (?d @ CHR ''='' # v2 @ NUL # r) (Some (Suc (length ?d))) = Ret (Some v2)"
    using assms(4) by (simp add: cstr_opt_def)
  show ?thesis
    using scan n i by (simp add: recv_str_fields_def query_text_def)
qed

lemma no_hang_skip_eq [simp, hang_intros]: "no_hang (skip_eq p)"
  by (induction p) (auto split: list.splits)

lemma no_hang_copy_value [simp, hang_intros]: "no_hang (copy_value p tmp i)"
  by (induction p tmp i rule: copy_value.induct) (auto intro: hang_intros)

text \<open>Once \<open>recv_scan\<close> is past the number's equals sign or the NUL it is over; it always ends.\<close>

lemma no_hang_recv_scan [simp, hang_intros]: "no_hang (recv_scan buf cur name)"
proof (induction buf cur name rule: recv_scan.induct)
  case (1 buf cur name)
  then show ?case by (subst recv_scan.simps) (auto simp: Let_def)
qed

subsection \<open>The interface the rest of the system relies on\<close>

text \<open>A parser of queries returns the two values of a well-formed query that fits the query buffer.\<close>

definition query_fits :: "string \<Rightarrow> string \<Rightarrow> string \<Rightarrow> string \<Rightarrow> bool" where
  "query_fits k1 v1 k2 v2 \<longleftrightarrow> clean k1 \<and> clean v1 \<and> clean k2 \<and> no_nul v2 \<and>
     length (query_text k1 v1 k2 v2) + 2 \<le> QUERY_SIZE"

locale query_parser =
  fixes parse :: "string \<Rightarrow> (string \<times> string) res"
  assumes parse_query: "query_fits k1 v1 k2 v2 \<Longrightarrow> parse (query_text k1 v1 k2 v2) = Ret (v1, v2)"
begin

text \<open>The keys do not matter, and the person is determined by what was parsed.\<close>

lemma parse_same:
  assumes "query_fits k1 v1 k2 v2" "query_fits j1 w1 j2 w2"
  shows "parse (query_text k1 v1 k2 v2) = parse (query_text j1 w1 j2 w2) \<longleftrightarrow> v1 = w1 \<and> v2 = w2"
  using assms by (simp add: parse_query)

lemma parse_returns: "query_fits k1 v1 k2 v2 \<Longrightarrow> \<exists>p. parse (query_text k1 v1 k2 v2) = Ret p"
  by (simp add: parse_query)

end

definition server_parse :: "char \<Rightarrow> string \<Rightarrow> (string \<times> string) res" where
  "server_parse fill q =
     bindR (get_string fill (cbuf QUERY_SIZE q) (length q) False) (\<lambda>(p, mtx). Ret p)"

definition cgi_parse :: "string \<Rightarrow> (string \<times> string) res" where
  "cgi_parse q =
     bindR (recv_str_fields (cbuf SIZE q)) (\<lambda>(n, i).
       case (n, i) of (Some a, Some b) \<Rightarrow> Ret (a, b) | _ \<Rightarrow> Fail NullDeref)"

lemma server_parse_query: "query_fits k1 v1 k2 v2 \<Longrightarrow> server_parse fill (query_text k1 v1 k2 v2) = Ret (v1, v2)"
  using get_string_eq [of "query_text k1 v1 k2 v2" QUERY_SIZE fill]
  by (simp add: query_fits_def server_parse_def no_nul_query_text spec_of_query_text length_query_text)

lemma cgi_parse_query: "query_fits k1 v1 k2 v2 \<Longrightarrow> cgi_parse (query_text k1 v1 k2 v2) = Ret (v1, v2)"
  using recv_str_query_text [of k1 v1 k2 v2] cbuf_split [of "query_text k1 v1 k2 v2" SIZE]
  by (simp add: query_fits_def cgi_parse_def size_defs)

interpretation server_query: query_parser "server_parse fill"
  by unfold_locales (rule server_parse_query)

interpretation cgi_query: query_parser cgi_parse
  by unfold_locales (rule cgi_parse_query)

section \<open>Properties\<close>

text \<open>C22. On every text that fits the query buffer, \<open>get_string\<close> returns the text between the first
  equals sign and the next ampersand as the name and the text behind the next equals sign as the
  number, and leaves the mutex free.\<close>
theorem get_string_correct:
  assumes "no_nul q" "3 \<le> length q" "length q + 2 \<le> QUERY_SIZE"
  shows "get_string fill (cbuf QUERY_SIZE q) (length q) False = Ret ((spec_name q, spec_id q), False)"
  using assms by (rule get_string_eq)

theorem get_string_correct_witness:
  "get_string CHR ''x'' (cbuf QUERY_SIZE ''val=zhoufei&val2=123'') (length ''val=zhoufei&val2=123'') False = Ret ((''zhoufei'', ''123''), False)"
  using get_string_correct [of "''val=zhoufei&val2=123''" "CHR ''x''"]
  by (simp add: size_defs spec_name_def spec_id_def after_eq_def)

text \<open>C21. The two parsers of the repository agree on every well-formed query: the server records exactly
  the name and the number the CGI program shows.\<close>
theorem server_and_cgi_agree:
  assumes "query_fits k1 v1 k2 v2"
  shows "server_parse fill (query_text k1 v1 k2 v2) = Ret (v1, v2)
    \<and> cgi_parse (query_text k1 v1 k2 v2) = server_parse fill (query_text k1 v1 k2 v2)"
  using assms by (simp add: server_query.parse_query cgi_query.parse_query)

theorem server_and_cgi_agree_witness:
  "server_parse CHR ''x'' (query_text ''val'' ''zhoufei'' ''val2'' ''123'') = Ret (''zhoufei'', ''123'')
    \<and> cgi_parse (query_text ''val'' ''zhoufei'' ''val2'' ''123'')
        = server_parse CHR ''x'' (query_text ''val'' ''zhoufei'' ''val2'' ''123'')"
  by (rule server_and_cgi_agree) (simp add: query_fits_def clean_def query_text_def size_defs)

text \<open>An empty query aborts the process: the assertion of \<open>get_string\<close> wants a positive length; and a
  query of one or two characters makes its \<open>memset\<close>, which clears as many bytes as a pointer has,
  write behind the array it just allocated.\<close>
theorem get_string_short:
  assumes "no_nul q"
  shows "(q = [] \<longrightarrow> get_string fill (cbuf QUERY_SIZE q) (length q) False = Fail AssertFail)
    \<and> (length q \<in> {1, 2} \<longrightarrow> get_string fill (cbuf QUERY_SIZE q) (length q) False = Fail OutOfBounds)"
  using assms by (auto simp: get_string_def buf_simps size_defs memset0_def sizeof_ptr_def)

theorem get_string_short_witness:
  "get_string CHR ''x'' (cbuf QUERY_SIZE []) 0 False = Fail AssertFail
    \<and> get_string CHR ''x'' (cbuf QUERY_SIZE ''a'') 1 False = Fail OutOfBounds"
  using get_string_short [of "[]" "CHR ''x''"] get_string_short [of "''a''" "CHR ''x''"] by simp

end
