(* ===== verification/Calendar.thy ===== *)
theory Calendar
  imports CString
begin

text \<open>
  The part of \<open>time.h\<close> the server uses: \<open>time\<close> is the number of seconds since 1970 and an argument of
  the model; \<open>localtime\<close> breaks it down in a time zone \<open>tz\<close> seconds east of Greenwich (no summer
  time), \<open>mktime\<close> puts it together again, and \<open>strftime\<close> is modelled for the one format the server
  passes, \<open>%Y.%m.%d %X %A\<close>, in the C locale.
\<close>

datatype tm = Tm (tm_year: nat) (tm_mon: nat) (tm_mday: nat) (tm_hour: nat) (tm_min: nat)
  (tm_sec: nat) (tm_wday: nat)

definition leap :: "nat \<Rightarrow> bool" where
  "leap y \<longleftrightarrow> y mod 4 = 0 \<and> (y mod 100 \<noteq> 0 \<or> y mod 400 = 0)"

definition year_days :: "nat \<Rightarrow> nat" where
  "year_days y = (if leap y then 366 else 365)"

definition month_days :: "nat \<Rightarrow> nat \<Rightarrow> nat" where
  "month_days y m =
     (if m = 1 then (if leap y then 29 else 28) else if m = 3 \<or> m = 5 \<or> m = 8 \<or> m = 10 then 30 else 31)"

lemma year_days_pos [simp]: "0 < year_days y"
  by (simp add: year_days_def)

lemma month_days_pos [simp]: "0 < month_days y m"
  by (simp add: month_days_def)

function year_split :: "nat \<Rightarrow> nat \<Rightarrow> nat \<times> nat" where
  "year_split y d = (if d < year_days y then (y, d) else year_split (Suc y) (d - year_days y))"
  by pat_completeness auto
termination
  by (relation "measure snd") (auto simp: not_less intro: diff_less order_less_le_trans [OF year_days_pos])

function month_split :: "nat \<Rightarrow> nat \<Rightarrow> nat \<Rightarrow> nat \<times> nat" where
  "month_split y m d = (if d < month_days y m then (m, d) else month_split y (Suc m) (d - month_days y m))"
  by pat_completeness auto
termination
  by (relation "measure (snd \<circ> snd)") (auto simp: not_less intro: diff_less order_less_le_trans [OF month_days_pos])

declare year_split.simps [simp del] month_split.simps [simp del]

definition localtime :: "nat \<Rightarrow> nat \<Rightarrow> tm" where
  "localtime tz t =
    (let u = t + tz; days = u div 86400; s = u mod 86400;
         (y, yd) = year_split 1970 days; (m, md) = month_split y 0 yd
     in Tm y m (Suc md) (s div 3600) (s mod 3600 div 60) (s mod 60) ((days + 4) mod 7))"

definition year_start :: "nat \<Rightarrow> nat" where
  "year_start y = (\<Sum>k\<leftarrow>[1970..<y]. year_days k)"

definition month_start :: "nat \<Rightarrow> nat \<Rightarrow> nat" where
  "month_start y m = (\<Sum>k\<leftarrow>[0..<m]. month_days y k)"

definition mktime :: "nat \<Rightarrow> tm \<Rightarrow> nat" where
  "mktime tz T =
    ((year_start (tm_year T) + month_start (tm_year T) (tm_mon T) + (tm_mday T - 1)) * 86400
      + tm_hour T * 3600 + tm_min T * 60 + tm_sec T) - tz"

definition day_name :: "nat \<Rightarrow> string" where
  "day_name w = [''Sunday'', ''Monday'', ''Tuesday'', ''Wednesday'', ''Thursday'', ''Friday'', ''Saturday''] ! (w mod 7)"

definition two_digits :: "nat \<Rightarrow> string" where
  "two_digits n = [digit_char (n div 10 mod 10), digit_char (n mod 10)]"

definition strftime :: "tm \<Rightarrow> string" where
  "strftime T =
     nat_str (tm_year T) @ ''.'' @ two_digits (Suc (tm_mon T)) @ ''.'' @ two_digits (tm_mday T) @ '' ''
     @ two_digits (tm_hour T) @ '':'' @ two_digits (tm_min T) @ '':'' @ two_digits (tm_sec T) @ '' ''
     @ day_name (tm_wday T)"

section \<open>\<open>mktime\<close> inverts \<open>localtime\<close>\<close>

lemma year_split_sum:
  "year_split y d = (y1, d1) \<Longrightarrow> y \<le> y1 \<and> d = (\<Sum>k\<leftarrow>[y..<y1]. year_days k) + d1"
proof (induction y d rule: year_split.induct)
  case (1 y d)
  show ?case
  proof (cases "d < year_days y")
    case True
    with "1.prems" show ?thesis by (auto simp: year_split.simps [of y d])
  next
    case False
    with "1.prems" have "year_split (Suc y) (d - year_days y) = (y1, d1)"
      by (simp add: year_split.simps [of y d])
    with "1.IH" [OF False] have "Suc y \<le> y1" "d - year_days y = (\<Sum>k\<leftarrow>[Suc y..<y1]. year_days k) + d1"
      by simp_all
    with False show ?thesis by (simp add: upt_conv_Cons)
  qed
qed

lemma month_split_sum:
  "month_split y m d = (m1, d1) \<Longrightarrow> m \<le> m1 \<and> d = (\<Sum>k\<leftarrow>[m..<m1]. month_days y k) + d1"
proof (induction y m d rule: month_split.induct)
  case (1 y m d)
  show ?case
  proof (cases "d < month_days y m")
    case True
    with "1.prems" show ?thesis by (auto simp: month_split.simps [of y m d])
  next
    case False
    with "1.prems" have "month_split y (Suc m) (d - month_days y m) = (m1, d1)"
      by (simp add: month_split.simps [of y m d])
    with "1.IH" [OF False] have "Suc m \<le> m1" "d - month_days y m = (\<Sum>k\<leftarrow>[Suc m..<m1]. month_days y k) + d1"
      by simp_all
    with False show ?thesis by (simp add: upt_conv_Cons)
  qed
qed

lemma day_seconds: "(s::nat) < 86400 \<Longrightarrow> s div 3600 * 3600 + s mod 3600 div 60 * 60 + s mod 60 = s"
proof -
  have "s mod 3600 div 60 * 60 + s mod 3600 mod 60 = s mod 3600" by (rule div_mult_mod_eq)
  moreover have "s mod 3600 mod 60 = s mod 60" by (simp add: mod_mod_cancel)
  moreover have "s div 3600 * 3600 + s mod 3600 = s" by (rule div_mult_mod_eq)
  ultimately show ?thesis by linarith
qed

lemma seconds_sum:
  fixes D u :: nat
  assumes "D = ys + (ms + md)" "D * 86400 + s = u + tz" "h * 3600 + m * 60 + c = s"
  shows "(ys + ms + md) * 86400 + h * 3600 + m * 60 + c - tz = u"
  using assms by (simp add: algebra_simps)

lemma mktime_localtime: "mktime tz (localtime tz t) = t"
proof -
  let ?u = "t + tz"
  obtain y yd where y: "year_split 1970 (?u div 86400) = (y, yd)" by force
  obtain m md where m: "month_split y 0 yd = (m, md)" by force
  have a: "?u div 86400 = year_start y + (month_start y m + md)"
    using year_split_sum [OF y] month_split_sum [OF m] by (simp add: year_start_def month_start_def)
  have b: "?u div 86400 * 86400 + ?u mod 86400 = ?u" by (rule div_mult_mod_eq)
  have c: "?u mod 86400 div 3600 * 3600 + ?u mod 86400 mod 3600 div 60 * 60 + ?u mod 86400 mod 60 = ?u mod 86400"
    by (rule day_seconds) simp
  have d: "localtime tz t = Tm y m (Suc md) (?u mod 86400 div 3600)
      (?u mod 86400 mod 3600 div 60) (?u mod 86400 mod 60) ((?u div 86400 + 4) mod 7)"
    by (simp add: localtime_def y m Let_def)
  show ?thesis
    unfolding mktime_def d tm.sel diff_Suc_1 by (rule seconds_sum [OF a b c])
qed

text \<open>What a user of the clock relies on: taking a time apart and putting it together loses nothing, so
  differences of broken-down times are differences of clock readings.\<close>

locale libc_time =
  fixes break_down :: "nat \<Rightarrow> tm" and put_together :: "tm \<Rightarrow> nat"
  assumes put_break: "put_together (break_down t) = t"
begin

lemma elapsed: "int (put_together (break_down b)) - int (put_together (break_down a)) = int b - int a"
  by (simp add: put_break)

lemma break_down_inj: "break_down a = break_down b \<longleftrightarrow> a = b"
  by (metis put_break)

end

interpretation clock: libc_time "localtime tz" "mktime tz"
  by unfold_locales (rule mktime_localtime)

text \<open>\<open>mktime(localtime(&t))\<close> is \<open>t\<close>: the server computes its time differences on the values
  \<open>time\<close> returned, and two different readings never look alike.\<close>
theorem localtime_roundtrip:
  "mktime tz (localtime tz t) = t \<and> (localtime tz t = localtime tz t' \<longleftrightarrow> t = t')"
  by (simp add: clock.put_break clock.break_down_inj)

end
