(* ===== verification/Attendance.thy ===== *)
theory Attendance
  imports Query Calendar
begin

text \<open>
  The attendance register of \<open>class server_http\<close> (\<open>server/server_http.h\<close>): the node of a person, the
  vector of nodes, the search for a person, the clock, the working time, the report line, and the
  handler \<open>send_vector\<close> that signs a person in or out.
\<close>

section \<open>The node of a person\<close>

text \<open>\<open>u_data\<close> is the field \<open>double data\<close>: it starts at 0 and only ever grows by 1, and a double counts
  exactly below 2^53.  The two times are \<open>time_t\<close> values.\<close>

record user_node =
  u_name :: string
  u_id :: string
  arrive_time :: string
  leave_time :: string
  u_sec :: int
  u_min :: int
  u_hour :: int
  u_data :: nat
  start_time :: int
  end_time :: int

definition new_user_node :: "string \<Rightarrow> string \<Rightarrow> string \<Rightarrow> string \<Rightarrow> nat \<Rightarrow> user_node" where
  "new_user_node name idn ar_time lev_time d =
     \<lparr>u_name = name, u_id = idn, arrive_time = ar_time, leave_time = lev_time,
      u_sec = 0, u_min = 0, u_hour = 0, u_data = d, start_time = 0, end_time = 0\<rparr>"

definition buynode :: "string \<Rightarrow> string \<Rightarrow> string \<Rightarrow> string \<Rightarrow> nat \<Rightarrow> user_node" where
  "buynode name idn first lst d = new_user_node name idn first lst d"

section \<open>The state of the server\<close>

text \<open>\<open>static_tm\<close> is the object \<open>localtime\<close> returns a pointer to; \<open>live_nodes\<close> counts the nodes that
  were allocated and not deleted; \<open>out\<close> is what \<open>show\<close> has printed.\<close>

record server =
  vsize :: nat
  users :: "user_node list"
  mutex :: bool
  static_tm :: tm
  live_nodes :: nat
  out :: string

definition new_server :: "nat \<Rightarrow> server" where
  "new_server sz = \<lparr>vsize = sz, users = [], mutex = False, static_tm = Tm 0 0 0 0 0 0 0,
     live_nodes = 0, out = []\<rparr>"

section \<open>Printing the table\<close>

abbreviation TAB :: char where "TAB \<equiv> CHR 0x09"

text \<open>\<open>cout << data\<close> prints a whole number with six significant digits: plainly below a million, in
  scientific form (rounded half to even, trailing zeros removed) from there on.\<close>

definition round_even :: "nat \<Rightarrow> nat \<Rightarrow> nat" where
  "round_even n k = (let a = n div k; r = n mod k
     in if 2 * r < k then a else if 2 * r > k then Suc a else if even a then a else Suc a)"

definition fmt_double :: "nat \<Rightarrow> string" where
  "fmt_double n =
    (if n < 1000000 then nat_str n
     else let e = length (nat_str n) - 1; m = round_even n (10 ^ (e - 5));
              (m1, e1) = (if m = 1000000 then (100000, Suc e) else (m, e));
              ds = nat_str m1;
              frac = rev (dropWhile (\<lambda>c. c = CHR ''0'') (rev (tl ds)))
          in hd ds # (if frac = [] then [] else CHR ''.'' # frac) @ ''e+''
             @ (if e1 < 10 then CHR ''0'' # nat_str e1 else nat_str e1))"

definition show_header :: string where
  "show_header =
     [CHR 0xE5, CHR 0xA7, CHR 0x93, CHR 0xE5, CHR 0x90, CHR 0x8D, TAB,
      CHR 0xE7, CHR 0xBC, CHR 0x96, CHR 0xE5, CHR 0x8F, CHR 0xB7, TAB,
      CHR 0xE7, CHR 0xAD, CHR 0xBE, CHR 0xE5, CHR 0x88, CHR 0xB0, CHR 0xE6, CHR 0x97, CHR 0xB6,
      CHR 0xE9, CHR 0x97, CHR 0xB4, TAB, TAB, TAB,
      CHR 0xE7, CHR 0xA6, CHR 0xBB, CHR 0xE5, CHR 0xBC, CHR 0x80, CHR 0xE6, CHR 0x97, CHR 0xB6,
      CHR 0xE9, CHR 0x97, CHR 0xB4, TAB, TAB, TAB,
      CHR 0xE8, CHR 0xAE, CHR 0xA1, CHR 0xE6, CHR 0x97, CHR 0xB6, CHR 0xE9, CHR 0x97, CHR 0xB4, LF]"

definition show_row :: "user_node \<Rightarrow> string" where
  "show_row u =
     u_name u @ [TAB] @ u_id u @ [TAB] @ arrive_time u @ [TAB] @ leave_time u @
     [TAB] @ fmt_double (u_data u) @ [CHR 0xE5, CHR 0xA4, CHR 0xA9] @
     int_str (u_hour u) @ [CHR 0xE6, CHR 0x97, CHR 0xB6] @
     int_str (u_min u) @ [CHR 0xE5, CHR 0x88, CHR 0x86] @
     int_str (u_sec u) @ [CHR 0xE7, CHR 0xA7, CHR 0x92, LF]"

definition show_table :: "server \<Rightarrow> server" where
  "show_table st = st\<lparr>out := out st @ show_header @ concat (map show_row (users st))\<rparr>"

section \<open>The clock\<close>

definition get_time :: "nat \<Rightarrow> nat \<Rightarrow> server \<Rightarrow> (string \<times> server) res" where
  "get_time tz now st =
    bindR (pthread_mutex_lock (mutex st)) (\<lambda>m1.
      let st1 = st\<lparr>static_tm := localtime tz now\<rparr>; buf = strftime (static_tm st1)
      in bindR (pthread_mutex_unlock m1) (\<lambda>m2. Ret (buf, st1\<lparr>mutex := m2\<rparr>)))"

section \<open>Finding a person\<close>

text \<open>The loop of \<open>find_id\<close>; \<open>None\<close> is \<open>v.end()\<close>.\<close>

fun find_pos :: "user_node list \<Rightarrow> user_node \<Rightarrow> nat option" where
  "find_pos [] head = None"
| "find_pos (cur # rest) head =
    (if c_str (u_id cur) = c_str (u_id head) \<and> c_str (u_name cur) = c_str (u_name head) then Some 0
     else map_option Suc (find_pos rest head))"

definition find_id :: "user_node \<Rightarrow> server \<Rightarrow> (nat option \<times> server) res" where
  "find_id head st =
    (case find_pos (users st) head of
       Some i \<Rightarrow> Ret (Some i, st)
     | None \<Rightarrow>
         bindR (pthread_mutex_lock (mutex st)) (\<lambda>m1.
         bindR (pthread_mutex_unlock m1) (\<lambda>m2.
           Ret (None, st\<lparr>vsize := Suc (vsize st), mutex := m2\<rparr>))))"

section \<open>The working time\<close>

text \<open>A working day has eight hours.  One round of the loop moves a minute.\<close>

definition work_round :: "user_node \<Rightarrow> user_node" where
  "work_round u =
    (let u1 = u\<lparr>u_min := u_min u + 1\<rparr>;
         u2 = (if 60 \<le> u_min u1 then u1\<lparr>u_hour := u_hour u1 + 1, u_min := u_min u1 - 60\<rparr> else u1);
         u3 = (if 8 \<le> u_hour u2 then u2\<lparr>u_data := u_data u2 + 1, u_hour := u_hour u2 - 8\<rparr> else u2)
     in u3\<lparr>u_sec := u_sec u3 - 60\<rparr>)"

lemma work_round_sec [simp]: "u_sec (work_round u) = u_sec u - 60"
  by (simp add: work_round_def Let_def)

function work_loop :: "user_node \<Rightarrow> user_node" where
  "work_loop u = (if 60 \<le> u_sec u then work_loop (work_round u) else u)"
  by pat_completeness auto
termination
  by (relation "measure (\<lambda>u. nat (u_sec u))") auto

declare work_loop.simps [simp del]

definition calculat_work_time :: "user_node \<Rightarrow> user_node res" where
  "calculat_work_time cur =
    bindR (to_int32 (u_sec cur + (end_time cur - start_time cur))) (\<lambda>s.
      Ret (work_loop (cur\<lparr>u_sec := s\<rparr>)))"

section \<open>The report line\<close>

definition int_to_str :: "int \<Rightarrow> char list \<Rightarrow> char list res" where
  "int_to_str key buf = strcpy buf (int_str key)"

text \<open>\<open>memset(buf)\<close>, \<open>int_to_str(key, buf)\<close>, lock, \<open>tmp += buf; tmp += flag\<close>, unlock.\<close>

definition append_int :: "int \<Rightarrow> string \<Rightarrow> string \<times> bool \<Rightarrow> (string \<times> bool) res" where
  "append_int key flag r =
    bindR (int_to_str key (zeros INT_TO_STR_SIZE)) (\<lambda>buf. bindR (cstr buf) (\<lambda>s.
    bindR (pthread_mutex_lock (snd r)) (\<lambda>m1. bindR (pthread_mutex_unlock m1) (\<lambda>m2.
      Ret (fst r @ s @ flag, m2)))))"

definition int_to_string :: "user_node \<Rightarrow> bool \<Rightarrow> (string \<times> bool) res" where
  "int_to_string cur mtx =
    bindR (to_int32 (int (u_data cur))) (\<lambda>d.
    bindR (append_int d '':'' ([], mtx)) (\<lambda>r1.
    bindR (append_int (u_hour cur) '':'' r1) (\<lambda>r2.
    bindR (append_int (u_min cur) '':'' r2) (\<lambda>r3.
      append_int (u_sec cur) [] r3))))"

definition get_total_string :: "user_node \<Rightarrow> bool \<Rightarrow> (string \<times> bool) res" where
  "get_total_string cur mtx =
    bindR (pthread_mutex_lock mtx) (\<lambda>m1.
      let tmp = u_name cur @ '' '' @ u_id cur @ '' '' @ arrive_time cur @ '' '' @ leave_time cur @ '' ''
      in bindR (pthread_mutex_unlock m1) (\<lambda>m2. Ret (tmp, m2)))"

section \<open>Signing in and out\<close>

text \<open>The branch for a person who is already there: the second sign-in counts as the time of leaving.
  The result is the line printed after \<open>total :\<close>.  The call of \<open>my.insert\<close> between the last lock and
  unlock is inside a comment, and the new node is not deleted.\<close>

definition sign_out :: "nat \<Rightarrow> nat \<Rightarrow> string \<Rightarrow> server \<Rightarrow> (string option \<times> server) res" where
  "sign_out tz i local_time st =
    bindR (calculat_work_time ((users st ! i)
        \<lparr>end_time := int (mktime tz (static_tm st)), leave_time := local_time\<rparr>)) (\<lambda>u.
    bindR (get_total_string u (mutex st)) (\<lambda>(total, m1).
    bindR (int_to_string u m1) (\<lambda>(total_time, m2).
    bindR (pthread_mutex_lock m2) (\<lambda>m3. bindR (pthread_mutex_unlock m3) (\<lambda>m4.
      Ret (Some (total @ total_time),
           show_table (st\<lparr>users := (users st)[i := u], mutex := m4\<rparr>)))))))"

text \<open>The branch for a new person: a copy of the node goes into the vector and the node is deleted.\<close>

definition sign_in :: "nat \<Rightarrow> user_node \<Rightarrow> string \<Rightarrow> server \<Rightarrow> (string option \<times> server) res" where
  "sign_in tz tmp local_time st =
    bindR (pthread_mutex_lock (mutex st)) (\<lambda>m1.
    let u = tmp\<lparr>start_time := int (mktime tz (static_tm st)), arrive_time := local_time\<rparr> in
    bindR (pthread_mutex_unlock m1) (\<lambda>m2.
      Ret (None, show_table (st\<lparr>users := users st @ [u], mutex := m2,
             live_nodes := live_nodes st - 1\<rparr>))))"

definition send_vector :: "nat \<Rightarrow> char \<Rightarrow> nat \<Rightarrow> char list \<Rightarrow> server \<Rightarrow> (string option \<times> server) res" where
  "send_vector tz fill now query st =
    bindR (cstr query) (\<lambda>q.
    bindR (get_string fill query (length q) (mutex st)) (\<lambda>((name, id), m).
    bindR (get_time tz now (st\<lparr>mutex := m\<rparr>)) (\<lambda>(local_time, st1).
    let tmp = buynode name id [] [] 0; st2 = st1\<lparr>live_nodes := Suc (live_nodes st1)\<rparr> in
    bindR (find_id tmp st2) (\<lambda>(prev, st3).
    case prev of
      Some i \<Rightarrow> sign_out tz i local_time st3
    | None \<Rightarrow> sign_in tz tmp local_time st3))))"

end
