(* ===== verification/Register.thy ===== *)
theory Register
  imports Attendance "HOL-Library.Product_Lexorder"
begin

text \<open>
  What the attendance register promises: an abstract register that maps a person to an attendance
  sheet, the invariant of the vector, and the proofs that \<open>send_vector\<close> keeps the invariant and
  implements the abstract sign-in; the arithmetic of the working time and the report line.
\<close>

section \<open>Working time\<close>

text \<open>Everything recorded so far, in seconds; a day has eight hours.\<close>

definition worked :: "user_node \<Rightarrow> int" where
  "worked u = ((int (u_data u) * 8 + u_hour u) * 60 + u_min u) * 60 + u_sec u"

definition hm_ok :: "user_node \<Rightarrow> bool" where
  "hm_ok u \<longleftrightarrow> 0 \<le> u_min u \<and> u_min u < 60 \<and> 0 \<le> u_hour u \<and> u_hour u < 8"

definition normal :: "user_node \<Rightarrow> bool" where
  "normal u \<longleftrightarrow> hm_ok u \<and> 0 \<le> u_sec u \<and> u_sec u < 60"

named_theorems node_simps \<open>fields the working-time loop does not change\<close>

lemma work_round_frame [simp, node_simps]:
  "u_name (work_round u) = u_name u" "u_id (work_round u) = u_id u"
  "arrive_time (work_round u) = arrive_time u" "leave_time (work_round u) = leave_time u"
  "start_time (work_round u) = start_time u" "end_time (work_round u) = end_time u"
  by (simp_all add: work_round_def Let_def)

lemma work_round_worked: "hm_ok u \<Longrightarrow> worked (work_round u) = worked u"
  by (simp add: work_round_def worked_def hm_ok_def Let_def)

lemma work_round_hm_ok: "hm_ok u \<Longrightarrow> hm_ok (work_round u)"
  by (auto simp: work_round_def hm_ok_def Let_def)

lemma work_loop_rule:
  assumes "P u" "\<And>u. P u \<Longrightarrow> 60 \<le> u_sec u \<Longrightarrow> P (work_round u)"
  shows "P (work_loop u)"
  using assms
proof (induction u rule: work_loop.induct)
  case (1 u)
  show ?case
  proof (cases "60 \<le> u_sec u")
    case True
    with "1.prems" have "P (work_round u)" by blast
    with "1.IH" [OF True] "1.prems"(2) True show ?thesis by (simp add: work_loop.simps [of u])
  next
    case False
    with "1.prems" show ?thesis by (simp add: work_loop.simps [of u])
  qed
qed

lemma work_loop_sec: "u_sec (work_loop u) < 60"
  by (induction u rule: work_loop.induct) (subst work_loop.simps, auto)

lemma work_loop_frame [simp, node_simps]:
  "u_name (work_loop u) = u_name u" "u_id (work_loop u) = u_id u"
  "arrive_time (work_loop u) = arrive_time u" "leave_time (work_loop u) = leave_time u"
  "start_time (work_loop u) = start_time u" "end_time (work_loop u) = end_time u"
  by (rule work_loop_rule; simp)+

lemma work_loop_keeps:
  assumes "hm_ok u"
  shows "hm_ok (work_loop u)" and "worked (work_loop u) = worked u"
proof -
  have "hm_ok (work_loop u) \<and> worked (work_loop u) = worked u"
    by (rule work_loop_rule) (use assms work_round_hm_ok work_round_worked in auto)
  then show "hm_ok (work_loop u)" and "worked (work_loop u) = worked u" by simp_all
qed

lemma work_loop_nonneg: "0 \<le> u_sec u \<Longrightarrow> 0 \<le> u_sec (work_loop u)"
  by (rule work_loop_rule [where P = "\<lambda>v. 0 \<le> u_sec v"]) auto

lemma work_loop_normal: "hm_ok u \<Longrightarrow> 0 \<le> u_sec u \<Longrightarrow> normal (work_loop u)"
  by (simp add: normal_def work_loop_keeps work_loop_sec work_loop_nonneg)

lemma normal_fields:
  assumes "normal u"
  shows "u_sec u = worked u mod 60" "u_min u = worked u div 60 mod 60"
    "u_hour u = worked u div 3600 mod 8" "int (u_data u) = worked u div 28800"
proof -
  let ?h = "int (u_data u) * 8 + u_hour u" let ?m = "?h * 60 + u_min u"
  have b: "0 \<le> u_sec u" "u_sec u < 60" "0 \<le> u_min u" "u_min u < 60" "0 \<le> u_hour u" "u_hour u < 8"
    using assms by (simp_all add: normal_def hm_ok_def)
  have w: "worked u mod 60 = u_sec u" "worked u div 60 = ?m"
    unfolding worked_def using radix [OF b(1,2), of ?m] by auto
  have m: "?m mod 60 = u_min u" "?m div 60 = ?h" using radix [OF b(3,4), of ?h] by auto
  have h: "?h mod 8 = u_hour u" "?h div 8 = int (u_data u)" using radix [OF b(5,6)] by auto
  have "worked u div 3600 = worked u div 60 div 60" using zdiv_zmult2_eq [of 60 "worked u" 60] by simp
  then have q1: "worked u div 3600 = ?h" by (simp only: w m)
  have "worked u div 28800 = worked u div 3600 div 8" using zdiv_zmult2_eq [of 8 "worked u" 3600] by simp
  then have q2: "worked u div 28800 = int (u_data u)" by (simp only: q1 h)
  show "u_sec u = worked u mod 60" by (simp only: w)
  show "u_min u = worked u div 60 mod 60" by (simp only: w m)
  show "u_hour u = worked u div 3600 mod 8" by (simp only: q1 h)
  show "int (u_data u) = worked u div 28800" by (simp only: q2)
qed

text \<open>\<open>calculat_work_time\<close>: whatever the clock says, the recorded seconds grow by \<open>end - start\<close>.\<close>

lemma calculat_work_time_Ret:
  assumes "calculat_work_time u = Ret u1" "hm_ok u"
  shows "worked u1 = worked u + (end_time u - start_time u)" and "hm_ok u1" and "u_sec u1 < 60"
    and "0 \<le> u_sec u + (end_time u - start_time u) \<Longrightarrow> normal u1"
    and "u_name u1 = u_name u" "u_id u1 = u_id u" "arrive_time u1 = arrive_time u"
    "leave_time u1 = leave_time u" "start_time u1 = start_time u" "end_time u1 = end_time u"
proof -
  let ?v = "u\<lparr>u_sec := u_sec u + (end_time u - start_time u)\<rparr>"
  from assms have u1: "u1 = work_loop ?v" by (auto simp: calculat_work_time_def to_int32_Ret)
  have ok: "hm_ok ?v" using assms(2) by (simp add: hm_ok_def)
  show "worked u1 = worked u + (end_time u - start_time u)"
    unfolding u1 work_loop_keeps(2) [OF ok] by (simp add: worked_def)
  show "hm_ok u1" "u_sec u1 < 60" unfolding u1 using work_loop_keeps [OF ok] work_loop_sec by simp_all
  show "0 \<le> u_sec u + (end_time u - start_time u) \<Longrightarrow> normal u1"
    unfolding u1 using ok by (intro work_loop_normal) simp_all
qed (use assms in \<open>auto simp: calculat_work_time_def to_int32_Ret\<close>)

lemma calculat_work_time_cases:
  obtains u1 where "calculat_work_time u = Ret u1" | "calculat_work_time u = Fail IntOverflow"
  by (cases "to_int32 (u_sec u + (end_time u - start_time u)) = Fail IntOverflow")
    (auto simp: calculat_work_time_def to_int32_def split: if_splits)

lemma calculat_work_time_ok:
  assumes "0 \<le> u_sec u" "u_sec u < 60" "0 \<le> end_time u - start_time u" "end_time u - start_time u \<le> INT_MAX - 60"
  shows "\<exists>u1. calculat_work_time u = Ret u1"
  using assms by (simp add: calculat_work_time_def INT_MAX_def INT_MIN_def)

text \<open>The four numbers as they are shown, compared from the left.\<close>

datatype work = Work (w_days: nat) (w_hours: int) (w_mins: int) (w_secs: int)

instantiation work :: linorder
begin

definition less_eq_work :: "work \<Rightarrow> work \<Rightarrow> bool" where
  "less_eq_work a b \<longleftrightarrow> (w_days a, w_hours a, w_mins a, w_secs a) \<le> (w_days b, w_hours b, w_mins b, w_secs b)"

definition less_work :: "work \<Rightarrow> work \<Rightarrow> bool" where
  "less_work a b \<longleftrightarrow> (w_days a, w_hours a, w_mins a, w_secs a) < (w_days b, w_hours b, w_mins b, w_secs b)"

instance
  by standard (auto simp: less_eq_work_def less_work_def intro: work.expand)

end

definition work_of :: "user_node \<Rightarrow> work" where
  "work_of u = Work (u_data u) (u_hour u) (u_min u) (u_sec u)"

lemma work_of_less: "normal u \<Longrightarrow> normal w \<Longrightarrow> work_of u < work_of w \<Longrightarrow> worked u < worked w"
  by (auto simp: less_work_def work_of_def normal_def hm_ok_def worked_def)

lemma work_of_le: "normal u \<Longrightarrow> normal w \<Longrightarrow> work_of u \<le> work_of w \<longleftrightarrow> worked u \<le> worked w"
  using work_of_less [of u w] work_of_less [of w u] linorder_less_linear [of "work_of u" "work_of w"]
  by (auto simp: work_of_def worked_def)

section \<open>The report line\<close>

definition work_text :: "user_node \<Rightarrow> string" where
  "work_text u = int_str (int (u_data u)) @ '':'' @ int_str (u_hour u) @ '':'' @ int_str (u_min u) @ '':'' @ int_str (u_sec u)"

definition report :: "user_node \<Rightarrow> string" where
  "report u = u_name u @ '' '' @ u_id u @ '' '' @ arrive_time u @ '' '' @ leave_time u @ '' '' @ work_text u"

lemma append_int_eq:
  assumes "INT_MIN \<le> k" "k \<le> INT_MAX"
  shows "append_int k flag (tmp, False) = Ret (tmp @ int_str k @ flag, False)"
  using length_int_str [OF assms]
  by (simp add: append_int_def int_to_str_def buf_simps size_defs)

lemma int_to_string_eq:
  assumes "hm_ok u" "INT_MIN \<le> u_sec u" "u_sec u < 60" "int (u_data u) \<le> INT_MAX"
  shows "int_to_string u False = Ret (work_text u, False)"
  using assms
  by (simp add: int_to_string_def append_int_eq work_text_def hm_ok_def INT_MIN_def INT_MAX_def)

lemma get_total_string_eq:
  "get_total_string u False =
     Ret (u_name u @ '' '' @ u_id u @ '' '' @ arrive_time u @ '' '' @ leave_time u @ '' '', False)"
  by (simp add: get_total_string_def)

text \<open>Reading the four numbers back.\<close>

definition split_colon :: "string \<Rightarrow> string \<times> string" where
  "split_colon s = (takeWhile (\<lambda>c. c \<noteq> CHR '':'') s, tl (dropWhile (\<lambda>c. c \<noteq> CHR '':'') s))"

definition read_work :: "string \<Rightarrow> (int \<times> int \<times> int \<times> int) res" where
  "read_work s =
    (let (a, s1) = split_colon s; (b, s2) = split_colon s1; (c, d) = split_colon s2
     in bindR (atoi a) (\<lambda>x. bindR (atoi b) (\<lambda>y. bindR (atoi c) (\<lambda>z. bindR (atoi d) (\<lambda>w.
          Ret (x, y, z, w))))))"

lemma split_colon_app: "CHR '':'' \<notin> set a \<Longrightarrow> split_colon (a @ CHR '':'' # s) = (a, s)"
  by (induction a) (auto simp: split_colon_def)

lemma read_work_text:
  assumes "hm_ok u" "INT_MIN \<le> u_sec u" "u_sec u < 60" "int (u_data u) \<le> INT_MAX"
  shows "read_work (work_text u) = Ret (int (u_data u), u_hour u, u_min u, u_sec u)"
  using assms
  by (simp add: read_work_def work_text_def split_colon_app int_str_no_colon atoi_int_str hm_ok_def
      INT_MIN_def INT_MAX_def)

section \<open>Finding a person\<close>

definition person :: "user_node \<Rightarrow> string \<times> string" where
  "person u = (c_str (u_name u), c_str (u_id u))"

lemma find_pos_Some:
  "find_pos us h = Some i \<Longrightarrow> i < length us \<and> person (us ! i) = person h \<and> (\<forall>j<i. person (us ! j) \<noteq> person h)"
proof (induction us arbitrary: i)
  case (Cons u us)
  show ?case
  proof (cases "person u = person h")
    case True
    with Cons.prems show ?thesis by (auto simp: person_def)
  next
    case False
    with Cons.prems obtain k where k: "i = Suc k" "find_pos us h = Some k"
      by (auto simp: person_def split: if_splits)
    have "person ((u # us) ! j) \<noteq> person h" if "j < Suc k" for j
      using that False Cons.IH [OF k(2)] by (cases j) auto
    with Cons.IH [OF k(2)] k(1) show ?thesis by simp
  qed
qed simp

lemma find_pos_None: "find_pos us h = None \<longleftrightarrow> person h \<notin> person ` set us"
  by (induction us) (auto simp: person_def)

lemma find_pos_cong: "person h = person k \<Longrightarrow> find_pos us h = find_pos us k"
  by (induction us) (auto simp: person_def)

section \<open>The abstract register\<close>

record sheet =
  came :: int
  left :: "int option"
  seconds :: int

type_synonym register = "string \<times> string \<rightharpoonup> sheet"

definition sheet_of :: "user_node \<Rightarrow> sheet" where
  "sheet_of u = \<lparr>came = start_time u, left = (if leave_time u = [] then None else Some (end_time u)),
     seconds = worked u\<rparr>"

definition register_of :: "user_node list \<Rightarrow> register" where
  "register_of us = map_of (map (\<lambda>u. (person u, sheet_of u)) us)"

text \<open>Signing in opens a sheet; signing again sets the time of leaving and adds the time since arrival.\<close>

definition sign :: "int \<Rightarrow> string \<times> string \<Rightarrow> register \<Rightarrow> register" where
  "sign now k R = (case R k of
       None \<Rightarrow> R(k \<mapsto> \<lparr>came = now, left = None, seconds = 0\<rparr>)
     | Some s \<Rightarrow> R(k \<mapsto> s\<lparr>left := Some now, seconds := seconds s + (now - came s)\<rparr>))"

lemma register_of_found:
  "find_pos us h = Some i \<Longrightarrow> register_of us (person h) = Some (sheet_of (us ! i))"
proof (induction us arbitrary: i)
  case (Cons u us)
  then show ?case by (auto simp: register_of_def person_def split: if_splits)
qed simp

lemma register_of_update:
  "find_pos us h = Some i \<Longrightarrow> person u = person h \<Longrightarrow>
   register_of (us[i := u]) = (register_of us)(person h \<mapsto> sheet_of u)"
proof (induction us arbitrary: i)
  case (Cons v us)
  show ?case
  proof (cases "person v = person h")
    case True
    with Cons.prems show ?thesis by (auto simp: register_of_def person_def)
  next
    case False
    with Cons.prems obtain k where k: "i = Suc k" "find_pos us h = Some k"
      by (auto simp: person_def split: if_splits)
    with Cons.IH [OF k(2)] Cons.prems(2) False show ?thesis
      by (auto simp: register_of_def fun_upd_twist)
  qed
qed simp

lemma register_of_missing: "find_pos us h = None \<longleftrightarrow> register_of us (person h) = None"
  by (auto simp: find_pos_None register_of_def map_of_eq_None_iff image_iff)

lemma register_of_snoc:
  assumes "register_of us (person u) = None"
  shows "register_of (us @ [u]) = (register_of us)(person u \<mapsto> sheet_of u)"
proof -
  have "register_of (us @ [u]) = [person u \<mapsto> sheet_of u] ++ register_of us"
    by (simp add: register_of_def)
  also have "\<dots> = (register_of us)(person u \<mapsto> sheet_of u)"
    using assms by (auto simp: map_add_def fun_eq_iff split: option.splits)
  finally show ?thesis .
qed

section \<open>\<open>send_vector\<close> on a query that fits\<close>

definition good_query :: "string \<Rightarrow> bool" where
  "good_query q \<longleftrightarrow> no_nul q \<and> 3 \<le> length q \<and> length q + 2 \<le> QUERY_SIZE"

definition query_person :: "string \<Rightarrow> string \<times> string" where
  "query_person q = (spec_name q, spec_id q)"

definition head_node :: "string \<Rightarrow> user_node" where
  "head_node q = new_user_node (spec_name q) (spec_id q) [] [] 0"

lemma no_nul_spec_fields: "no_nul q \<Longrightarrow> no_nul (spec_name q)" "no_nul q \<Longrightarrow> no_nul (spec_id q)"
  by (simp_all add: spec_name_def spec_id_def no_nul_after_eq no_nul_dropWhile no_nul_takeWhile')

lemma person_head_node: "no_nul q \<Longrightarrow> person (head_node q) = query_person q"
  by (simp add: person_def head_node_def new_user_node_def query_person_def no_nul_spec_fields)

definition first_sign :: "nat \<Rightarrow> nat \<Rightarrow> string \<Rightarrow> server \<Rightarrow> server" where
  "first_sign tz now q st = show_table (st\<lparr>static_tm := localtime tz now, vsize := Suc (vsize st),
     users := users st @ [(head_node q)\<lparr>start_time := int now, arrive_time := strftime (localtime tz now)\<rparr>]\<rparr>)"

definition leaving :: "nat \<Rightarrow> nat \<Rightarrow> user_node \<Rightarrow> user_node" where
  "leaving tz now u = u\<lparr>end_time := int now, leave_time := strftime (localtime tz now)\<rparr>"

definition sign_again :: "nat \<Rightarrow> nat \<Rightarrow> nat \<Rightarrow> user_node \<Rightarrow> server \<Rightarrow> server" where
  "sign_again tz now i u st = show_table (st\<lparr>static_tm := localtime tz now,
     live_nodes := Suc (live_nodes st), users := (users st)[i := u]\<rparr>)"

lemma server_eq_update [simp]: "\<not> mutex st \<Longrightarrow> st\<lparr>mutex := False\<rparr> = st"
  by simp

lemma send_vector_first:
  assumes "good_query q" "\<not> mutex st" "find_pos (users st) (head_node q) = None"
  shows "send_vector tz fill now (cbuf QUERY_SIZE q) st = Ret (None, first_sign tz now q st)"
proof -
  have "cstr (cbuf QUERY_SIZE q) = Ret q"
    using assms(1) by (simp add: good_query_def cstr_cbuf)
  moreover have "get_string fill (cbuf QUERY_SIZE q) (length q) (mutex st) = Ret ((spec_name q, spec_id q), False)"
    using assms(1,2) by (simp add: good_query_def get_string_eq)
  ultimately show ?thesis
    using assms(2,3)
    by (simp add: send_vector_def sign_out_def sign_in_def get_time_def find_id_def buynode_def head_node_def Let_def
        clock.put_break first_sign_def show_table_def)
qed

lemma int_to_string_overflow: "INT_MAX < int (u_data u) \<Longrightarrow> int_to_string u False = Fail IntOverflow"
  by (simp add: int_to_string_def to_int32_def)

lemma send_vector_again:
  assumes "good_query q" "\<not> mutex st" "find_pos (users st) (head_node q) = Some i"
    "calculat_work_time (leaving tz now (users st ! i)) = Ret u" "hm_ok u" "INT_MIN \<le> u_sec u" "u_sec u < 60"
  shows "send_vector tz fill now (cbuf QUERY_SIZE q) st =
    (if int (u_data u) \<le> INT_MAX then Ret (Some (report u), sign_again tz now i u st) else Fail IntOverflow)"
proof -
  have "cstr (cbuf QUERY_SIZE q) = Ret q"
    using assms(1) by (simp add: good_query_def cstr_cbuf)
  moreover have "get_string fill (cbuf QUERY_SIZE q) (length q) (mutex st) = Ret ((spec_name q, spec_id q), False)"
    using assms(1,2) by (simp add: good_query_def get_string_eq)
  ultimately show ?thesis
    using assms(2-4) int_to_string_eq [OF assms(5-7)] int_to_string_overflow [of u]
    by (simp add: send_vector_def sign_out_def sign_in_def get_time_def find_id_def buynode_def head_node_def Let_def
        clock.put_break sign_again_def show_table_def leaving_def get_total_string_eq report_def)
qed

lemma send_vector_overflow:
  assumes "good_query q" "\<not> mutex st" "find_pos (users st) (head_node q) = Some i"
    "calculat_work_time (leaving tz now (users st ! i)) = Fail e"
  shows "send_vector tz fill now (cbuf QUERY_SIZE q) st = Fail e"
proof -
  have "cstr (cbuf QUERY_SIZE q) = Ret q"
    using assms(1) by (simp add: good_query_def cstr_cbuf)
  moreover have "get_string fill (cbuf QUERY_SIZE q) (length q) (mutex st) = Ret ((spec_name q, spec_id q), False)"
    using assms(1,2) by (simp add: good_query_def get_string_eq)
  ultimately show ?thesis
    using assms(2-4)
    by (simp add: send_vector_def sign_out_def sign_in_def get_time_def find_id_def buynode_def head_node_def Let_def
        clock.put_break leaving_def)
qed

section \<open>The invariant\<close>

text \<open>\<open>clk\<close> bounds the arrival times: nobody arrived later than the present.\<close>

definition good_node :: "int \<Rightarrow> user_node \<Rightarrow> bool" where
  "good_node clk u \<longleftrightarrow> normal u \<and> no_nul (u_name u) \<and> no_nul (u_id u) \<and> 0 \<le> start_time u \<and> start_time u \<le> clk
     \<and> int (u_data u) \<le> INT_MAX"

definition server_inv :: "int \<Rightarrow> server \<Rightarrow> bool" where
  "server_inv clk st \<longleftrightarrow> vsize st = length (users st) \<and> \<not> mutex st \<and> distinct (map person (users st))
     \<and> (\<forall>u\<in>set (users st). good_node clk u)"

lemma server_inv_new: "server_inv clk (new_server 0)"
  by (simp add: server_inv_def new_server_def)

lemma server_inv_mono: "server_inv clk st \<Longrightarrow> clk \<le> clk' \<Longrightarrow> server_inv clk' st"
  by (auto simp: server_inv_def good_node_def)

lemma strftime_not_Nil [simp]: "strftime T \<noteq> []"
  by (simp add: strftime_def)

lemma first_sign_inv:
  assumes "server_inv clk st" "good_query q" "find_pos (users st) (head_node q) = None" "clk \<le> int now"
  shows "server_inv (int now) (first_sign tz now q st)"
proof -
  let ?u = "(head_node q)\<lparr>start_time := int now, arrive_time := strftime (localtime tz now)\<rparr>"
  have "good_node (int now) ?u"
    using assms(2) by (simp add: good_node_def head_node_def new_user_node_def normal_def hm_ok_def
        good_query_def no_nul_spec_fields INT_MAX_def)
  moreover have "person ?u = person (head_node q)" by (simp add: person_def)
  ultimately show ?thesis
    using server_inv_mono [OF assms(1,4)] assms(3)
    by (auto simp: server_inv_def first_sign_def show_table_def find_pos_None)
qed

lemma leaving_simps [simp]:
  "u_sec (leaving tz now u) = u_sec u" "start_time (leaving tz now u) = start_time u"
  "end_time (leaving tz now u) = int now" "worked (leaving tz now u) = worked u"
  "hm_ok (leaving tz now u) = hm_ok u" "person (leaving tz now u) = person u"
  "u_name (leaving tz now u) = u_name u" "u_id (leaving tz now u) = u_id u"
  by (simp_all add: leaving_def worked_def hm_ok_def person_def)

text \<open>The node after signing out, when the arithmetic does not overflow.\<close>

lemma signed_out_node:
  assumes "good_node clk v" "clk \<le> int now" "calculat_work_time (leaving tz now v) = Ret u" "int (u_data u) \<le> INT_MAX"
  shows "good_node (int now) u" and "person u = person v"
    and "sheet_of u = (sheet_of v)\<lparr>left := Some (int now), seconds := seconds (sheet_of v) + (int now - came (sheet_of v))\<rparr>"
proof -
  have hm: "hm_ok (leaving tz now v)" using assms(1) by (simp add: good_node_def normal_def)
  note c = calculat_work_time_Ret [OF assms(3) hm]
  have nn: "0 \<le> u_sec v + (int now - start_time v)"
    using assms(1,2) by (simp add: good_node_def normal_def)
  show "good_node (int now) u"
    using c(4) nn c(5-9) assms by (simp add: good_node_def)
  show "person u = person v" using c(5,6) by (simp add: person_def)
  show "sheet_of u = (sheet_of v)\<lparr>left := Some (int now), seconds := seconds (sheet_of v) + (int now - came (sheet_of v))\<rparr>"
    using c(1,8,9,10) by (simp add: sheet_of_def) (simp add: leaving_def)
qed

lemma sign_again_inv:
  assumes "server_inv clk st" "find_pos (users st) (head_node q) = Some i" "clk \<le> int now"
    "good_node (int now) u" "person u = person (users st ! i)"
  shows "server_inv (int now) (sign_again tz now i u st)"
proof -
  have i: "i < length (users st)" using find_pos_Some [OF assms(2)] by simp
  have "map person ((users st)[i := u]) = map person (users st)"
    using i assms(5) by (simp add: map_update)
      (metis length_map list_update_id nth_map)
  moreover have "\<forall>w\<in>set ((users st)[i := u]). good_node (int now) w"
    using server_inv_mono [OF assms(1,3)] assms(4) by (auto simp: server_inv_def dest: set_update_subset_insert [THEN subsetD])
  ultimately show ?thesis
    using assms(1) by (simp add: server_inv_def sign_again_def show_table_def)
qed

text \<open>The two ways in which a sign-in returns.\<close>

lemma send_vector_RetE:
  assumes inv: "server_inv clk st" and q: "good_query q" and clk: "clk \<le> int now"
    and ret: "send_vector tz fill now (cbuf QUERY_SIZE q) st = Ret (r, st')"
  obtains (first) "find_pos (users st) (head_node q) = None" "r = None" "st' = first_sign tz now q st"
    | (again) i u where "find_pos (users st) (head_node q) = Some i" "i < length (users st)"
        "good_node clk (users st ! i)" "calculat_work_time (leaving tz now (users st ! i)) = Ret u"
        "int (u_data u) \<le> INT_MAX" "r = Some (report u)" "st' = sign_again tz now i u st"
proof (cases "find_pos (users st) (head_node q)")
  case None
  with inv ret send_vector_first [OF q _ None] first show thesis by (simp add: server_inv_def)
next
  case (Some i)
  let ?v = "users st ! i"
  have mtx: "\<not> mutex st" using inv by (simp add: server_inv_def)
  have i: "i < length (users st)" using find_pos_Some [OF Some] by simp
  with inv have gv: "good_node clk ?v" by (simp add: server_inv_def)
  obtain u where calc: "calculat_work_time (leaving tz now ?v) = Ret u"
    using ret send_vector_overflow [OF q mtx Some, of tz now _ fill]
    by (cases rule: calculat_work_time_cases [of "leaving tz now ?v"]) auto
  have hm: "hm_ok (leaving tz now ?v)" using gv by (simp add: good_node_def normal_def)
  have "normal u" using calculat_work_time_Ret(4) [OF calc hm] gv clk by (simp add: good_node_def normal_def)
  then have "send_vector tz fill now (cbuf QUERY_SIZE q) st =
      (if int (u_data u) \<le> INT_MAX then Ret (Some (report u), sign_again tz now i u st) else Fail IntOverflow)"
    using send_vector_again [OF q mtx Some calc] by (simp add: normal_def INT_MIN_def)
  with ret again [OF Some i gv calc] show thesis by (auto split: if_splits)
qed

lemma register_of_head:
  "good_query q \<Longrightarrow> find_pos (users st) (head_node q) = None \<longleftrightarrow> register_of (users st) (query_person q) = None"
  using register_of_missing [of "users st" "head_node q"] person_head_node by (simp add: good_query_def)

text \<open>\<open>send_vector\<close> simulates the abstract sign-in and keeps the invariant whenever it returns.\<close>

lemma send_vector_simulates:
  assumes inv: "server_inv clk st" and q: "good_query q" and clk: "clk \<le> int now"
    and ret: "send_vector tz fill now (cbuf QUERY_SIZE q) st = Ret (r, st')"
  shows "server_inv (int now) st' \<and> register_of (users st') = sign (int now) (query_person q) (register_of (users st))"
  using assms
proof (cases rule: send_vector_RetE)
  case first
  let ?u = "(head_node q)\<lparr>start_time := int now, arrive_time := strftime (localtime tz now)\<rparr>"
  have p: "person ?u = query_person q"
    using person_head_node [of q] q by (simp add: good_query_def person_def)
  then have none: "register_of (users st) (person ?u) = None" using register_of_head [OF q, of st] first(1) by simp
  have "sheet_of ?u = \<lparr>came = int now, left = None, seconds = 0\<rparr>"
    by (simp add: sheet_of_def head_node_def new_user_node_def worked_def)
  then have "register_of (users st @ [?u]) = sign (int now) (query_person q) (register_of (users st))"
    using register_of_snoc [OF none] none p by (simp add: sign_def)
  then show ?thesis
    using first first_sign_inv [OF inv q first(1) clk] by (simp add: first_sign_def show_table_def)
next
  case (again i u)
  have p: "person (head_node q) = query_person q" using person_head_node q by (simp add: good_query_def)
  note s = signed_out_node [OF again(3) clk again(4,5)]
  have pv: "person (users st ! i) = query_person q" using find_pos_Some [OF again(1)] p by simp
  have "register_of (users st) (query_person q) = Some (sheet_of (users st ! i))"
    using register_of_found [OF again(1)] p by simp
  then have "register_of ((users st)[i := u]) = sign (int now) (query_person q) (register_of (users st))"
    using register_of_update [OF again(1), of u] s(2,3) pv p by (simp add: sign_def)
  then show ?thesis
    using again(7) sign_again_inv [OF inv again(1) clk s(1,2)] by (simp add: sign_again_def show_table_def)
qed

section \<open>The lock discipline\<close>

text \<open>\<open>lock_safe\<close>: started with the mutex free, the operation comes back, and leaves it free.\<close>

definition lock_safe :: "('a \<Rightarrow> bool) \<Rightarrow> 'a res \<Rightarrow> bool" where
  "lock_safe held m \<longleftrightarrow> no_hang m \<and> (\<forall>x. m = Ret x \<longrightarrow> \<not> held x)"

named_theorems lock_intros \<open>operations that respect the mutex\<close>

lemma lock_safe_basic [lock_intros]: "\<not> held x \<Longrightarrow> lock_safe held (Ret x)" "lock_safe held (Fail e)"
  by (simp_all add: lock_safe_def)

lemma lock_safe_bind:
  assumes "lock_safe h m" "\<And>x. \<not> h x \<Longrightarrow> lock_safe held (f x)"
  shows "lock_safe held (bindR m f)"
  using assms unfolding lock_safe_def no_hang_def bindR_eq_Hang bindR_eq_Ret by blast

lemma lock_safe_pure:
  assumes "no_hang m" "\<And>x. lock_safe held (f x)"
  shows "lock_safe held (bindR m f)"
  using assms unfolding lock_safe_def no_hang_def bindR_eq_Hang bindR_eq_Ret by blast

lemma lock_safe_cycle:
  "lock_safe held (f False) \<Longrightarrow>
   lock_safe held (bindR (pthread_mutex_lock False) (\<lambda>m1. bindR (pthread_mutex_unlock m1) f))"
  by simp

lemma get_string_lock_safe: "lock_safe snd (get_string fill query n False)"
  unfolding get_string_def mutex_simps bindR_Ret
  by (auto intro!: lock_safe_pure lock_intros split: prod.splits)

lemma get_time_lock_safe: "\<not> mutex st \<Longrightarrow> lock_safe (\<lambda>r. mutex (snd r)) (get_time tz now st)"
  by (simp add: get_time_def Let_def lock_intros)

lemma find_id_lock_safe: "\<not> mutex st \<Longrightarrow> lock_safe (\<lambda>r. mutex (snd r)) (find_id head st)"
  by (auto simp: find_id_def intro: lock_intros split: option.split)

lemma append_int_lock_safe: "\<not> snd r \<Longrightarrow> lock_safe snd (append_int k flag r)"
  by (cases r) (auto simp: append_int_def int_to_str_def intro!: lock_safe_pure lock_intros)

lemma int_to_string_lock_safe: "lock_safe snd (int_to_string u False)"
proof -
  let ?f = "append_int (u_sec u) []"
  let ?g = "\<lambda>r. bindR (append_int (u_min u) '':'' r) ?f"
  let ?h = "\<lambda>r. bindR (append_int (u_hour u) '':'' r) ?g"
  have f: "lock_safe snd (?f r)" if "\<not> snd r" for r
    using that by (rule append_int_lock_safe)
  have g: "lock_safe snd (?g r)" if "\<not> snd r" for r
    by (rule lock_safe_bind [OF append_int_lock_safe [OF that]]) (rule f)
  have h: "lock_safe snd (?h r)" if "\<not> snd r" for r
    by (rule lock_safe_bind [OF append_int_lock_safe [OF that]]) (rule g)
  have "lock_safe snd (bindR (append_int d '':'' ([], False)) ?h)" for d
    by (rule lock_safe_bind [OF append_int_lock_safe]) (simp, rule h)
  then show ?thesis
    unfolding int_to_string_def by (rule lock_safe_pure [OF no_hang_to_int32])
qed

lemma no_hang_calculat [simp, hang_intros]: "no_hang (calculat_work_time u)"
  unfolding calculat_work_time_def by (intro hang_intros)

lemma mutex_show_table [simp]: "mutex (show_table st) = mutex st"
  by (simp add: show_table_def)

lemma sign_out_lock_safe: "\<not> mutex st \<Longrightarrow> lock_safe (\<lambda>r. mutex (snd r)) (sign_out tz i lt st)"
  unfolding sign_out_def
  by (intro lock_safe_pure [OF no_hang_calculat])
    (auto simp: get_total_string_eq intro!: lock_safe_bind [OF int_to_string_lock_safe] lock_intros
      split: prod.splits)

lemma sign_in_lock_safe: "\<not> mutex st \<Longrightarrow> lock_safe (\<lambda>r. mutex (snd r)) (sign_in tz tmp lt st)"
  by (simp add: sign_in_def Let_def lock_intros)

lemma send_vector_lock_safe:
  assumes "\<not> mutex st"
  shows "lock_safe (\<lambda>r. mutex (snd r)) (send_vector tz fill now query st)"
proof -
  have query: "lock_safe snd (get_string fill query n (mutex st))" for n
    using assms get_string_lock_safe by simp
  have after_find: "lock_safe (\<lambda>r. mutex (snd r)) (bindR (find_id tmp st2) (\<lambda>(prev, st3).
      case prev of Some i \<Rightarrow> sign_out tz i lt st3 | None \<Rightarrow> sign_in tz tmp lt st3))"
    if "\<not> mutex st2" for tmp st2 lt
    using that
    by (intro lock_safe_bind [OF find_id_lock_safe])
      (auto intro: sign_out_lock_safe sign_in_lock_safe split: prod.splits option.splits)
  have after_time: "lock_safe (\<lambda>r. mutex (snd r)) (bindR (get_time tz now st1) (\<lambda>(lt, st1).
      let tmp = buynode name idn [] [] 0; st2 = st1\<lparr>live_nodes := Suc (live_nodes st1)\<rparr> in
      bindR (find_id tmp st2) (\<lambda>(prev, st3).
      case prev of Some i \<Rightarrow> sign_out tz i lt st3 | None \<Rightarrow> sign_in tz tmp lt st3)))"
    if "\<not> mutex st1" for name idn st1
    using that
    by (intro lock_safe_bind [OF get_time_lock_safe]) (auto simp: Let_def intro!: after_find split: prod.splits)
  show ?thesis
    unfolding send_vector_def
    by (intro lock_safe_pure [OF no_hang_string(1)] lock_safe_bind [OF query])
      (auto simp: Let_def intro!: after_time [unfolded Let_def] split: prod.splits)
qed

section \<open>Histories\<close>

text \<open>A history is a list of sign-ins, each with the clock reading at which it happens.\<close>

fun run_history :: "(nat \<Rightarrow> string \<Rightarrow> 's \<Rightarrow> 's res) \<Rightarrow> (nat \<times> string) list \<Rightarrow> 's \<Rightarrow> 's res" where
  "run_history step [] st = Ret st"
| "run_history step ((now, q) # h) st = bindR (step now q st) (run_history step h)"

fun sign_history :: "(nat \<times> string) list \<Rightarrow> register \<Rightarrow> register" where
  "sign_history [] R = R"
| "sign_history ((now, q) # h) R = sign_history h (sign (int now) (query_person q) R)"

fun good_history :: "int \<Rightarrow> (nat \<times> string) list \<Rightarrow> bool" where
  "good_history clk [] \<longleftrightarrow> True"
| "good_history clk ((now, q) # h) \<longleftrightarrow> clk \<le> int now \<and> good_query q \<and> good_history (int now) h"

definition end_of :: "int \<Rightarrow> (nat \<times> string) list \<Rightarrow> int" where
  "end_of clk h = (if h = [] then clk else int (fst (last h)))"

definition times_of :: "string \<times> string \<Rightarrow> (nat \<times> string) list \<Rightarrow> nat list" where
  "times_of k h = map fst (filter (\<lambda>(t, q). query_person q = k) h)"

lemma sign_other: "k \<noteq> p \<Longrightarrow> sign now p R k = R k"
  by (simp add: sign_def split: option.split)

lemma sign_history_known:
  "R k = Some s \<Longrightarrow> sign_history h R k =
    Some (s\<lparr>left := (if times_of k h = [] then left s else Some (int (last (times_of k h)))),
            seconds := seconds s + (\<Sum>t\<leftarrow>times_of k h. int t - came s)\<rparr>)"
proof (induction h arbitrary: R s)
  case Nil
  then show ?case by (simp add: times_of_def)
next
  case (Cons e h)
  obtain now q where e: "e = (now, q)" by (cases e)
  show ?case
  proof (cases "query_person q = k")
    case True
    with Cons.prems have "sign (int now) k R k = Some (s\<lparr>left := Some (int now), seconds := seconds s + (int now - came s)\<rparr>)"
      by (simp add: sign_def)
    from Cons.IH [where R = "sign (int now) k R", OF this] True e show ?thesis by (auto simp: times_of_def)
  next
    case False
    with Cons.prems have "sign (int now) (query_person q) R k = Some s" by (simp add: sign_other)
    from Cons.IH [where R = "sign (int now) (query_person q) R", OF this] False e show ?thesis by (simp add: times_of_def)
  qed
qed

lemma sign_history_unknown:
  assumes "R k = None"
  shows "sign_history h R k = (case times_of k h of [] \<Rightarrow> None
    | t0 # ts \<Rightarrow> Some \<lparr>came = int t0, left = (if ts = [] then None else Some (int (last ts))),
                         seconds = (\<Sum>t\<leftarrow>ts. int t - int t0)\<rparr>)"
  using assms
proof (induction h arbitrary: R)
  case Nil
  then show ?case by (simp add: times_of_def)
next
  case (Cons e h)
  obtain now q where e: "e = (now, q)" by (cases e)
  show ?case
  proof (cases "query_person q = k")
    case True
    with Cons.prems have "sign (int now) k R k = Some \<lparr>came = int now, left = None, seconds = 0\<rparr>"
      by (simp add: sign_def)
    from sign_history_known [where R = "sign (int now) k R" and k = k, OF this] True e show ?thesis
      by (simp add: times_of_def)
  next
    case False
    with Cons.prems have "sign (int now) (query_person q) R k = None" by (simp add: sign_other)
    from Cons.IH [where R = "sign (int now) (query_person q) R", OF this] False e show ?thesis by (simp add: times_of_def)
  qed
qed

text \<open>The contract of the register: one sign-in of the code simulates one abstract sign-in.\<close>

locale attendance_register =
  fixes step :: "nat \<Rightarrow> string \<Rightarrow> 's \<Rightarrow> 's res" and abst :: "'s \<Rightarrow> register" and inv :: "int \<Rightarrow> 's \<Rightarrow> bool"
  assumes simulates: "\<lbrakk>inv clk st; good_query q; clk \<le> int now; step now q st = Ret st'\<rbrakk> \<Longrightarrow>
      inv (int now) st' \<and> abst st' = sign (int now) (query_person q) (abst st)"
begin

lemma history_simulates:
  "\<lbrakk>inv clk st; good_history clk h; run_history step h st = Ret st'\<rbrakk> \<Longrightarrow>
   inv (end_of clk h) st' \<and> abst st' = sign_history h (abst st)"
proof (induction h arbitrary: clk st)
  case Nil
  then show ?case by (simp add: end_of_def)
next
  case (Cons e h)
  obtain now q where e: "e = (now, q)" by (cases e)
  with Cons.prems obtain st1 where st1: "step now q st = Ret st1" "run_history step h st1 = Ret st'" by auto
  with simulates [OF Cons.prems(1) _ _ st1(1)] e Cons.prems(2)
  have "inv (int now) st1" "abst st1 = sign (int now) (query_person q) (abst st)" by auto
  with Cons.IH [OF this(1) _ st1(2)] e Cons.prems(2) show ?case
    by (cases h) (auto simp: end_of_def)
qed

text \<open>What the sheet of a person says after a history that starts without him.\<close>

lemma history_sheet:
  assumes "inv clk st" "good_history clk h" "run_history step h st = Ret st'" "abst st k = None"
  shows "abst st' k = (case times_of k h of [] \<Rightarrow> None
    | t0 # ts \<Rightarrow> Some \<lparr>came = int t0, left = (if ts = [] then None else Some (int (last ts))),
                         seconds = (\<Sum>t\<leftarrow>ts. int t - int t0)\<rparr>)"
  using history_simulates [OF assms(1-3)] sign_history_unknown [of "abst st" k h, OF assms(4)] by simp

end

definition sign_step :: "nat \<Rightarrow> char \<Rightarrow> nat \<Rightarrow> string \<Rightarrow> server \<Rightarrow> server res" where
  "sign_step tz fill now q st = bindR (send_vector tz fill now (cbuf QUERY_SIZE q) st) (\<lambda>(r, st'). Ret st')"

lemma sign_step_simulates:
  assumes "server_inv clk st" "good_query q" "clk \<le> int now" "sign_step tz fill now q st = Ret st'"
  shows "server_inv (int now) st' \<and> register_of (users st') = sign (int now) (query_person q) (register_of (users st))"
  using assms(4) send_vector_simulates [OF assms(1-3)] by (auto simp: sign_step_def split: prod.splits)

interpretation vector_register: attendance_register "sign_step tz fill" "\<lambda>st. register_of (users st)" server_inv
  by unfold_locales (rule sign_step_simulates)

section \<open>Sign-ins come back\<close>

lemma clock_diff_bound: "normal u \<Longrightarrow> normal w \<Longrightarrow> worked w = worked u + d \<Longrightarrow>
   0 \<le> d \<Longrightarrow> d \<le> INT_MAX \<Longrightarrow> int (u_data w) \<le> int (u_data u) + 74566"
  by (simp add: worked_def normal_def hm_ok_def INT_MAX_def)

text \<open>Room for \<open>n\<close> more sign-ins in the day counters: one adds less than 74566 days.\<close>

definition data_room :: "nat \<Rightarrow> server \<Rightarrow> bool" where
  "data_room n st \<longleftrightarrow> (\<forall>u\<in>set (users st). int (u_data u) + int n * 74566 \<le> INT_MAX)"

lemma signed_out_returns:
  assumes "good_node clk v" "clk \<le> int now" "int now \<le> INT_MAX - 60"
  obtains u where "calculat_work_time (leaving tz now v) = Ret u" "normal u"
    "int (u_data u) \<le> int (u_data v) + 74566"
proof -
  let ?l = "leaving tz now v"
  from assms have nv: "normal v" and d: "0 \<le> int now - start_time v" "int now - start_time v \<le> INT_MAX - 60"
    by (simp_all add: good_node_def)
  obtain u where calc: "calculat_work_time ?l = Ret u"
    using calculat_work_time_ok [of ?l] nv d by (auto simp: normal_def)
  have hm: "hm_ok ?l" using nv by (simp add: normal_def)
  note c = calculat_work_time_Ret [OF calc hm]
  have nu: "normal u" using c(4) nv d by (simp add: normal_def)
  moreover have "int (u_data u) \<le> int (u_data v) + 74566"
    using clock_diff_bound [OF nv nu, of "int now - start_time v"] c(1) d by simp
  ultimately show thesis using calc that by blast
qed

lemma send_vector_progress:
  assumes inv: "server_inv clk st" and q: "good_query q" and clk: "clk \<le> int now"
    and now: "int now \<le> INT_MAX - 60" and room: "data_room (Suc n) st" and n: "int n * 74566 \<le> INT_MAX"
  shows "\<exists>r st'. send_vector tz fill now (cbuf QUERY_SIZE q) st = Ret (r, st') \<and> data_room n st'"
proof (cases "find_pos (users st) (head_node q)")
  case None
  have "data_room n (first_sign tz now q st)"
    using room n by (auto simp: data_room_def first_sign_def show_table_def head_node_def new_user_node_def)
  with inv send_vector_first [OF q _ None] show ?thesis by (simp add: server_inv_def)
next
  case (Some i)
  have i: "users st ! i \<in> set (users st)" using find_pos_Some [OF Some] by simp
  then have gv: "good_node clk (users st ! i)" using inv by (simp add: server_inv_def)
  obtain u where u: "calculat_work_time (leaving tz now (users st ! i)) = Ret u" "normal u"
      "int (u_data u) \<le> int (u_data (users st ! i)) + 74566"
    using signed_out_returns [OF gv clk now] .
  have du: "int (u_data u) + int n * 74566 \<le> INT_MAX"
    using u(3) room i by (fastforce simp: data_room_def algebra_simps)
  then have "int (u_data u) \<le> INT_MAX" by linarith
  moreover have "data_room n (sign_again tz now i u st)"
    using du room
    by (fastforce simp: data_room_def sign_again_def show_table_def dest: set_update_subset_insert [THEN subsetD])
  ultimately show ?thesis
    using send_vector_again [OF q _ Some u(1)] u(2) inv
    by (simp add: normal_def hm_ok_def INT_MIN_def server_inv_def)
qed

lemma history_progress:
  assumes "server_inv clk st" "good_history clk h" "\<forall>e\<in>set h. int (fst e) \<le> INT_MAX - 60"
    "data_room (length h) st" "int (length h) * 74566 \<le> INT_MAX"
  shows "\<exists>st'. run_history (sign_step tz fill) h st = Ret st'"
  using assms
proof (induction h arbitrary: clk st)
  case (Cons e h)
  obtain now q where e: "e = (now, q)" by (cases e)
  with Cons.prems have "\<exists>r st'. send_vector tz fill now (cbuf QUERY_SIZE q) st = Ret (r, st') \<and> data_room (length h) st'"
    by (intro send_vector_progress) auto
  then obtain r st' where st': "send_vector tz fill now (cbuf QUERY_SIZE q) st = Ret (r, st')" "data_room (length h) st'"
    by blast
  with Cons.prems e have "server_inv (int now) st'" using send_vector_simulates [of clk st q now tz fill r st'] by simp
  with Cons.IH [of "int now" st'] Cons.prems st' e show ?case by (simp add: sign_step_def)
qed simp

lemma data_room_new: "data_room n (new_server sz)"
  by (simp add: data_room_def new_server_def)

section \<open>Properties\<close>

text \<open>C3. Signing in, as the code does it, implements the abstract register: whenever \<open>send_vector\<close>
  returns, the register the vector stands for is the old one with one abstract sign-in of the person
  named in the query, and nobody else's sheet has changed.\<close>
theorem send_vector_refines_sign:
  assumes "server_inv clk st" "good_query q" "clk \<le> int now"
    and "send_vector tz fill now (cbuf QUERY_SIZE q) st = Ret (r, st')"
  shows "register_of (users st') = sign (int now) (query_person q) (register_of (users st))"
  using send_vector_simulates [OF assms] by simp

lemma demo_query: "good_query ''a=li&b=7''" "query_person ''a=li&b=7'' = (''li'', ''7'')"
  by (simp_all add: good_query_def size_defs query_person_def spec_name_def spec_id_def after_eq_def)

lemma demo_first_sign:
  "send_vector 0 CHR ''x'' 100 (cbuf QUERY_SIZE ''a=li&b=7'') (new_server 0)
     = Ret (None, first_sign 0 100 ''a=li&b=7'' (new_server 0))"
  by (rule send_vector_first) (simp_all add: demo_query new_server_def)

theorem send_vector_refines_sign_witness:
  "register_of (users (first_sign 0 100 ''a=li&b=7'' (new_server 0))) =
     sign 100 (''li'', ''7'') (register_of (users (new_server 0)))"
  using send_vector_refines_sign [OF server_inv_new demo_query(1) _ demo_first_sign, of 100] demo_query(2)
  by simp

text \<open>C4. The invariant of the server survives every sign-in that returns, provided the clock does not run
  backwards: \<open>size\<close> is the length of the vector, no person occurs twice, the mutex is free, and every
  node has seconds and minutes below 60, hours below 8 and no NUL in its strings.\<close>
theorem server_inv_preserved:
  assumes "server_inv clk st" "good_query q" "clk \<le> int now"
    and "send_vector tz fill now (cbuf QUERY_SIZE q) st = Ret (r, st')"
  shows "server_inv (int now) st'"
  using send_vector_simulates [OF assms] by simp

theorem server_inv_preserved_witness: "server_inv 100 (first_sign 0 100 ''a=li&b=7'' (new_server 0))"
  using server_inv_preserved [OF server_inv_new demo_query(1) _ demo_first_sign, of 100] by simp

text \<open>C12. Sign-ins come back: from the empty server, any history of well-formed sign-ins in the order of
  the clock returns, as long as the clock is below 2^31 - 60 seconds and there are no more than 28799
  of them (beyond, the day counter could leave \<open>int\<close>).\<close>
theorem history_returns:
  assumes "good_history 0 h" "\<forall>e\<in>set h. int (fst e) \<le> INT_MAX - 60" "length h \<le> 28799"
  shows "\<exists>st'. run_history (sign_step tz fill) h (new_server 0) = Ret st'"
proof (rule history_progress [OF server_inv_new assms(1,2) data_room_new])
  have "int (length h) \<le> 28799" using assms(3) by simp
  then show "int (length h) * 74566 \<le> INT_MAX" by (simp add: INT_MAX_def)
qed

definition demo_history :: "(nat \<times> string) list" where
  "demo_history = [(100, ''a=li&b=7''), (160, ''a=li&b=7''), (200, ''a=li&b=7'')]"

lemma demo_history_good:
  "good_history 0 demo_history" "\<forall>e\<in>set demo_history. int (fst e) \<le> INT_MAX - 60" "length demo_history = 3"
  "times_of (''li'', ''7'') demo_history = [100, 160, 200]"
  by (simp_all add: demo_history_def demo_query INT_MAX_def times_of_def)

theorem history_returns_witness:
  "\<exists>st'. run_history (sign_step 0 CHR ''x'') demo_history (new_server 0) = Ret st'"
  by (rule history_returns) (simp_all add: demo_history_good)

text \<open>C11. Over any history of sign-ins of any number of people that returns, the sheet of a person who was
  not there before shows the first sign-in as arrival and the last one as leaving, but its working time
  is the sum, over all later sign-ins, of the time since the arrival: an interval is counted again at
  every sign-in after it, since the start time is never moved.\<close>
theorem history_accumulates:
  assumes "server_inv clk st" "good_history clk h" "run_history (sign_step tz fill) h st = Ret st'"
    and "register_of (users st) k = None"
  shows "register_of (users st') k = (case times_of k h of [] \<Rightarrow> None
    | t0 # ts \<Rightarrow> Some \<lparr>came = int t0, left = (if ts = [] then None else Some (int (last ts))),
                         seconds = (\<Sum>t\<leftarrow>ts. int t - int t0)\<rparr>)"
  using assms by (rule vector_register.history_sheet)

theorem history_accumulates_witness:
  "\<exists>st'. run_history (sign_step 0 CHR ''x'') demo_history (new_server 0) = Ret st'
     \<and> register_of (users st') (''li'', ''7'') = Some \<lparr>came = 100, left = Some 200, seconds = 160\<rparr>"
proof -
  obtain st' where st': "run_history (sign_step 0 CHR ''x'') demo_history (new_server 0) = Ret st'"
    using history_progress [OF server_inv_new [of 0] demo_history_good(1,2) data_room_new]
    by (auto simp: demo_history_good INT_MAX_def)
  have "register_of (users (new_server 0)) (''li'', ''7'') = None"
    by (simp add: register_of_def new_server_def)
  from history_accumulates [OF server_inv_new [of 0] demo_history_good(1) st' this] st' show ?thesis
    by (simp add: demo_history_good)
qed

text \<open>C13. \<open>calculat_work_time\<close> adds the elapsed seconds to the recorded ones and carries into minutes,
  hours and days of eight hours: the four fields are the digits of the total.\<close>
theorem work_time_digits:
  assumes "normal u" "0 \<le> end_time u - start_time u" "end_time u - start_time u \<le> INT_MAX - 60"
  shows "\<exists>w. calculat_work_time u = Ret w \<and> worked w = worked u + (end_time u - start_time u)
    \<and> u_sec w = worked w mod 60 \<and> u_min w = worked w div 60 mod 60
    \<and> u_hour w = worked w div 3600 mod 8 \<and> int (u_data w) = worked w div 28800"
proof -
  from assms have hm: "hm_ok u" and s: "0 \<le> u_sec u" "u_sec u < 60" by (simp_all add: normal_def)
  from calculat_work_time_ok [OF s assms(2,3)] obtain w where w: "calculat_work_time u = Ret w" by blast
  note c = calculat_work_time_Ret [OF w hm]
  have "normal w" using c(4) s assms(2) by simp
  from normal_fields [OF this] w c(1) show ?thesis by blast
qed

theorem work_time_digits_witness:
  "\<exists>w. calculat_work_time ((new_user_node ''li'' ''7'' [] [] 0)\<lparr>end_time := 30000\<rparr>) = Ret w
    \<and> worked w = 30000 \<and> u_hour w = 0 \<and> u_data w = 1 \<and> u_min w = 20"
proof -
  let ?u = "(new_user_node ''li'' ''7'' [] [] 0)\<lparr>end_time := 30000\<rparr>"
  have "normal ?u" "end_time ?u - start_time ?u = 30000" "worked ?u = 0"
    by (simp_all add: new_user_node_def normal_def hm_ok_def worked_def)
  with work_time_digits [of ?u] obtain w where w: "calculat_work_time ?u = Ret w" "worked w = 30000"
    "u_hour w = worked w div 3600 mod 8" "int (u_data w) = worked w div 28800" "u_min w = worked w div 60 mod 60"
    by (auto simp: INT_MAX_def)
  then have "u_hour w = 0 \<and> u_data w = 1 \<and> u_min w = 20" by simp
  with w show ?thesis by blast
qed

text \<open>Signing out never lowers the working time as it is shown: days, hours, minutes and seconds,
  compared in this order, only grow.\<close>
theorem work_time_grows:
  assumes "normal u" "0 \<le> end_time u - start_time u" "calculat_work_time u = Ret w"
  shows "work_of u \<le> work_of w"
proof -
  have hm: "hm_ok u" using assms(1) by (simp add: normal_def)
  note c = calculat_work_time_Ret [OF assms(3) hm]
  have "normal w" using c(4) assms(1,2) by (simp add: normal_def)
  with c(1) assms(1,2) show ?thesis by (simp add: work_of_le)
qed

theorem work_time_grows_witness:
  "\<exists>w. calculat_work_time ((new_user_node ''li'' ''7'' [] [] 0)\<lparr>end_time := 30000\<rparr>) = Ret w
    \<and> work_of ((new_user_node ''li'' ''7'' [] [] 0)\<lparr>end_time := 30000\<rparr>) \<le> work_of w"
proof -
  let ?u = "(new_user_node ''li'' ''7'' [] [] 0)\<lparr>end_time := 30000\<rparr>"
  have "normal ?u" "0 \<le> end_time ?u - start_time ?u" "end_time ?u - start_time ?u \<le> INT_MAX - 60"
    "0 \<le> u_sec ?u" "u_sec ?u < 60"
    by (simp_all add: new_user_node_def normal_def hm_ok_def INT_MAX_def)
  with calculat_work_time_ok [of ?u] work_time_grows [of ?u] show ?thesis by blast
qed

text \<open>The report of the working time, \<open>days:hours:minutes:seconds\<close>, can be read back: \<open>int_to_string\<close>
  never overruns its buffer and the four numbers are recovered by \<open>atoi\<close> between the colons.\<close>
theorem report_roundtrip:
  assumes "normal u" "int (u_data u) \<le> INT_MAX"
  shows "\<exists>s. int_to_string u False = Ret (s, False) \<and>
    read_work s = Ret (int (u_data u), u_hour u, u_min u, u_sec u)"
  using assms int_to_string_eq [of u] read_work_text [of u] by (simp add: normal_def INT_MIN_def)

theorem report_roundtrip_witness:
  "\<exists>s. int_to_string (new_user_node ''li'' ''7'' [] [] 12) False = Ret (s, False) \<and> read_work s = Ret (12, 0, 0, 0)"
  using report_roundtrip [of "new_user_node ''li'' ''7'' [] [] 12"]
  by (simp add: new_user_node_def normal_def hm_ok_def INT_MAX_def)

text \<open>The server never blocks itself on its mutex: whatever the query and the register, a sign-in that
  starts with the mutex free comes back (with a value or a fault), and leaves the mutex free when it
  returns.\<close>
theorem send_vector_no_self_deadlock:
  assumes "\<not> mutex st"
  shows "send_vector tz fill now query st \<noteq> Hang
    \<and> (\<forall>r st'. send_vector tz fill now query st = Ret (r, st') \<longrightarrow> \<not> mutex st')"
  using send_vector_lock_safe [OF assms] by (auto simp: lock_safe_def no_hang_def)

theorem send_vector_no_self_deadlock_witness:
  "\<not> mutex (new_server 0) \<and> send_vector 0 CHR ''x'' 100 (zeros QUERY_SIZE) (new_server 0) \<noteq> Hang"
  using send_vector_no_self_deadlock [of "new_server 0"] by (simp add: new_server_def)

text \<open>Every sign-out leaks the node allocated for the search: the number of live nodes is unchanged by
  a first sign-in and grows by one at every later one.\<close>
theorem sign_out_leaks:
  assumes "server_inv clk st" "good_query q" "clk \<le> int now"
    and "send_vector tz fill now (cbuf QUERY_SIZE q) st = Ret (r, st')"
  shows "live_nodes st' = live_nodes st + (if register_of (users st) (query_person q) = None then 0 else 1)"
  using assms
proof (cases rule: send_vector_RetE)
  case first
  with register_of_head [OF assms(2), of st] show ?thesis by (simp add: first_sign_def show_table_def)
next
  case (again i u)
  with register_of_head [OF assms(2), of st] show ?thesis by (auto simp: sign_again_def show_table_def)
qed

theorem sign_out_leaks_witness:
  "\<exists>r st'. send_vector 0 CHR ''x'' 160 (cbuf QUERY_SIZE ''a=li&b=7'') (first_sign 0 100 ''a=li&b=7'' (new_server 0)) = Ret (r, st')
     \<and> live_nodes st' = 1"
proof -
  let ?st = "first_sign 0 100 ''a=li&b=7'' (new_server 0)"
  have inv: "server_inv 100 ?st"
    using send_vector_simulates [OF server_inv_new demo_query(1) _ demo_first_sign, of 100] by simp
  have "data_room (Suc 0) ?st"
    by (simp add: data_room_def first_sign_def show_table_def new_server_def head_node_def new_user_node_def INT_MAX_def)
  then obtain r st' where ret: "send_vector 0 CHR ''x'' 160 (cbuf QUERY_SIZE ''a=li&b=7'') ?st = Ret (r, st')"
    using send_vector_progress [OF inv demo_query(1), where now = 160 and n = 0 and tz = 0 and fill = "CHR ''x''"]
    by (auto simp: INT_MAX_def)
  have "live_nodes ?st = 0" by (simp add: first_sign_def show_table_def new_server_def)
  moreover have "register_of (users ?st) (query_person ''a=li&b=7'') \<noteq> None"
    using send_vector_simulates [OF server_inv_new demo_query(1) _ demo_first_sign, of 100]
    by (auto simp: register_of_def new_server_def sign_def)
  ultimately have "live_nodes st' = 1"
    using sign_out_leaks [OF inv demo_query(1) _ ret] by simp
  with ret show ?thesis by blast
qed

end
