(* ===== verification/Server_Http.thy ===== *)
theory Server_Http
  imports Cgi Register "HOL-Library.Word"
begin

text \<open>
  The thread server as a whole: \<open>exec_post\<close>, \<open>Accept\<close>, \<open>accept_request\<close>, \<open>get_sock\<close>, \<open>GetSock\<close>
  (\<open>server/server_http.h\<close>) and the loop of \<open>main\<close> (\<open>server/server_http.cpp\<close>).  The state is the
  global object \<open>server_class\<close> with the world of descriptors; here the requests are served one after
  the other (theory \<open>Race\<close> has the interleavings).
\<close>

section \<open>One connection\<close>

text \<open>What the operating system contributes to a request: the time zone and the clock, what fresh heap and
  stack memory holds, and the CGI programs.\<close>

record host =
  h_tz :: nat
  h_fill :: char
  h_junk :: char
  h_cgi :: cgi_env

definition exec_post :: "host \<Rightarrow> nat \<Rightarrow> fd \<Rightarrow> char list \<Rightarrow> char list \<Rightarrow> char list \<Rightarrow> server \<times> world \<Rightarrow> (server \<times> world) res" where
  "exec_post h now client path method query s =
    bindR (cstr method) (\<lambda>m. bindR (cstr path) (\<lambda>p. bindR (cstr query) (\<lambda>q.
    bindR (send_vector (h_tz h) (h_fill h) now query (fst s)) (\<lambda>(total, st).
    bindR (exec_cgi (h_junk h) (h_cgi h) client p m q (snd s)) (\<lambda>w. Ret (st, w))))))"

text \<open>The result has, besides the state, what was sent on the socket until it was closed.  \<open>get_line\<close>
  never returns \<open>-1\<close>, so the condition around the body is always true.\<close>

definition sock_tx :: "fd \<Rightarrow> world \<Rightarrow> string" where
  "sock_tx f w = (case fd_get w f of Some (Socket r t m) \<Rightarrow> t | _ \<Rightarrow> [])"

definition hang_up :: "fd \<Rightarrow> server \<times> world \<Rightarrow> string \<times> server \<times> world" where
  "hang_up sock s = (sock_tx sock (snd s), fst s, close sock (snd s))"

definition Accept :: "host \<Rightarrow> nat \<Rightarrow> fd \<Rightarrow> server \<times> world \<Rightarrow> (string \<times> server \<times> world) res" where
  "Accept h now sock s =
    bindR (http_get_line SIZE (zeros SIZE) (sock_rx sock (snd s))) (\<lambda>(n, buf, r).
    let w1 = set_rx sock r (snd s) in
    if int n \<noteq> -1 then
      bindR (cstr buf) (\<lambda>_.
      bindR (get_path_method_query buf init_request) (\<lambda>rq.
        if rq_cgi rq = 0 then
          bindR (exec_get sock (rq_path rq) w1) (\<lambda>w2. Ret (hang_up sock (fst s, w2)))
        else
          bindR (exec_post h now sock (rq_path rq) (rq_method rq) (rq_query rq) (fst s, w1)) (\<lambda>s2.
            Ret (hang_up sock s2))))
    else Ret (sock_tx sock w1, fst s, w1))"

definition accept_request :: "host \<Rightarrow> nat \<Rightarrow> fd \<Rightarrow> server \<times> world \<Rightarrow> (string \<times> server \<times> world) res" where
  "accept_request h now arg s = Accept h now arg s"

section \<open>The listening socket\<close>

text \<open>\<open>htons\<close> on a little-endian machine.\<close>

definition htons :: "16 word \<Rightarrow> 16 word" where
  "htons p = or (push_bit 8 p) (drop_bit 8 p)"

text \<open>Which of the calls succeed is up to the system.  The \<open>int\<close> is converted to the 16 bits of
  \<open>htons\<close>.  On a failure the socket that was created is not closed.\<close>

record sock_calls =
  socket_ok :: bool
  bind_ok :: bool
  listen_ok :: bool

definition get_sock :: "sock_calls \<Rightarrow> int \<Rightarrow> world \<Rightarrow> fd \<times> world" where
  "get_sock c port w =
    (let sin_port = htons (word_of_int port) in
     if \<not> socket_ok c then (None, w)
     else (case fd_new (Socket [] [] None) w of
       (None, w1) \<Rightarrow> (None, w1)
     | (Some n, w1) \<Rightarrow>
         if \<not> bind_ok c then (None, w1)
         else if \<not> listen_ok c then (None, w1)
         else (Some n, fd_set (Some n) (Some (Listening (unat (htons sin_port)))) w1)))"

definition GetSock :: "sock_calls \<Rightarrow> int \<Rightarrow> world \<Rightarrow> fd \<times> world" where
  "GetSock c port w = get_sock c port w"

section \<open>The main loop\<close>

text \<open>What \<open>accept\<close> sees next: a client with its input, the time it is served, and whether its thread can
  be created; or a failure.\<close>

datatype arrival = Client rx nat bool | AcceptFails

text \<open>The loop over the arrivals; when they are used up the server waits in \<open>accept\<close> (\<open>None\<close>), otherwise
  \<open>main\<close> has returned.  \<open>accept\<close> fails too when no descriptor is free.\<close>

fun main_loop :: "host \<Rightarrow> arrival list \<Rightarrow> server \<times> world \<Rightarrow> (int option \<times> string list \<times> server \<times> world) res" where
  "main_loop h [] s = Ret (None, [], s)"
| "main_loop h (AcceptFails # as) s = Ret (Some (-1), [], s)"
| "main_loop h (Client r now thread_ok # as) s =
    (case fd_new (Socket r [] None) (snd s) of
       (None, w) \<Rightarrow> Ret (Some (-1), [], s)
     | (Some n, w) \<Rightarrow>
         if \<not> thread_ok then Ret (Some (-1), [], fst s, w)
         else bindR (accept_request h now (Some n) (fst s, w)) (\<lambda>(answer, s1).
              bindR (main_loop h as s1) (\<lambda>(ret, answers, s2). Ret (ret, answer # answers, s2))))"

definition server_main :: "sock_calls \<Rightarrow> host \<Rightarrow> string list \<Rightarrow> arrival list \<Rightarrow> server \<times> world \<Rightarrow>
    (int option \<times> string list \<times> server \<times> world) res" where
  "server_main c h argv as s =
    (if length argv < 2 then Ret (Some (-1), [], s)
     else bindR (atoi (argv ! 1)) (\<lambda>port.
       case GetSock c port (snd s) of
         (None, w) \<Rightarrow> Ret (Some (-1), [], fst s, w)
       | (Some n, w) \<Rightarrow> main_loop h as (fst s, w)))"

section \<open>Requests on the wire\<close>

definition http_request :: "string \<Rightarrow> string \<Rightarrow> string \<Rightarrow> string list \<Rightarrow> rx" where
  "http_request m u t hs = crlf_line (request_line m u t) @ header_block hs"

definition wire_ok :: "string \<Rightarrow> string \<Rightarrow> string \<Rightarrow> string list \<Rightarrow> bool" where
  "wire_ok m u t hs \<longleftrightarrow> line_fits m u (t @ [LF]) \<and> (\<forall>c\<in>set (request_line m u t). \<not> terminator c) \<and>
     (\<forall>h\<in>set hs. good_header SIZE h)"

lemma put_line: "length l + 1 < n \<Longrightarrow> put (zeros n) 0 (l @ [LF, NUL]) = cbuf n (l @ [LF])"
  by (simp add: put_0 cbuf_split)

lemma request_line_LF: "request_line m u (t @ [LF]) = request_line m u t @ [LF]"
  by (simp add: request_line_def)

text \<open>The first line of the input \<open>r\<close> is read as \<open>l\<close>, and \<open>r1\<close> is left.\<close>

definition line_read :: "rx \<Rightarrow> string \<Rightarrow> rx \<Rightarrow> bool" where
  "line_read r l r1 \<longleftrightarrow> (\<exists>n. http_get_line SIZE (zeros SIZE) r = Ret (n, cbuf SIZE l, r1))"

lemma Accept_line:
  assumes "line_read r (request_line m u t) r1" "line_fits m u t" "fd_get w sock = Some (Socket r tx room)"
  shows "Accept h now sock (st, w) =
    (let w1 = set_rx sock r1 w; rq = parsed m u t in
     if rq_cgi rq = 0 then bindR (exec_get sock (rq_path rq) w1) (\<lambda>w2. Ret (hang_up sock (st, w2)))
     else bindR (exec_post h now sock (rq_path rq) (rq_method rq) (rq_query rq) (st, w1)) (\<lambda>s2. Ret (hang_up sock s2)))"
proof -
  let ?l = "request_line m u t"
  obtain n where "http_get_line SIZE (zeros SIZE) (sock_rx sock w) = Ret (n, cbuf SIZE ?l, r1)"
    using assms(1,3) by (auto simp: line_read_def sock_rx_def)
  moreover have "cstr (cbuf SIZE ?l) = Ret ?l"
    using assms(2) by (intro cstr_cbuf) (simp_all add: line_fits_def request_line_def token_no_nul)
  ultimately show ?thesis using parse_line_eq [OF assms(2)] by (simp add: Accept_def Let_def)
qed

lemma wire_fits: "wire_ok m u t hs \<Longrightarrow> line_fits m u (t @ [LF])"
  by (simp add: wire_ok_def)

lemma request_read:
  assumes "wire_ok m u t hs"
  shows "line_read (http_request m u t hs @ rest) (request_line m u (t @ [LF])) (header_block hs @ rest)"
proof -
  let ?l = "request_line m u t"
  have plain: "\<forall>c\<in>set ?l. \<not> terminator c" using assms by (simp add: wire_ok_def)
  have len: "length ?l + 1 < SIZE"
    using wire_fits [OF assms] unfolding line_fits_def request_line_LF by (simp add: SIZE_def)
  show ?thesis
    using get_line_crlf(1) [OF plain len, of "zeros SIZE" "header_block hs @ rest"] put_line [OF len]
    by (auto simp: line_read_def http_request_def request_line_LF)
qed

lemma request_skip: "wire_ok m u t hs \<Longrightarrow> http_files.header_skip (header_block hs @ rest) rest"
  by (intro http_files.header_skip_block) (simp add: wire_ok_def)

lemmas Accept_request = Accept_line [OF request_read wire_fits]

text \<open>A GET without a question mark.\<close>

lemma Accept_file_line:
  assumes "line_read r (request_line ''GET'' u t) r1" "line_fits ''GET'' u t" "CHR ''?'' \<notin> set u"
    "fd_get w sock = Some (Socket r tx room)" "files w (resource_path u) = Some (Regular c)"
  shows "Accept h now sock (st, w) =
    bindR (exec_get_file sock (resource_path u) (length c) (set_rx sock r1 w)) (\<lambda>w2. Ret (hang_up sock (st, w2)))"
proof -
  have "cstr (cbuf PATH_SIZE (resource_path u)) = Ret (resource_path u)"
    using assms(2,3) by (intro cstr_cbuf) (auto simp: line_fits_def spec_resource_def token_no_nul)
  then show ?thesis
    using Accept_line [OF assms(1,2,4)] assms(3,5)
      http_files.get_regular [of "cbuf PATH_SIZE (resource_path u)" "resource_path u"]
    by (simp add: parsed_def spec_cgi_def spec_resource_def Let_def)
qed

lemmas Accept_file = Accept_file_line [OF request_read wire_fits]

section \<open>Files, one request after the other\<close>

lemma accept_socket:
  assumes "0 < free_count w"
  obtains n where "fd_new ob w = (Some n, fd_set (Some n) (Some ob) w)" "n < length (fds w)"
    "fd_get w (Some n) = None" "free_count (fd_set (Some n) (Some ob) w) = free_count w - 1"
  using fd_new_free [OF assms, of ob] by (auto simp: fd_set_def fd_get_def)

definition file_answer :: "nat \<Rightarrow> string \<Rightarrow> string" where
  "file_answer room c = file_response ''Content-Type'' (if 3 \<le> room then c else [])"

lemma serve_one:
  assumes ok: "wire_ok ''GET'' u t hs" "CHR ''?'' \<notin> set u" "files w (resource_path u) = Some (Regular c)"
    and room: "2 \<le> free_count w"
  shows "\<exists>w'. main_loop h (Client (http_request ''GET'' u t hs) now True # as) (st, w) =
      bindR (main_loop h as (st, w')) (\<lambda>(ret, answers, s2). Ret (ret, file_answer (free_count w) c # answers, s2)) \<and>
     files w' = files w \<and> free_count w' = (if 3 \<le> free_count w then free_count w - 1 else free_count w)"
proof -
  let ?r = "http_request ''GET'' u t hs" and ?p = "resource_path u"
  have pos: "0 < free_count w" using room by simp
  obtain n where n: "fd_new (Socket ?r [] None) w = (Some n, fd_set (Some n) (Some (Socket ?r [] None)) w)"
    "n < length (fds w)" "free_count (fd_set (Some n) (Some (Socket ?r [] None)) w) = free_count w - 1"
    using accept_socket [OF pos] by metis
  let ?w1 = "fd_set (Some n) (Some (Socket ?r [] None)) w"
  let ?w2 = "set_rx (Some n) (header_block hs @ []) ?w1"
  have sock1: "fd_get ?w1 (Some n) = Some (Socket (http_request ''GET'' u t hs @ []) [] None)" using n(2) by simp
  have w2: "fd_get ?w2 (Some n) = Some (Socket (header_block hs @ []) [] None)" "files ?w2 ?p = Some (Regular c)"
    "free_count ?w2 = free_count w - 1" "files ?w2 = files w"
    using n(2,3) assms(3) free_count_set_used [OF sock1, of "Socket (header_block hs) [] None"]
    by (simp_all add: set_rx_def)
  have hs: "\<forall>h\<in>set hs. good_header SIZE h" using ok(1) by (simp add: wire_ok_def)
  have "\<exists>w3. exec_get_file (Some n) ?p (length c) ?w2 = Ret w3 \<and> files w3 = files w \<and>
      fd_get w3 (Some n) = Some (Socket [] (file_answer (free_count w) c) None) \<and>
      free_count w3 = (if 3 \<le> free_count w then free_count w - 2 else 1)"
  proof (cases "3 \<le> free_count w")
    case True
    then have "2 \<le> free_count ?w2" using w2(3) by simp
    with True http_files.serves [OF hs w2(1,2), of "length c"] w2(3,4) show ?thesis
      by (auto simp: file_answer_def numeral_2_eq_2)
  next
    case False
    with room have "free_count ?w2 = 1" using w2(3) by simp
    with False http_files.starves [OF hs w2(1,2), of "length c"] w2(4) show ?thesis by (auto simp: file_answer_def)
  qed
  then obtain w3 where w3: "exec_get_file (Some n) ?p (length c) ?w2 = Ret w3" "files w3 = files w"
    "fd_get w3 (Some n) = Some (Socket [] (file_answer (free_count w) c) None)"
    "free_count w3 = (if 3 \<le> free_count w then free_count w - 2 else 1)" by blast
  have "files ?w1 ?p = Some (Regular c)" using assms(3) by simp
  from Accept_file [OF ok(1,1,2) sock1 this, of h now st] w3(1,3)
  have "Accept h now (Some n) (st, ?w1) = Ret (file_answer (free_count w) c, st, close (Some n) w3)"
    by (simp add: hang_up_def sock_tx_def)
  with n(1) have "main_loop h (Client ?r now True # as) (st, w) =
      bindR (main_loop h as (st, close (Some n) w3)) (\<lambda>(ret, answers, s2). Ret (ret, file_answer (free_count w) c # answers, s2))"
    by (simp add: accept_request_def)
  moreover have "free_count (close (Some n) w3) = (if 3 \<le> free_count w then free_count w - 1 else free_count w)"
    using free_count_close [OF w3(3)] w3(4) room by auto
  ultimately show ?thesis using w3(2) by (intro exI [of _ "close (Some n) w3"]) simp
qed

lemma serve_files:
  assumes "wire_ok ''GET'' u t hs" "CHR ''?'' \<notin> set u" "files w (resource_path u) = Some (Regular c)" "2 \<le> free_count w"
  shows "\<exists>w'. main_loop h (map (\<lambda>now. Client (http_request ''GET'' u t hs) now True) nows) (st, w) =
    Ret (None, replicate (min (length nows) (free_count w - 2)) (file_response ''Content-Type'' c) @
       replicate (length nows - (free_count w - 2)) (file_response ''Content-Type'' []), st, w')"
  using assms(3,4)
proof (induction nows arbitrary: w)
  case (Cons now nows)
  obtain w1 where w1: "main_loop h (map (\<lambda>now. Client (http_request ''GET'' u t hs) now True) (now # nows)) (st, w) =
      bindR (main_loop h (map (\<lambda>now. Client (http_request ''GET'' u t hs) now True) nows) (st, w1))
        (\<lambda>(ret, answers, s2). Ret (ret, file_answer (free_count w) c # answers, s2))"
     "files w1 = files w" "free_count w1 = (if 3 \<le> free_count w then free_count w - 1 else free_count w)"
    using serve_one [OF assms(1,2) Cons.prems, of h now _ st] by fastforce
  have "2 \<le> free_count w1" using w1(3) Cons.prems(2) by auto
  with Cons.IH [of w1] w1(2) Cons.prems(1) obtain w' where
    w': "main_loop h (map (\<lambda>now. Client (http_request ''GET'' u t hs) now True) nows) (st, w1) =
      Ret (None, replicate (min (length nows) (free_count w1 - 2)) (file_response ''Content-Type'' c) @
       replicate (length nows - (free_count w1 - 2)) (file_response ''Content-Type'' []), st, w')" by auto
  have "file_answer (free_count w) c # replicate (min (length nows) (free_count w1 - 2)) (file_response ''Content-Type'' c) @
      replicate (length nows - (free_count w1 - 2)) (file_response ''Content-Type'' []) =
    replicate (min (length (now # nows)) (free_count w - 2)) (file_response ''Content-Type'' c) @
      replicate (length (now # nows) - (free_count w - 2)) (file_response ''Content-Type'' [])"
  proof (cases "3 \<le> free_count w")
    case True
    then obtain k where "free_count w - 2 = Suc k" by (metis Suc_diff_le numeral_2_eq_2 numeral_3_eq_3 diff_Suc_Suc)
    with True w1(3) have "free_count w1 - 2 = k" by simp
    with \<open>free_count w - 2 = Suc k\<close> True show ?thesis by (simp add: file_answer_def)
  next
    case False
    with w1(3) Cons.prems(2) show ?thesis by (simp add: file_answer_def)
  qed
  with w1(1) w' show ?case by simp
qed simp

section \<open>Sign-ins over the wire\<close>

definition cgi_ready :: "cgi_env \<Rightarrow> bool" where
  "cgi_ready ce \<longleftrightarrow> \<not> fork_fails ce \<and> input_use ce \<noteq> ReadsToEnd"

definition sign_url :: "string \<Rightarrow> string \<Rightarrow> string" where
  "sign_url p q = p @ CHR ''?'' # q"

text \<open>A GET whose query signs somebody in.\<close>

definition sign_wire :: "string \<Rightarrow> string \<Rightarrow> string list \<Rightarrow> string \<Rightarrow> bool" where
  "sign_wire p t hs q \<longleftrightarrow> CHR ''?'' \<notin> set p \<and> wire_ok ''GET'' (sign_url p q) t hs \<and> good_query q \<and>
     length q + 13 < QUERY_SIZE"

definition sign_answer :: "host \<Rightarrow> string \<Rightarrow> string \<Rightarrow> string" where
  "sign_answer h p q = cgi_head @ '' GET  query env :QUERY_STRING:'' @ q @ [LF] @
     cgi_output (h_cgi h) (resource_path p) (get_environment (h_cgi h) q) []"

lemma sign_url_parts: "CHR ''?'' \<notin> set p \<Longrightarrow> before_q (sign_url p q) = p" "CHR ''?'' \<notin> set p \<Longrightarrow> after_q (sign_url p q) = q"
  "CHR ''?'' \<in> set (sign_url p q)"
  by (auto simp: sign_url_def before_q_def after_q_def takeWhile_append dropWhile_append)

lemma parsed_sign:
  assumes "CHR ''?'' \<notin> set p" "line_fits ''GET'' (sign_url p q) t"
  shows "rq_cgi (parsed ''GET'' (sign_url p q) t') = 1"
    "cstr (rq_path (parsed ''GET'' (sign_url p q) t')) = Ret (resource_path p)"
    "cstr (rq_method (parsed ''GET'' (sign_url p q) t')) = Ret ''GET''"
    "rq_query (parsed ''GET'' (sign_url p q) t') = cbuf QUERY_SIZE q"
    "cstr (rq_query (parsed ''GET'' (sign_url p q) t')) = Ret q"
proof -
  note fits = assms(2)
  then have nul: "no_nul (sign_url p q)" by (simp add: line_fits_def token_no_nul)
  then have pq: "no_nul p" "no_nul q" by (simp_all add: sign_url_def)
  have len: "length (resource_path p) < PATH_SIZE" "length (sign_url p q) < URL_SIZE"
    using fits assms(1) by (simp_all add: line_fits_def spec_resource_def sign_url_parts)
  then have q: "length q < QUERY_SIZE" by (simp add: sign_url_def size_defs)
  show "rq_cgi (parsed ''GET'' (sign_url p q) t') = 1"
    "cstr (rq_path (parsed ''GET'' (sign_url p q) t')) = Ret (resource_path p)"
    "cstr (rq_method (parsed ''GET'' (sign_url p q) t')) = Ret ''GET''"
    "rq_query (parsed ''GET'' (sign_url p q) t') = cbuf QUERY_SIZE q"
    "cstr (rq_query (parsed ''GET'' (sign_url p q) t')) = Ret q"
    using assms(1) len pq q
    by (simp_all add: parsed_def spec_cgi_def spec_resource_def spec_query_def sign_url_parts cstr_cbuf size_defs)
qed

text \<open>An input from which the server reads a sign-in: its first line is such a GET, and the loop over the
  header lines comes to an end on the rest.\<close>

definition sign_stream :: "string \<Rightarrow> string \<Rightarrow> rx \<Rightarrow> bool" where
  "sign_stream p q r \<longleftrightarrow> CHR ''?'' \<notin> set p \<and> good_query q \<and> length q + 13 < QUERY_SIZE \<and>
     (\<exists>t r1 s. line_fits ''GET'' (sign_url p q) t \<and> line_read r (request_line ''GET'' (sign_url p q) t) r1 \<and>
       http_files.header_skip r1 s)"

lemma sign_wire_stream: "sign_wire p t hs q \<Longrightarrow> sign_stream p q (http_request ''GET'' (sign_url p q) t hs)"
  using wire_fits [of "''GET''" "sign_url p q" t hs] request_read [of "''GET''" "sign_url p q" t hs "[]"]
    request_skip [of "''GET''" "sign_url p q" t hs "[]"]
  by (auto simp: sign_wire_def sign_stream_def)

lemma Accept_sign:
  assumes stream: "sign_stream p q r" and sock: "fd_get w sock = Some (Socket r [] None)"
    and room: "4 \<le> free_count w" and cgi: "cgi_ready (h_cgi h)"
    and sign: "send_vector (h_tz h) (h_fill h) now (cbuf QUERY_SIZE q) st = Ret (res, st')"
  shows "Accept h now sock (st, w) = Ret (sign_answer h p q, st', close sock w)"
proof -
  from stream obtain t r1 s where t: "line_fits ''GET'' (sign_url p q) t"
    "line_read r (request_line ''GET'' (sign_url p q) t) r1" "http_files.header_skip r1 s" by (auto simp: sign_stream_def)
  have p: "CHR ''?'' \<notin> set p" "no_nul q" "length q + 13 < QUERY_SIZE"
    using stream by (simp_all add: sign_stream_def good_query_def)
  have cgi': "\<not> fork_fails (h_cgi h)" "input_use (h_cgi h) \<noteq> ReadsToEnd" using cgi by (simp_all add: cgi_ready_def)
  let ?w1 = "set_rx sock r1 w"
  have w1: "?w1 = fd_set sock (Some (Socket r1 [] None)) w" using sock by (simp add: set_rx_def)
  have sock1: "fd_get ?w1 sock = Some (Socket r1 [] None)" "4 \<le> free_count ?w1"
    using sock room by (simp_all add: w1 free_count_set_used)
  note cgi_run = exec_cgi_get_skip [OF sock1(1) clear_head_skip [OF t(3)] sock1(2) cgi' p(2,3), of "h_junk h" "resource_path p"]
  have "Accept h now sock (st, w) = Ret (hang_up sock (st', fd_set sock (Some (Socket s (sign_answer h p q) None)) ?w1))"
    using Accept_line [OF t(2,1) sock, of h now st] parsed_sign [OF p(1) t(1), of t] sign cgi_run
    by (simp add: exec_post_def sign_answer_def Let_def)
  then show ?thesis using sock by (auto simp: hang_up_def sock_tx_def w1 close_def)
qed

lemma accept_and_close:
  assumes "fd_get w (Some n) = None" "n < length (fds w)"
  shows "close (Some n) (fd_set (Some n) (Some ob) w) = w"
proof -
  have "fds w ! n = None" using assms by (simp add: fd_get_def)
  then have "(fds w)[n := None] = fds w" by (metis list_update_id)
  then show ?thesis by (simp add: close_def fd_set_def)
qed

lemma sign_history_step: "sign_history ((now, q) # hist) R = sign_history hist (sign (int now) (query_person q) R)"
  by simp

text \<open>A visit is a time, a query, and the bytes the client sends for it.\<close>

type_synonym visit = "nat \<times> string \<times> rx"

definition visit_sign :: "visit \<Rightarrow> nat \<times> string" where "visit_sign v = (fst v, fst (snd v))"
definition visit_arrival :: "visit \<Rightarrow> arrival" where "visit_arrival v = Client (snd (snd v)) (fst v) True"

lemma visit_simps [simp]: "visit_sign (now, q, r) = (now, q)" "visit_arrival (now, q, r) = Client r now True"
  by (simp_all add: visit_sign_def visit_arrival_def)

text \<open>Visits that are served one by one: when every connection is answered and closed once its query has been
  handed to \<open>send_vector\<close>, the loop answers all of them, and the register follows the abstract one.\<close>

lemma serve_answered:
  fixes vis :: "'e \<Rightarrow> visit" and ans :: "'e \<Rightarrow> string"
  assumes serves: "\<And>e n w st x st'. \<lbrakk>e \<in> set es; fd_get w (Some n) = Some (Socket (snd (snd (vis e))) [] None); 4 \<le> free_count w;
      send_vector (h_tz h) (h_fill h) (fst (vis e)) (cbuf QUERY_SIZE (fst (snd (vis e)))) st = Ret (x, st')\<rbrakk> \<Longrightarrow>
      Accept h (fst (vis e)) (Some n) (st, w) = Ret (ans e, st', close (Some n) w)"
    and "server_inv clk st" "good_history clk (map (\<lambda>e. visit_sign (vis e)) es)"
    "\<forall>e\<in>set es. int (fst (vis e)) \<le> INT_MAX - 60"
    "data_room (length es) st" "int (length es) * 74566 \<le> INT_MAX" "5 \<le> free_count w"
  shows "\<exists>st'. main_loop h (map (\<lambda>e. visit_arrival (vis e)) es) (st, w) = Ret (None, map ans es, st', w) \<and>
     register_of (users st') = sign_history (map (\<lambda>e. visit_sign (vis e)) es) (register_of (users st))"
  using assms(1-6)
proof (induction es arbitrary: clk st)
  case (Cons e es)
  obtain now q r where v: "vis e = (now, q, r)" by (cases "vis e")
  have room: "data_room (Suc (length es)) st" "int (length es) * 74566 \<le> INT_MAX" using Cons.prems(5,6) by simp_all
  have good: "good_query q" "clk \<le> int now" "int now \<le> INT_MAX - 60" "good_history (int now) (map (\<lambda>e. visit_sign (vis e)) es)"
    using Cons.prems(3,4) v by auto
  obtain x st1 where sv: "send_vector (h_tz h) (h_fill h) now (cbuf QUERY_SIZE q) st = Ret (x, st1)" "data_room (length es) st1"
    using send_vector_progress [OF Cons.prems(2) good(1-3) room] by blast
  note sim = send_vector_simulates [OF Cons.prems(2) good(1,2) sv(1)]
  have pos: "0 < free_count w" using assms(7) by simp
  obtain n where n: "fd_new (Socket r [] None) w = (Some n, fd_set (Some n) (Some (Socket r [] None)) w)"
    "n < length (fds w)" "fd_get w (Some n) = None"
    "free_count (fd_set (Some n) (Some (Socket r [] None)) w) = free_count w - 1"
    using accept_socket [OF pos] by metis
  let ?w1 = "fd_set (Some n) (Some (Socket r [] None)) w"
  have "Accept h now (Some n) (st, ?w1) = Ret (ans e, st1, close (Some n) ?w1)"
    using Cons.prems(1) [of e ?w1 n st x st1] n assms(7) sv(1) v by simp
  also have "close (Some n) ?w1 = w" using n(2,3) by (intro accept_and_close)
  finally have acc: "Accept h now (Some n) (st, ?w1) = Ret (ans e, st1, w)" .
  have "\<exists>st'. main_loop h (map (\<lambda>e. visit_arrival (vis e)) es) (st1, w) = Ret (None, map ans es, st', w) \<and>
    register_of (users st') = sign_history (map (\<lambda>e. visit_sign (vis e)) es) (register_of (users st1))"
  proof (rule Cons.IH)
    fix e' n w st x st'
    assume "e' \<in> set es" "fd_get w (Some n) = Some (Socket (snd (snd (vis e'))) [] None)" "4 \<le> free_count w"
      "send_vector (h_tz h) (h_fill h) (fst (vis e')) (cbuf QUERY_SIZE (fst (snd (vis e')))) st = Ret (x, st')"
    then show "Accept h (fst (vis e')) (Some n) (st, w) = Ret (ans e', st', close (Some n) w)"
      by (intro Cons.prems(1)) simp_all
  qed (use sim good(4) Cons.prems(4) sv(2) room(2) in simp_all)
  then show ?case using n(1) acc sim v by (auto simp: accept_request_def)
qed simp

lemma serve_visits:
  assumes "server_inv clk st" "good_history clk (map visit_sign vs)" "\<forall>v\<in>set vs. int (fst v) \<le> INT_MAX - 60"
    "\<forall>(now, q, r)\<in>set vs. sign_stream p q r" "data_room (length vs) st" "int (length vs) * 74566 \<le> INT_MAX"
    "5 \<le> free_count w" "cgi_ready (h_cgi h)"
  shows "\<exists>st'. main_loop h (map visit_arrival vs) (st, w)
     = Ret (None, map (\<lambda>(now, q, r). sign_answer h p q) vs, st', w) \<and>
     register_of (users st') = sign_history (map visit_sign vs) (register_of (users st))"
proof (rule serve_answered [where vis = "\<lambda>v. v", OF _ assms(1-3,5-7)])
  fix v n w st x st'
  assume v: "v \<in> set vs" and call: "fd_get w (Some n) = Some (Socket (snd (snd v)) [] None)" "4 \<le> free_count w"
    "send_vector (h_tz h) (h_fill h) (fst v) (cbuf QUERY_SIZE (fst (snd v))) st = Ret (x, st')"
  have "sign_stream p (fst (snd v)) (snd (snd v))" using assms(4) v by auto
  from Accept_sign [OF this call(1,2) assms(8) call(3)]
  show "Accept h (fst v) (Some n) (st, w) = Ret (case v of (now, q, r) \<Rightarrow> sign_answer h p q, st', close (Some n) w)"
    by (simp add: case_prod_unfold)
qed

lemma serve_sign_ins:
  assumes "server_inv clk st" "good_history clk hist" "\<forall>e\<in>set hist. int (fst e) \<le> INT_MAX - 60"
    "\<forall>e\<in>set hist. sign_wire p t hs (snd e)" "data_room (length hist) st" "int (length hist) * 74566 \<le> INT_MAX"
    "5 \<le> free_count w" "cgi_ready (h_cgi h)"
  shows "\<exists>st'. main_loop h (map (\<lambda>(now, q). Client (http_request ''GET'' (sign_url p q) t hs) now True) hist) (st, w)
     = Ret (None, map (\<lambda>(now, q). sign_answer h p q) hist, st', w) \<and>
     register_of (users st') = sign_history hist (register_of (users st))"
proof -
  let ?v = "\<lambda>e. (fst e, snd e, http_request ''GET'' (sign_url p (snd e)) t hs)"
  have sign: "map visit_sign (map ?v hist) = hist" by (simp add: map_idI)
  have arr: "map visit_arrival (map ?v hist) = map (\<lambda>(now, q). Client (http_request ''GET'' (sign_url p q) t hs) now True) hist"
    "map (\<lambda>(now, q, r). sign_answer h p q) (map ?v hist) = map (\<lambda>(now, q). sign_answer h p q) hist"
    by (simp_all add: case_prod_unfold)
  have "\<forall>(now, q, r)\<in>set (map ?v hist). sign_stream p q r" using assms(4) by (auto intro: sign_wire_stream)
  with serve_visits [of clk st "map ?v hist" p w h] assms show ?thesis unfolding sign arr by simp
qed

section \<open>Forms\<close>

text \<open>A form that is posted to \<open>u\<close>: the header lines announce the length of the body.\<close>

definition form_headers :: "string list \<Rightarrow> string \<Rightarrow> string list" where
  "form_headers hs body = hs @ [''Content-Length: '' @ nat_str (length body)]"

definition post_request :: "string \<Rightarrow> string \<Rightarrow> string list \<Rightarrow> string \<Rightarrow> rx" where
  "post_request u t hs body = http_request ''POST'' u t (form_headers hs body) @ map Byte body"

definition post_wire :: "string \<Rightarrow> string \<Rightarrow> string list \<Rightarrow> string \<Rightarrow> bool" where
  "post_wire u t hs body \<longleftrightarrow> wire_ok ''POST'' u t (form_headers hs body) \<and>
     (\<forall>h\<in>set hs. take 15 h \<noteq> ''Content-Length:'') \<and> int (length body) \<le> INT_MAX"

definition post_answer :: "host \<Rightarrow> string \<Rightarrow> string \<Rightarrow> string" where
  "post_answer h u body = cgi_head @ '' POST  content len env :CONTENT-LENGTH:'' @ int_str (int (length body)) @ [LF] @
     cgi_output (h_cgi h) (resource_path u) (post_environment (h_cgi h) (int (length body))) body"

text \<open>The query of a POST is its address.\<close>

lemma parsed_post:
  assumes "line_fits ''POST'' u t" "length u < QUERY_SIZE"
  shows "rq_cgi (parsed ''POST'' u t') = 1" "cstr (rq_path (parsed ''POST'' u t')) = Ret (resource_path u)"
    "cstr (rq_method (parsed ''POST'' u t')) = Ret ''POST''" "rq_query (parsed ''POST'' u t') = cbuf QUERY_SIZE u"
    "cstr (rq_query (parsed ''POST'' u t')) = Ret u"
  using assms
  by (simp_all add: parsed_def spec_cgi_def spec_resource_def spec_query_def line_fits_def cstr_cbuf token_no_nul size_defs)

lemma Accept_post:
  assumes wire: "post_wire u t hs body" and sock: "fd_get w sock = Some (Socket (post_request u t hs body) [] None)"
    and room: "4 \<le> free_count w" and cgi: "\<not> fork_fails (h_cgi h)" "input_use (h_cgi h) = ReadsOnDemand"
    and sign: "send_vector (h_tz h) (h_fill h) now (cbuf QUERY_SIZE u) st = Ret (x, st')"
  shows "Accept h now sock (st, w) = Ret (post_answer h u body, st', close sock w)"
proof -
  let ?hs = "form_headers hs body"
  have ok: "wire_ok ''POST'' u t ?hs" and len: "int (length body) \<le> INT_MAX"
    and other: "\<forall>h\<in>set (hs @ []). take 15 h \<noteq> ''Content-Length:''"
    using wire by (simp_all add: post_wire_def)
  have good: "\<forall>h\<in>set ?hs. good_header SIZE h" using ok by (simp add: wire_ok_def)
  have content: "spec_content 0 ?hs = Ret (int (length body))"
    using content_length_header [OF other len, of 0] by (simp add: form_headers_def)
  have short: "length u < QUERY_SIZE" using wire_fits [OF ok] by (simp add: line_fits_def size_defs)
  let ?w1 = "set_rx sock (header_block ?hs @ map Byte body) w"
  have w1: "?w1 = fd_set sock (Some (Socket (header_block ?hs @ map Byte body @ []) [] None)) w"
    using sock by (simp add: set_rx_def)
  have sock1: "fd_get ?w1 sock = Some (Socket (header_block ?hs @ map Byte body @ []) [] None)" "4 \<le> free_count ?w1"
    using sock room by (simp_all add: w1 free_count_set_used)
  note run = exec_cgi_post [OF sock1(1) good content sock1(2) cgi len, of "h_junk h" "resource_path u" u]
  have "Accept h now sock (st, w) = Ret (hang_up sock (st', fd_set sock (Some (Socket [] (post_answer h u body) None)) ?w1))"
    using Accept_request [OF ok ok sock [unfolded post_request_def], of h now st]
      parsed_post [OF wire_fits [OF ok] short, of "t @ [LF]"] sign run
    by (simp add: exec_post_def post_answer_def Let_def)
  then show ?thesis using sock by (auto simp: hang_up_def sock_tx_def w1 close_def)
qed

lemma no_equals_person: "CHR ''='' \<notin> set u \<Longrightarrow> query_person u = ([], [])"
  by (induction u) (auto simp: query_person_def spec_name_def spec_id_def after_eq_def)

lemma sign_history_others:
  "\<forall>e\<in>set hist. query_person (snd e) = p \<Longrightarrow> k \<noteq> p \<Longrightarrow> sign_history hist R k = R k"
  by (induction hist R rule: sign_history.induct) (auto simp: sign_other)

section \<open>Properties\<close>

text \<open>C1. The whole thread server, from the bytes on the wire to the register: for any history of sign-ins
  sent as \<open>GET path?query\<close> requests, one connection after the other, the main loop answers each with the
  output of the CGI program and waits for more; the register is then the abstract one after the same
  history; and the table of descriptors is what it was before.\<close>
theorem sign_ins_over_http:
  assumes "server_inv clk st" "good_history clk hist" "\<forall>e\<in>set hist. int (fst e) \<le> INT_MAX - 60"
    "\<forall>e\<in>set hist. sign_wire p t hs (snd e)" "data_room (length hist) st" "int (length hist) * 74566 \<le> INT_MAX"
    "5 \<le> free_count w" "cgi_ready (h_cgi h)"
  shows "\<exists>st'. main_loop h (map (\<lambda>(now, q). Client (http_request ''GET'' (sign_url p q) t hs) now True) hist) (st, w)
     = Ret (None, map (\<lambda>(now, q). sign_answer h p q) hist, st', w) \<and>
     register_of (users st') = sign_history hist (register_of (users st))"
  using assms by (rule serve_sign_ins)

definition demo_host :: host where
  "demo_host = \<lparr>h_tz = 0, h_fill = CHR ''x'', h_junk = CHR ''x'', h_cgi = demo_cgi\<rparr>"

definition idle_world :: "nat \<Rightarrow> world" where
  "idle_world k = \<lparr>files = demo_files, fds = replicate k None\<rparr>"

lemma idle_world_simps [simp]: "free_count (idle_world k) = k" "files (idle_world k) = demo_files"
  by (simp_all add: idle_world_def free_count_def)

lemma demo_wire: "wire_ok ''GET'' ''/a'' ''HTTP/1.1'' [''Host: x'']"
  "wire_ok ''GET'' (sign_url ''/s'' ''a=li&b=7'') ''HTTP/1.1'' [''Host: x'']"
  "wire_ok ''GET'' (sign_url ''/'' []) ''HTTP/1.1'' [''Host: x'']"
  by (simp_all add: wire_ok_def line_fits_def token_def request_line_def size_defs resource_path_def
      spec_resource_def before_q_def terminator_def good_header_def sign_url_def)

lemma demo_sign_wire: "sign_wire ''/s'' ''HTTP/1.1'' [''Host: x''] ''a=li&b=7''"
  using demo_wire(2) demo_query(1) by (simp add: sign_wire_def size_defs)

theorem sign_ins_over_http_witness:
  "\<exists>answers st'. main_loop demo_host (map (\<lambda>(now, q). Client (http_request ''GET'' (sign_url ''/s'' q) ''HTTP/1.1'' [''Host: x'']) now True) demo_history)
       (new_server 0, idle_world 5) = Ret (None, answers, st', idle_world 5) \<and>
     register_of (users st') (''li'', ''7'') = Some \<lparr>came = 100, left = Some 200, seconds = 160\<rparr>"
proof -
  have "\<forall>e\<in>set demo_history. sign_wire ''/s'' ''HTTP/1.1'' [''Host: x''] (snd e)"
    using demo_sign_wire by (simp add: demo_history_def)
  moreover have "cgi_ready (h_cgi demo_host)" by (simp add: cgi_ready_def demo_host_def demo_cgi_simps)
  moreover have "sign_history demo_history (register_of (users (new_server 0))) (''li'', ''7'') =
      Some \<lparr>came = 100, left = Some 200, seconds = 160\<rparr>"
    using sign_history_unknown [of "register_of (users (new_server 0))" "(''li'', ''7'')" demo_history]
      demo_history_good(4) by (simp add: register_of_def new_server_def)
  ultimately show ?thesis
    using sign_ins_over_http [OF server_inv_new demo_history_good(1,2) _ data_room_new, of "''/s''" "''HTTP/1.1''"
        "[''Host: x'']" "idle_world 5" demo_host] demo_history_good(3)
    by (auto simp: INT_MAX_def)
qed

text \<open>C28. One request for \<open>/?\<close> (or any path with an empty query) takes the whole server down: the
  assertion of \<open>get_string\<close> fails, whoever is registered and whatever else is going on.\<close>
theorem empty_query_kills_server:
  assumes "wire_ok ''GET'' (sign_url p []) t hs" "CHR ''?'' \<notin> set p"
    "fd_get w sock = Some (Socket (http_request ''GET'' (sign_url p []) t hs @ rest) tx room)"
  shows "accept_request h now sock (st, w) = Fail AssertFail"
proof -
  note parts = parsed_sign [OF assms(2) wire_fits [OF assms(1)], of "t @ [LF]"]
  have "cstr (cbuf QUERY_SIZE []) = Ret []" by (simp add: cstr_cbuf size_defs)
  then have "send_vector (h_tz h) (h_fill h) now (cbuf QUERY_SIZE []) st = Fail AssertFail"
    by (simp add: send_vector_def get_string_def)
  with parts show ?thesis
    using Accept_request [OF assms(1,1,3), of h now st] by (simp add: accept_request_def exec_post_def Let_def)
qed

theorem empty_query_kills_server_witness:
  "accept_request demo_host 100 (Some 0) (new_server 0,
     fd_set (Some 0) (Some (Socket (http_request ''GET'' ''/?'' ''HTTP/1.1'' [''Host: x'']) [] None)) (idle_world 5)) = Fail AssertFail"
proof -
  have "fd_get (fd_set (Some 0) (Some (Socket (http_request ''GET'' ''/?'' ''HTTP/1.1'' [''Host: x'']) [] None)) (idle_world 5)) (Some 0) =
      Some (Socket (http_request ''GET'' ''/?'' ''HTTP/1.1'' [''Host: x''] @ []) [] None)"
    by (simp add: idle_world_def)
  with empty_query_kills_server [OF demo_wire(3), where sock = "Some 0" and rest = "[]"]
  show ?thesis by (simp add: sign_url_def)
qed

text \<open>C17. Serving files one after the other, the thread server runs dry: with \<open>f\<close> free descriptors the
  first \<open>f - 2\<close> requests get the file, and every later one gets the header lines with nothing behind
  them, for ever, because each answer has left a descriptor open.\<close>
theorem file_service_runs_dry:
  assumes "wire_ok ''GET'' u t hs" "CHR ''?'' \<notin> set u" "files w (resource_path u) = Some (Regular c)" "2 \<le> free_count w"
  shows "\<exists>w'. main_loop h (map (\<lambda>now. Client (http_request ''GET'' u t hs) now True) nows) (st, w) =
    Ret (None, replicate (min (length nows) (free_count w - 2)) (file_response ''Content-Type'' c) @
       replicate (length nows - (free_count w - 2)) (file_response ''Content-Type'' []), st, w')"
  using assms by (rule serve_files)

theorem file_service_runs_dry_witness:
  "\<exists>w'. main_loop demo_host (map (\<lambda>now. Client (http_request ''GET'' ''/a'' ''HTTP/1.1'' [''Host: x'']) now True) [1, 2, 3])
      (new_server 0, idle_world 3) =
    Ret (None, [file_response ''Content-Type'' ''hello'', file_response ''Content-Type'' [], file_response ''Content-Type'' []],
      new_server 0, w')"
  using file_service_runs_dry [OF demo_wire(1), of "idle_world 3" "''hello''" demo_host "[1, 2, 3]" "new_server 0"]
  by (simp add: demo_files_def resource_path_def)

text \<open>C15. Whoever posts a form to an address without an equals sign is the same nameless person to the register:
  the query of a POST is its address, so the name and the number in the body reach the CGI program, byte
  for byte, and never \<open>send_vector\<close>.  For any sequence of posted forms every one is answered by the program
  on its body, when that program takes its input as it comes; the register takes them for the comings and goings of the person with the empty name and the
  empty number, and nobody else is signed in or out.\<close>
theorem posts_sign_in_nobody:
  assumes "server_inv clk st" "good_history clk (map (\<lambda>(now, body). (now, u)) forms)"
    "\<forall>(now, body)\<in>set forms. int now \<le> INT_MAX - 60 \<and> post_wire u t hs body" "CHR ''='' \<notin> set u"
    "data_room (length forms) st" "int (length forms) * 74566 \<le> INT_MAX" "5 \<le> free_count w"
    "\<not> fork_fails (h_cgi h)" "input_use (h_cgi h) = ReadsOnDemand"
  shows "\<exists>st'. main_loop h (map (\<lambda>(now, body). Client (post_request u t hs body) now True) forms) (st, w) =
      Ret (None, map (\<lambda>(now, body). post_answer h u body) forms, st', w) \<and>
    register_of (users st') = sign_history (map (\<lambda>(now, body). (now, u)) forms) (register_of (users st)) \<and>
    (\<forall>k. k \<noteq> ([], []) \<longrightarrow> register_of (users st') k = register_of (users st) k)"
proof -
  let ?vis = "\<lambda>e. (fst e, u, post_request u t hs (snd e))"
  have eqs: "map (\<lambda>e. visit_sign (?vis e)) forms = map (\<lambda>(now, body). (now, u)) forms"
    "map (\<lambda>e. visit_arrival (?vis e)) forms = map (\<lambda>(now, body). Client (post_request u t hs body) now True) forms"
    "map (\<lambda>e. post_answer h u (snd e)) forms = map (\<lambda>(now, body). post_answer h u body) forms"
    by (simp_all add: case_prod_unfold)
  have times: "\<forall>e\<in>set forms. int (fst (?vis e)) \<le> INT_MAX - 60" using assms(3) by auto
  have history: "good_history clk (map (\<lambda>e. visit_sign (?vis e)) forms)" unfolding eqs(1) by (rule assms(2))
  have "\<exists>st'. main_loop h (map (\<lambda>e. visit_arrival (?vis e)) forms) (st, w) =
      Ret (None, map (\<lambda>e. post_answer h u (snd e)) forms, st', w) \<and>
    register_of (users st') = sign_history (map (\<lambda>e. visit_sign (?vis e)) forms) (register_of (users st))"
  proof (rule serve_answered [where clk = clk and vis = ?vis and ans = "\<lambda>e. post_answer h u (snd e)"])
    fix e n w1 st1 x st'
    assume "e \<in> set forms" "fd_get w1 (Some n) = Some (Socket (snd (snd (?vis e))) [] None)" "4 \<le> free_count w1"
      "send_vector (h_tz h) (h_fill h) (fst (?vis e)) (cbuf QUERY_SIZE (fst (snd (?vis e)))) st1 = Ret (x, st')"
    then show "Accept h (fst (?vis e)) (Some n) (st1, w1) = Ret (post_answer h u (snd e), st', close (Some n) w1)"
      using assms(3,8,9) by (auto intro!: Accept_post)
  qed (rule assms(1,5-7) history times)+
  then obtain st' where "main_loop h (map (\<lambda>(now, body). Client (post_request u t hs body) now True) forms) (st, w) =
      Ret (None, map (\<lambda>(now, body). post_answer h u body) forms, st', w)"
    "register_of (users st') = sign_history (map (\<lambda>(now, body). (now, u)) forms) (register_of (users st))"
    unfolding eqs by blast
  moreover have "\<forall>e\<in>set (map (\<lambda>(now, body). (now, u)) forms). query_person (snd e) = ([], [])"
    using no_equals_person [OF assms(4)] by auto
  then have "\<forall>k. k \<noteq> ([], []) \<longrightarrow> register_of (users st') k = register_of (users st) k"
    unfolding \<open>register_of (users st') = _\<close> by (intro allI impI sign_history_others)
  ultimately show ?thesis by (intro exI [of _ st'] conjI)
qed

lemma demo_form: "post_wire ''/sh'' ''HTTP/1.1'' [''Host: x''] ''n=li&i=7''" "post_wire ''/sh'' ''HTTP/1.1'' [''Host: x''] ''n=wu&i=8''"
proof -
  have n: "nat_str 8 = ''8''" by code_simp
  have l: "length ''n=li&i=7'' = 8" "length ''n=wu&i=8'' = 8" by simp_all
  have "form_headers [''Host: x''] ''n=li&i=7'' = [''Host: x'', ''Content-Length: 8'']"
    "form_headers [''Host: x''] ''n=wu&i=8'' = [''Host: x'', ''Content-Length: 8'']"
    unfolding form_headers_def l n by simp_all
  then show "post_wire ''/sh'' ''HTTP/1.1'' [''Host: x''] ''n=li&i=7''" "post_wire ''/sh'' ''HTTP/1.1'' [''Host: x''] ''n=wu&i=8''"
    by (simp_all add: post_wire_def wire_ok_def line_fits_def token_def request_line_def size_defs
        resource_path_def spec_resource_def terminator_def good_header_def INT_MAX_def)
qed

definition demo_forms :: "(nat \<times> string) list" where
  "demo_forms = [(100, ''n=li&i=7''), (160, ''n=wu&i=8'')]"

theorem posts_sign_in_nobody_witness:
  "\<exists>st'. main_loop demo_host (map (\<lambda>(now, body). Client (post_request ''/sh'' ''HTTP/1.1'' [''Host: x''] body) now True)
        demo_forms) (new_server 0, idle_world 5) =
      Ret (None, map (\<lambda>(now, body). post_answer demo_host ''/sh'' body) demo_forms, st', idle_world 5) \<and>
    register_of (users st') ([], []) = Some \<lparr>came = 100, left = Some 160, seconds = 60\<rparr>"
proof -
  let ?hist = "map (\<lambda>(now, body). (now, ''/sh'')) demo_forms"
  have sign: "sign_history ?hist (register_of (users (new_server 0))) ([], []) = Some \<lparr>came = 100, left = Some 160, seconds = 60\<rparr>"
    using sign_history_unknown [of "register_of (users (new_server 0))" "([], [])" ?hist] no_equals_person [of "''/sh''"]
    by (simp add: register_of_def new_server_def times_of_def demo_forms_def)
  have "\<exists>st'. main_loop demo_host (map (\<lambda>(now, body). Client (post_request ''/sh'' ''HTTP/1.1'' [''Host: x''] body) now True)
        demo_forms) (new_server 0, idle_world 5) =
      Ret (None, map (\<lambda>(now, body). post_answer demo_host ''/sh'' body) demo_forms, st', idle_world 5) \<and>
    register_of (users st') = sign_history ?hist (register_of (users (new_server 0))) \<and>
    (\<forall>k. k \<noteq> ([], []) \<longrightarrow> register_of (users st') k = register_of (users (new_server 0)) k)"
    by (rule posts_sign_in_nobody [where clk = 0])
      (simp_all add: server_inv_new data_room_new demo_forms_def demo_form good_query_def size_defs INT_MAX_def demo_host_def demo_cgi_simps)
  then show ?thesis using sign by (elim exE conjE) (intro exI conjI, assumption, simp only:)
qed

lemma htons_htons: "htons (htons p) = p"
  by (rule bit_word_eqI) (auto simp: htons_def bit_simps)

text \<open>\<open>get_sock\<close> listens on the low 16 bits of the port it is given, so that a port out of range is not
  refused but replaced by another; and when \<open>bind\<close> or \<open>listen\<close> fails it returns \<open>-1\<close> and leaves the socket
  it created open.\<close>
theorem get_sock_port:
  assumes "0 < free_count w" "socket_ok c"
  shows "if bind_ok c \<and> listen_ok c
    then \<exists>n w'. GetSock c port w = (Some n, w') \<and> fd_get w' (Some n) = Some (Listening (nat (port mod 65536)))
    else \<exists>w'. GetSock c port w = (None, w') \<and> free_count w' = free_count w - 1"
proof -
  obtain n where n: "fd_new (Socket [] [] None) w = (Some n, fd_set (Some n) (Some (Socket [] [] None)) w)"
    "n < length (fds w)" "free_count (fd_set (Some n) (Some (Socket [] [] None)) w) = free_count w - 1"
    using accept_socket [OF assms(1)] by metis
  have "unat (word_of_int port :: 16 word) = nat (port mod 65536)"
    by (simp add: unat_eq_nat_uint uint_word_of_int)
  with n assms(2) show ?thesis
    by (auto simp: GetSock_def get_sock_def htons_htons Let_def)
qed

theorem get_sock_port_witness:
  "(\<exists>n w'. GetSock \<lparr>socket_ok = True, bind_ok = True, listen_ok = True\<rparr> 73616 (idle_world 3) = (Some n, w') \<and>
     fd_get w' (Some n) = Some (Listening 8080)) \<and>
   (\<exists>w'. GetSock \<lparr>socket_ok = True, bind_ok = False, listen_ok = True\<rparr> 80 (idle_world 3) = (None, w') \<and> free_count w' = 2)"
  using get_sock_port [of "idle_world 3" "\<lparr>socket_ok = True, bind_ok = True, listen_ok = True\<rparr>" 73616]
    get_sock_port [of "idle_world 3" "\<lparr>socket_ok = True, bind_ok = False, listen_ok = True\<rparr>" 80]
  by simp

end
