(* ===== verification/Server_Epoll.thy ===== *)
theory Server_Epoll
  imports Static_File "HOL-Library.Word"
begin

text \<open>
  The epoll server: \<open>accept_request\<close>, \<open>get_sock\<close>, \<open>setnonblocking\<close>, \<open>addfd\<close>, \<open>epoll_lt\<close> and
  \<open>epoll_et\<close> of \<open>server/server.h\<close> and the loop of \<open>main\<close> in \<open>server/server.cpp\<close>.  Of \<open>epoll_et\<close> both
  branches of the conditional compilation are translated; the one with threads is the one that the
  header compiles, since it defines \<open>DEBUG\<close>.
\<close>

unbundle bit_operations_syntax

section \<open>A request\<close>

text \<open>Besides the world the result has what was sent on the socket.  The condition of the \<open>if\<close> assigns to
  \<open>n\<close> the truth value of \<open>get_line(...) != 0\<close>.\<close>

definition epoll_sock_tx :: "fd \<Rightarrow> world \<Rightarrow> string" where
  "epoll_sock_tx f w = (case fd_get w f of Some (Socket r t m) \<Rightarrow> t | _ \<Rightarrow> [])"

definition epoll_accept_request :: "fd \<Rightarrow> world \<Rightarrow> (string \<times> world) res" where
  "epoll_accept_request sock w =
    bindR (epoll_get_line E_SIZE (zeros E_SIZE) (sock_rx sock w)) (\<lambda>(k, buf, r).
    let w1 = set_rx sock r w in
    if k \<noteq> 0 then
      bindR (get_method_path_url buf init_epoll_request) (\<lambda>rq.
        if er_cgi rq = 0 then
          bindR (epoll_exec_get sock (er_path rq) w1) (\<lambda>w2. Ret (epoll_sock_tx sock w2, close sock w2))
        else Ret (epoll_sock_tx sock w1, close sock w1))
    else Ret (epoll_sock_tx sock w1, w1))"

section \<open>Descriptors in the event set\<close>

definition EPOLLIN :: "32 word" where "EPOLLIN = 1"
definition EPOLLET :: "32 word" where "EPOLLET = 0x80000000"
definition O_NONBLOCK :: "32 word" where "O_NONBLOCK = 0x800"

text \<open>The state of the event loop: the descriptors with their status flags, the event set, the clients that
  are waiting to be accepted (\<open>None\<close>: nobody is), the static variables \<open>connfd\<close> of the two handlers, the
  threads started, each with its argument, and what was printed.\<close>

record epoll_state =
  ep_world :: world
  ep_flags :: "fd \<Rightarrow> 32 word"
  ep_set :: "(nat \<times> 32 word) list"
  ep_pending :: "rx option list"
  ep_connfd :: fd
  ep_lt_connfd :: fd
  ep_threads :: "fd list"
  ep_out :: "string list"
  ep_sndbuf :: nat

record epoll_event =
  ev_fd :: fd
  ev_events :: "32 word"

definition nonblocking_object :: "nat \<Rightarrow> object \<Rightarrow> object" where
  "nonblocking_object sndbuf ob = (case ob of Socket r t None \<Rightarrow> Socket r t (Some sndbuf) | _ \<Rightarrow> ob)"

definition set_nonblocking :: "nat \<Rightarrow> fd \<Rightarrow> world \<Rightarrow> world" where
  "set_nonblocking sndbuf f w = fd_set f (map_option (nonblocking_object sndbuf) (fd_get w f)) w"

definition setnonblocking :: "fd \<Rightarrow> epoll_state \<Rightarrow> 32 word \<times> epoll_state" where
  "setnonblocking sock s =
    (let old_option = ep_flags s sock; new_option = old_option OR O_NONBLOCK
     in (old_option, s\<lparr>ep_flags := (ep_flags s)(sock := new_option),
           ep_world := set_nonblocking (ep_sndbuf s) sock (ep_world s)\<rparr>))"

text \<open>\<open>epoll_ctl\<close> fails, unnoticed, on a descriptor that is not open or already in the set.\<close>

definition epoll_add :: "fd \<Rightarrow> 32 word \<Rightarrow> epoll_state \<Rightarrow> epoll_state" where
  "epoll_add sock events s =
    (case sock of
       Some n \<Rightarrow> (if fd_get (ep_world s) sock = None \<or> n \<in> fst ` set (ep_set s) then s
                  else s\<lparr>ep_set := ep_set s @ [(n, events)]\<rparr>)
     | None \<Rightarrow> s)"

definition addfd :: "fd \<Rightarrow> bool \<Rightarrow> epoll_state \<Rightarrow> epoll_state" where
  "addfd sock flag s =
    (let events = EPOLLIN; events1 = (if flag then events OR EPOLLET else events)
     in snd (setnonblocking sock (epoll_add sock events1 s)))"

text \<open>\<open>accept\<close> on the listening socket.\<close>

definition accept_client :: "epoll_state \<Rightarrow> fd \<times> epoll_state" where
  "accept_client s =
    (case ep_pending s of
       Some r # ps \<Rightarrow> (case fd_new (Socket r [] None) (ep_world s) of
           (None, w) \<Rightarrow> (None, s)
         | (Some n, w) \<Rightarrow> (Some n, s\<lparr>ep_world := w, ep_pending := ps\<rparr>))
     | None # ps \<Rightarrow> (None, s\<lparr>ep_pending := ps\<rparr>)
     | [] \<Rightarrow> (None, s))"

section \<open>Level-triggered events\<close>

text \<open>\<open>recv(sockfd, buf, n, 0)\<close>: the bytes that are there, at most \<open>n\<close>.\<close>

fun ready_bytes :: "nat \<Rightarrow> rx \<Rightarrow> char list" where
  "ready_bytes (Suc n) (Byte c # s) = c # ready_bytes n s"
| "ready_bytes _ _ = []"

definition recv_chunk :: "nat \<Rightarrow> rx \<Rightarrow> int \<times> char list \<times> rx" where
  "recv_chunk n s =
    (case s of [] \<Rightarrow> (0, [], []) | RecvErr # s1 \<Rightarrow> (-1, [], s1)
     | _ \<Rightarrow> let d = ready_bytes n s in (int (length d), d, drop (length d) s))"

definition content_line :: "nat \<Rightarrow> string \<Rightarrow> string" where
  "content_line k text = ''get '' @ nat_str k @ '' bytes of content : '' @ text @ [LF]"

text \<open>\<open>buf\<close> lives across the events of one call; \<open>memset\<close> clears the \<open>sizeof\<close> of the constant, four
  bytes, and \<open>operator<<\<close> prints up to the first NUL.\<close>

definition something_else :: string where
  "something_else = ''something else happend'' @ [LF]"

fun epoll_lt_loop :: "epoll_event list \<Rightarrow> fd \<Rightarrow> char list \<Rightarrow> epoll_state \<Rightarrow> epoll_state res" where
  "epoll_lt_loop [] listen_sock buf s = Ret s"
| "epoll_lt_loop (ev # evs) listen_sock buf s =
    (let sockfd = ev_fd ev in
     if sockfd = listen_sock then
       (case accept_client s of (c, s1) \<Rightarrow>
          epoll_lt_loop evs listen_sock buf (addfd c False (s1\<lparr>ep_lt_connfd := c\<rparr>)))
     else if ev_events ev AND EPOLLIN \<noteq> 0 then
       bindR (memset0 buf 4) (\<lambda>buf0.
         case recv_chunk E_BUF_SIZE (sock_rx sockfd (ep_world s)) of (ret, d, r) \<Rightarrow>
         let w1 = set_rx sockfd r (ep_world s); buf1 = put buf0 0 d in
         if ret \<le> 0 then epoll_lt_loop evs listen_sock buf1 (s\<lparr>ep_world := close sockfd w1\<rparr>)
         else bindR (cstr buf1) (\<lambda>text.
           epoll_lt_loop evs listen_sock buf1
             (s\<lparr>ep_world := w1, ep_out := ep_out s @ [content_line (nat ret) text]\<rparr>)))
     else epoll_lt_loop evs listen_sock buf (s\<lparr>ep_out := ep_out s @ [something_else]\<rparr>))"

definition epoll_lt :: "char list \<Rightarrow> epoll_event list \<Rightarrow> fd \<Rightarrow> epoll_state \<Rightarrow> epoll_state res" where
  "epoll_lt junk events listen_sock s = epoll_lt_loop events listen_sock junk s"

section \<open>Edge-triggered events\<close>

text \<open>\<open>create_ok\<close> says which calls of \<open>pthread_create\<close> succeed; a failing one ends the handler.  The
  argument of the thread is the static variable \<open>connfd\<close>, not the descriptor of the event.\<close>

fun epoll_et :: "(nat \<Rightarrow> bool) \<Rightarrow> epoll_event list \<Rightarrow> fd \<Rightarrow> epoll_state \<Rightarrow> epoll_state" where
  "epoll_et create_ok [] listen_sock s = s"
| "epoll_et create_ok (ev # evs) listen_sock s =
    (let sockfd = ev_fd ev in
     if sockfd = listen_sock then
       (case accept_client s of (c, s1) \<Rightarrow>
          epoll_et create_ok evs listen_sock (addfd c True (s1\<lparr>ep_connfd := c\<rparr>)))
     else if ev_events ev AND EPOLLIN \<noteq> 0 then
       (if \<not> create_ok (length (ep_threads s)) then s
        else epoll_et create_ok evs listen_sock (s\<lparr>ep_threads := ep_threads s @ [ep_connfd s]\<rparr>))
     else epoll_et create_ok evs listen_sock (s\<lparr>ep_out := ep_out s @ [something_else]\<rparr>))"

text \<open>The branch without \<open>DEBUG\<close>: read everything, 127 bytes at a time into a cleared buffer.  A failing
  \<open>recv\<close> with \<open>EAGAIN\<close> ends the loop, one with another error (\<open>again = False\<close>) closes the socket.\<close>

lemma recv_chunk_shorter: "recv_chunk n s = (ret, d, r) \<Longrightarrow> \<not> ret < 0 \<Longrightarrow> ret \<noteq> 0 \<Longrightarrow> length r < length s"
  by (cases n) (auto simp: recv_chunk_def Let_def split: list.splits recv_event.splits)

function drain :: "bool \<Rightarrow> rx \<Rightarrow> (string list \<times> bool \<times> rx) res" where
  "drain again s =
    (case recv_chunk (E_BUF_SIZE - 1) s of (ret, d, r) \<Rightarrow>
      if ret < 0 then Ret ([], \<not> again, r)
      else if ret = 0 then Ret ([], True, r)
      else bindR (cstr (put (zeros E_BUF_SIZE) 0 d)) (\<lambda>text.
        bindR (drain again r) (\<lambda>(out1, closes, r1). Ret (content_line (nat ret) text # out1, closes, r1))))"
  by pat_completeness auto
termination
  by (relation "measure (\<lambda>(again, s). length s)")
    (auto dest!: recv_chunk_shorter [OF sym])

declare drain.simps [simp del]

section \<open>The listening socket and the main loop\<close>

text \<open>\<open>pton\<close> is \<open>inet_pton\<close>; when it fails the address stays 0, any interface.\<close>

definition epoll_get_sock :: "(string \<Rightarrow> 32 word option) \<Rightarrow> bool \<Rightarrow> bool \<Rightarrow> bool \<Rightarrow> string \<Rightarrow> int \<Rightarrow> world \<Rightarrow>
    (fd \<times> 32 word \<times> world) res" where
  "epoll_get_sock pton socket_ok bind_ok listen_ok ip port w =
    (let addr = (case pton ip of None \<Rightarrow> 0 | Some a \<Rightarrow> a) in
     if \<not> socket_ok then Fail AssertFail
     else (case fd_new (Listening (nat (port mod 65536))) w of
       (None, w1) \<Rightarrow> Fail AssertFail
     | (Some n, w1) \<Rightarrow>
         if \<not> bind_ok then Fail AssertFail
         else if \<not> listen_ok then Fail AssertFail
         else Ret (Some n, addr, w1)))"

datatype wait = WaitFails | Events "epoll_event list"

text \<open>What \<open>epoll_wait\<close> returns, one call after the other; \<open>None\<close> as result means the loop waits.\<close>

fun epoll_loop :: "(nat \<Rightarrow> bool) \<Rightarrow> wait list \<Rightarrow> fd \<Rightarrow> epoll_state \<Rightarrow> int option \<times> epoll_state" where
  "epoll_loop create_ok [] sock s = (None, s)"
| "epoll_loop create_ok (WaitFails # ws) sock s = (Some 0, s\<lparr>ep_world := close sock (ep_world s)\<rparr>)"
| "epoll_loop create_ok (Events evs # ws) sock s = epoll_loop create_ok ws sock (epoll_et create_ok evs sock s)"

definition start_epoll :: "nat \<Rightarrow> world \<Rightarrow> rx option list \<Rightarrow> epoll_state" where
  "start_epoll sndbuf w pending = \<lparr>ep_world = w, ep_flags = (\<lambda>f. 0), ep_set = [], ep_pending = pending,
     ep_connfd = Some 0, ep_lt_connfd = Some 0, ep_threads = [], ep_out = [], ep_sndbuf = sndbuf\<rparr>"

text \<open>\<open>main\<close> checks for one argument and uses two: \<open>argv[argc]\<close> is the null pointer.\<close>

definition epoll_main :: "nat \<Rightarrow> (string \<Rightarrow> 32 word option) \<Rightarrow> bool \<Rightarrow> bool \<Rightarrow> bool \<Rightarrow> (nat \<Rightarrow> bool) \<Rightarrow> string list \<Rightarrow>
    rx option list \<Rightarrow> wait list \<Rightarrow> world \<Rightarrow> (int option \<times> epoll_state) res" where
  "epoll_main sndbuf pton socket_ok bind_ok listen_ok create_ok argv pending ws w =
    (if length argv < 2 then Fail (ExitCall 1)
     else if length argv < 3 then Fail NullDeref
     else bindR (atoi (argv ! 2)) (\<lambda>port.
       bindR (epoll_get_sock pton socket_ok bind_ok listen_ok (argv ! 1) port w) (\<lambda>(sock, addr, w1).
         case fd_new EpollSet w1 of
           (None, w2) \<Rightarrow> Fail AssertFail
         | (Some epoll_fd, w2) \<Rightarrow>
             Ret (epoll_loop create_ok ws sock (addfd sock True (start_epoll sndbuf w2 pending))))))"

section \<open>What the handlers do\<close>

lemma addfd_simps [simp]:
  "ep_world (addfd f b s) = set_nonblocking (ep_sndbuf s) f (ep_world s)" "ep_pending (addfd f b s) = ep_pending s"
  "ep_threads (addfd f b s) = ep_threads s" "ep_connfd (addfd f b s) = ep_connfd s" "ep_sndbuf (addfd f b s) = ep_sndbuf s"
  by (simp_all add: addfd_def setnonblocking_def epoll_add_def Let_def split: option.split)

lemma set_nonblocking_socket:
  "fd_get w f = Some (Socket r t None) \<Longrightarrow> set_nonblocking k f w = fd_set f (Some (Socket r t (Some k))) w"
  by (simp add: set_nonblocking_def nonblocking_object_def)

lemma threads_of_events:
  assumes "\<forall>ev\<in>set evs. ev_fd ev \<noteq> l \<and> ev_events ev AND EPOLLIN \<noteq> 0" "\<forall>k. create_ok k"
  shows "epoll_et create_ok evs l s = s\<lparr>ep_threads := ep_threads s @ replicate (length evs) (ep_connfd s)\<rparr>"
  using assms by (induction evs arbitrary: s) (simp_all add: Let_def)

lemma ready_bytes_take: "ready_bytes n (map Byte cs) = take n cs"
  by (induction cs arbitrary: n) (case_tac n; simp)+

lemma recv_chunk_map:
  assumes "cs \<noteq> []" "0 < n"
  shows "recv_chunk n (map Byte cs) = (int (length (take n cs)), take n cs, map Byte (drop n cs))"
proof -
  obtain c cs' where cs: "cs = c # cs'" using assms(1) by (cases cs) auto
  then have "recv_chunk n (map Byte cs) =
      (let d = ready_bytes n (map Byte cs) in (int (length d), d, drop (length d) (map Byte cs)))"
    by (simp add: recv_chunk_def)
  then show ?thesis by (simp add: ready_bytes_take drop_map min_def)
qed

text \<open>Cutting a text into pieces of \<open>n\<close> characters.\<close>

function pieces :: "nat \<Rightarrow> string \<Rightarrow> string list" where
  "pieces n cs = (if cs = [] \<or> n = 0 then [] else take n cs # pieces n (drop n cs))"
  by pat_completeness auto
termination
  by (relation "measure (\<lambda>(n, cs). length cs)") auto

declare pieces.simps [simp del]

lemma concat_pieces: "0 < n \<Longrightarrow> concat (pieces n cs) = cs"
proof (induction n cs rule: pieces.induct)
  case (1 n cs)
  then show ?case by (subst pieces.simps) auto
qed

lemma no_nul_take [simp]: "no_nul cs \<Longrightarrow> no_nul (take n cs)" "no_nul cs \<Longrightarrow> no_nul (drop n cs)"
  by (auto simp: no_nul_def dest: in_set_takeD in_set_dropD)

lemma drain_all:
  assumes "no_nul cs"
  shows "drain again (map Byte cs) = Ret (map (\<lambda>c. content_line (length c) c) (pieces 127 cs), True, [])"
  using assms
proof (induction "127 :: nat" cs rule: pieces.induct)
  case (1 cs)
  show ?case
  proof (cases "cs = []")
    case True
    then show ?thesis by (simp add: drain.simps [of again "[]"] recv_chunk_def pieces.simps)
  next
    case False
    have e: "E_BUF_SIZE - Suc 0 = 127" by (simp add: E_BUF_SIZE_def)
    have "put (zeros E_BUF_SIZE) 0 (take 127 cs) = cbuf E_BUF_SIZE (take 127 cs)"
      by (intro put_zeros) (simp add: E_BUF_SIZE_def)
    then have "cstr (put (zeros E_BUF_SIZE) 0 (take 127 cs)) = Ret (take 127 cs)"
      using 1(2) by (simp add: cstr_cbuf E_BUF_SIZE_def)
    moreover have "drain again (map Byte (drop 127 cs)) =
        Ret (map (\<lambda>c. content_line (length c) c) (pieces 127 (drop 127 cs)), True, [])"
      using 1(1) 1(2) False by simp
    ultimately show ?thesis
      using False recv_chunk_map [OF False, of 127]
      by (subst drain.simps, subst pieces.simps) (simp add: e)
  qed
qed

text \<open>A line of the log for one readable socket, level-triggered.\<close>

lemma memset4: "4 \<le> length buf \<Longrightarrow> memset0 buf 4 = Ret (zeros 4 @ drop 4 buf)"
  by (simp add: memset0_def)

lemma put_over_cleared:
  assumes "4 \<le> length d" "length d \<le> length buf"
  shows "put (zeros 4 @ drop 4 buf) 0 d = d @ drop (length d) buf"
  using assms by (simp add: put_0)

lemma lt_event:
  assumes "length buf = E_BUF_SIZE" "4 \<le> length d" "length d \<le> E_BUF_SIZE" "f \<noteq> l"
    "ev = \<lparr>ev_fd = f, ev_events = EPOLLIN\<rparr>" "fd_get (ep_world s) f = Some (Socket (map Byte d) t m)"
  shows "epoll_lt buf [ev] l s =
    bindR (cstr (d @ drop (length d) buf)) (\<lambda>text.
      Ret (s\<lparr>ep_world := set_rx f [] (ep_world s), ep_out := ep_out s @ [content_line (length d) text]\<rparr>))"
proof -
  have "d \<noteq> []" "0 < E_BUF_SIZE" using assms(2) by (auto simp: E_BUF_SIZE_def)
  with assms(3) have "recv_chunk E_BUF_SIZE (map Byte d) = (int (length d), d, [])"
    using recv_chunk_map [of d E_BUF_SIZE] by simp
  moreover have "memset0 buf 4 = Ret (zeros 4 @ drop 4 buf)" using assms(1) by (intro memset4) (simp add: E_BUF_SIZE_def)
  moreover have "put (zeros 4 @ drop 4 buf) 0 d = d @ drop (length d) buf"
    using assms(1-3) by (intro put_over_cleared) simp_all
  ultimately show ?thesis
    using assms(4-6) \<open>d \<noteq> []\<close> by (simp add: epoll_lt_def sock_rx_def EPOLLIN_def)
qed

section \<open>A request, end to end\<close>

definition epoll_wire_ok :: "string \<Rightarrow> string \<Rightarrow> string \<Rightarrow> string list \<Rightarrow> bool" where
  "epoll_wire_ok m u t hs \<longleftrightarrow> token m \<and> token u \<and> token (t @ [LF]) \<and>
     length (request_line m u t) + 1 < E_SIZE \<and> length m < E_METHOD_SIZE \<and> length u < E_URL_SIZE \<and>
     length (resource_path (spec_resource m u)) < E_PATH_SIZE \<and>
     (\<forall>c\<in>set (request_line m u t). \<not> terminator c) \<and> (\<forall>h\<in>set hs. good_header E_SIZE h)"

lemma epoll_get_request:
  assumes "epoll_wire_ok m u t hs"
    "fd_get w sock = Some (Socket (crlf_line (request_line m u t) @ header_block hs @ rest) tx room)"
  shows "epoll_accept_request sock w =
    (let w1 = fd_set sock (Some (Socket (header_block hs @ rest) tx room)) w; rq = epoll_parsed m u in
     if er_cgi rq = 0 then
       bindR (epoll_exec_get sock (er_path rq) w1) (\<lambda>w2. Ret (epoll_sock_tx sock w2, close sock w2))
     else Ret (epoll_sock_tx sock w1, close sock w1))"
proof -
  let ?l = "request_line m u t"
  have plain: "\<forall>c\<in>set ?l. \<not> terminator c" and len: "length ?l + 1 < E_SIZE"
    using assms(1) by (simp_all add: epoll_wire_ok_def)
  have lf: "request_line m u (t @ [LF]) = ?l @ [LF]" by (simp add: request_line_def)
  have "put (zeros E_SIZE) 0 (?l @ [LF, NUL]) = cbuf E_SIZE (?l @ [LF])"
    using len by (simp add: put_0 cbuf_split)
  then have "epoll_get_line E_SIZE (zeros E_SIZE) (sock_rx sock w) =
      Ret (Suc (length ?l), cbuf E_SIZE (?l @ [LF]), header_block hs @ rest)"
    using get_line_crlf(2) [OF plain len, of "zeros E_SIZE" "header_block hs @ rest"] assms(2)
    by (simp add: sock_rx_def)
  moreover have "get_method_path_url (cbuf E_SIZE (?l @ [LF])) init_epoll_request = Ret (epoll_parsed m u)"
    using epoll_parse_eq [of m u "t @ [LF]"] assms(1) by (simp add: lf epoll_wire_ok_def)
  moreover have "set_rx sock (header_block hs @ rest) w = fd_set sock (Some (Socket (header_block hs @ rest) tx room)) w"
    using assms(2) by (simp add: set_rx_def)
  ultimately show ?thesis by (simp add: epoll_accept_request_def Let_def)
qed

section \<open>Properties\<close>

text \<open>C18. The edge-triggered server hands every request to the wrong client as soon as two are connected: the
  thread gets the static \<open>connfd\<close>, the connection accepted last, whichever socket became readable.  After
  two clients have connected, any number of readable sockets starts that many threads, all of them on
  the second connection; the input of the first is never read.\<close>
theorem epoll_threads_get_last_client:
  assumes "ep_pending s = Some r1 # Some r2 # ps" "2 \<le> free_count (ep_world s)" "fd_get (ep_world s) l \<noteq> None"
    "\<forall>ev\<in>set evs. ev_fd ev \<noteq> l \<and> ev_events ev AND EPOLLIN \<noteq> 0" "\<forall>k. create_ok k"
  shows "\<exists>a b s'. a \<noteq> b \<and>
    epoll_et create_ok (\<lparr>ev_fd = l, ev_events = EPOLLIN\<rparr> # \<lparr>ev_fd = l, ev_events = EPOLLIN\<rparr> # evs) l s = s' \<and>
    ep_threads s' = ep_threads s @ replicate (length evs) (Some b) \<and>
    sock_rx (Some a) (ep_world s') = r1 \<and> sock_rx (Some b) (ep_world s') = r2"
proof -
  let ?w = "ep_world s"
  have pos: "0 < free_count ?w" using assms(2) by simp
  obtain a where a: "fd_new (Socket r1 [] None) ?w = (Some a, fd_set (Some a) (Some (Socket r1 [] None)) ?w)"
    "a < length (fds ?w)" "fd_get ?w (Some a) = None"
    "free_count (fd_set (Some a) (Some (Socket r1 [] None)) ?w) = free_count ?w - 1"
    using fd_new_free [OF pos, of "Socket r1 [] None"] by (auto simp: fd_set_def fd_get_def)
  define s1 where "s1 = addfd (Some a) True (s\<lparr>ep_world := fd_set (Some a) (Some (Socket r1 [] None)) ?w,
    ep_pending := Some r2 # ps, ep_connfd := Some a\<rparr>)"
  have w1: "ep_world s1 = fd_set (Some a) (Some (Socket r1 [] (Some (ep_sndbuf s)))) ?w"
    "ep_pending s1 = Some r2 # ps" "ep_threads s1 = ep_threads s"
    using a(2) by (simp_all add: s1_def set_nonblocking_socket)
  have "free_count (ep_world s1) = free_count ?w - 1"
    using a(2,4) free_count_set_used [of "fd_set (Some a) (Some (Socket r1 [] None)) ?w" "Some a"
      "Socket r1 [] None" "Socket r1 [] (Some (ep_sndbuf s))"] by (simp add: w1(1))
  then have pos1: "0 < free_count (ep_world s1)" using assms(2) by simp
  obtain b where b: "fd_new (Socket r2 [] None) (ep_world s1) = (Some b, fd_set (Some b) (Some (Socket r2 [] None)) (ep_world s1))"
    "b < length (fds (ep_world s1))" "fd_get (ep_world s1) (Some b) = None"
    using fd_new_free [OF pos1, of "Socket r2 [] None"] by (auto simp: fd_set_def fd_get_def)
  have ab: "a \<noteq> b" using b(3) w1(1) a(2) by auto
  define s2 where "s2 = addfd (Some b) True (s1\<lparr>ep_world := fd_set (Some b) (Some (Socket r2 [] None)) (ep_world s1),
    ep_pending := ps, ep_connfd := Some b\<rparr>)"
  have w2: "ep_world s2 = fd_set (Some b) (Some (Socket r2 [] (Some (ep_sndbuf s1)))) (ep_world s1)"
    "ep_threads s2 = ep_threads s" "ep_connfd s2 = Some b"
    using b(2) w1(3) by (simp_all add: s2_def set_nonblocking_socket)
  have "epoll_et create_ok (\<lparr>ev_fd = l, ev_events = EPOLLIN\<rparr> # \<lparr>ev_fd = l, ev_events = EPOLLIN\<rparr> # evs) l s =
      epoll_et create_ok evs l s2"
    using a(1) b(1) w1(2) assms(1) by (simp add: accept_client_def s1_def s2_def)
  also have "\<dots> = s2\<lparr>ep_threads := ep_threads s2 @ replicate (length evs) (ep_connfd s2)\<rparr>"
    by (rule threads_of_events [OF assms(4,5)])
  finally show ?thesis
    using ab a(2) b(2) w1(1) w2 by (intro exI [of _ a] exI [of _ b]) (simp add: sock_rx_def)
qed

definition demo_epoll :: epoll_state where
  "demo_epoll = start_epoll 100 \<lparr>files = demo_files, fds = [Some (Listening 80), None, None, None]\<rparr>
     [Some [Byte CHR ''a''], Some [Byte CHR ''b'']]"

theorem epoll_threads_get_last_client_witness:
  "\<exists>a b s'. a \<noteq> b \<and> ep_threads s' = [Some b] \<and> sock_rx (Some a) (ep_world s') = [Byte CHR ''a''] \<and>
     epoll_et (\<lambda>k. True) [\<lparr>ev_fd = Some 0, ev_events = EPOLLIN\<rparr>, \<lparr>ev_fd = Some 0, ev_events = EPOLLIN\<rparr>,
       \<lparr>ev_fd = Some 1, ev_events = EPOLLIN\<rparr>] (Some 0) demo_epoll = s'"
  using epoll_threads_get_last_client [of demo_epoll "[Byte CHR ''a'']" "[Byte CHR ''b'']" "[]" "Some 0"
      "[\<lparr>ev_fd = Some 1, ev_events = EPOLLIN\<rparr>]" "\<lambda>k. True"]
  by (fastforce simp: demo_epoll_def start_epoll_def free_count_def fd_get_def EPOLLIN_def)

text \<open>The level-triggered handler prints old bytes: its \<open>memset\<close> clears four bytes, so behind a message
  the text goes on with what the buffer held before, up to the next NUL; when there is none, the
  output reads past the end of the buffer.\<close>
theorem epoll_lt_prints_stale_bytes:
  assumes "length buf = E_BUF_SIZE" "4 \<le> length d" "length d \<le> E_BUF_SIZE" "no_nul d" "f \<noteq> l"
    "fd_get (ep_world s) f = Some (Socket (map Byte d) t m)"
  shows "if NUL \<in> set (drop (length d) buf)
    then \<exists>s'. epoll_lt buf [\<lparr>ev_fd = f, ev_events = EPOLLIN\<rparr>] l s = Ret s' \<and>
      ep_out s' = ep_out s @ [content_line (length d) (d @ c_str (drop (length d) buf))]
    else epoll_lt buf [\<lparr>ev_fd = f, ev_events = EPOLLIN\<rparr>] l s = Fail OutOfBounds"
proof -
  note run = lt_event [OF assms(1-3,5) refl assms(6)]
  have "NUL \<notin> set d" using assms(4) by (simp add: no_nul_def)
  then have "cstr (d @ drop (length d) buf) = (if NUL \<in> set (drop (length d) buf)
      then Ret (d @ c_str (drop (length d) buf)) else Fail OutOfBounds)"
    using assms(4) by (simp add: cstr_def c_str_def takeWhile_append no_nul_def)
  with run show ?thesis by simp
qed

theorem epoll_lt_prints_stale_bytes_witness:
  "epoll_lt (replicate 128 CHR ''x'') [\<lparr>ev_fd = Some 1, ev_events = EPOLLIN\<rparr>] (Some 0)
     (demo_epoll\<lparr>ep_world := \<lparr>files = demo_files, fds = [None, Some (Socket (map Byte ''hello'') [] None)]\<rparr>\<rparr>) = Fail OutOfBounds"
  using epoll_lt_prints_stale_bytes [of "replicate 128 CHR ''x''" "''hello''" "Some 1" "Some 0"
      "demo_epoll\<lparr>ep_world := \<lparr>files = demo_files, fds = [None, Some (Socket (map Byte ''hello'') [] None)]\<rparr>\<rparr>" "[]" None]
  by (simp add: E_BUF_SIZE_def fd_get_def)

text \<open>The reading loop of the branch without threads ends and loses nothing: it prints the whole text in
  pieces of at most 127 bytes, in order, and closes the socket when the peer has.\<close>
theorem drain_prints_everything:
  assumes "no_nul cs"
  shows "\<exists>ps. drain again (map Byte cs) = Ret (map (\<lambda>c. content_line (length c) c) ps, True, []) \<and> concat ps = cs"
proof (intro exI conjI)
  show "drain again (map Byte cs) = Ret (map (\<lambda>c. content_line (length c) c) (pieces 127 cs), True, [])"
    using assms by (rule drain_all)
  show "concat (pieces 127 cs) = cs" by (rule concat_pieces) simp
qed

theorem drain_prints_everything_witness:
  "\<exists>ps. drain True (map Byte ''hello'') = Ret (map (\<lambda>c. content_line (length c) c) ps, True, []) \<and> concat ps = ''hello''"
  by (rule drain_prints_everything) simp

text \<open>C19. A request to the epoll server, from its bytes to its answer: a GET for an existing file is
  answered with as much of the file response as the send buffer takes, and the connection is closed; a
  CGI request is closed without any answer.\<close>
theorem epoll_request_answer:
  assumes "epoll_wire_ok ''GET'' u t hs"
    "fd_get w sock = Some (Socket (crlf_line (request_line ''GET'' u t) @ header_block hs @ rest) [] (Some room))"
    "files w (resource_path u) = Some (Regular c)" "2 \<le> free_count w"
  shows "\<exists>w'. epoll_accept_request sock w =
    Ret (if CHR ''?'' \<in> set u then [] else take room (file_response ''COntent-Type'' c), w') \<and> fd_get w' sock = None"
proof -
  let ?w1 = "fd_set sock (Some (Socket (header_block hs @ rest) [] (Some room))) w"
  note run = epoll_get_request [OF assms(1,2)]
  have get: "epoll_knows ''GET''" by (simp add: epoll_knows_def strcaseeq_def)
  have sock: "fd_get ?w1 sock = Some (Socket (header_block hs @ rest) [] (Some room))" using assms(2) by simp
  show ?thesis
  proof (cases "CHR ''?'' \<in> set u")
    case True
    with run get sock show ?thesis
      by (simp add: epoll_parsed_def spec_cgi_def epoll_sock_tx_def close_def Let_def assms(2))
  next
    case False
    have hs: "\<forall>h\<in>set hs. good_header E_SIZE h" using assms(1) by (simp add: epoll_wire_ok_def)
    have path: "cstr (cbuf E_PATH_SIZE (resource_path u)) = Ret (resource_path u)"
      using assms(1) False by (intro cstr_cbuf) (auto simp: epoll_wire_ok_def spec_resource_def token_no_nul)
    have "files ?w1 (resource_path u) = Some (Regular c)" "2 \<le> free_count ?w1"
      using assms(2-4) by (simp_all add: free_count_set_used)
    from epoll_files.serves [OF hs sock this, of "length c"] epoll_files.get_regular [OF path this(1), of sock]
    obtain w2 where "epoll_exec_get sock (cbuf E_PATH_SIZE (resource_path u)) ?w1 = Ret w2"
      "fd_get w2 sock = Some (Socket rest (take room (file_response ''COntent-Type'' c)) (room_left (Some room) (file_response ''COntent-Type'' c)))"
      by (auto simp: accepted_def)
    with run get False show ?thesis
      by (simp add: epoll_parsed_def spec_cgi_def spec_resource_def epoll_sock_tx_def close_def Let_def)
  qed
qed

theorem epoll_request_answer_witness:
  "\<exists>w'. epoll_accept_request (Some 0) \<lparr>files = demo_files,
      fds = [Some (Socket (crlf_line (request_line ''GET'' ''/a'' ''HTTP/1.1'') @ header_block [''Host: x''] @ []) [] (Some 10)), None, None]\<rparr>
    = Ret (take 10 (file_response ''COntent-Type'' ''hello''), w')"
proof -
  have "epoll_wire_ok ''GET'' ''/a'' ''HTTP/1.1'' [''Host: x'']"
    by (simp add: epoll_wire_ok_def token_def request_line_def size_defs resource_path_def
      spec_resource_def before_q_def terminator_def good_header_def)
  from epoll_request_answer [OF this, of "\<lparr>files = demo_files,
      fds = [Some (Socket (crlf_line (request_line ''GET'' ''/a'' ''HTTP/1.1'') @ header_block [''Host: x''] @ []) [] (Some 10)), None, None]\<rparr>"
      "Some 0" "[]" 10 "''hello''"]
  show ?thesis by (auto simp: fd_get_def demo_files_def resource_path_def free_count_def)
qed

end
