(* ===== verification/Race.thy ===== *)
theory Race
  imports Register
begin

text \<open>
  Sign-ins that run at the same time.  Every connection of the thread server has a thread of its own, and
  all threads share the global object \<open>server_class\<close>, the mutex, and the object \<open>localtime\<close> returns.  The
  steps below are those of \<open>send_vector\<close> and of everything it calls (\<open>server/server_http.h\<close>): one step of a
  thread takes the mutex, or runs a locked section to its end and gives the mutex back, or does what lies
  outside the sections up to the next access to the shared state.  Every locked section of the handler is a
  step of its own, also those that touch local strings only: the two of \<open>get_string\<close>, those of \<open>get_time\<close>,
  \<open>find_id\<close>, \<open>get_total_string\<close>, the four of \<open>int_to_string\<close>, the empty one around the commented call of
  \<open>my.insert\<close>, and the one around \<open>push_back\<close>.

  The search, the sign-out and \<open>show\<close> run outside the lock.  An iterator of the vector is a pair: the block of
  memory it points into (\<open>push_back\<close> takes a new block when the old one is full, and the iterators into the
  old one are invalid from then on) and the position.  A thread that uses an invalid iterator, or whose
  arithmetic leaves its type, is \<open>Undefined\<close>: the theorems describe a run up to that point, and a thread that
  becomes \<open>Undefined\<close> inside a section keeps the mutex.
\<close>

section \<open>Threads and their steps\<close>

text \<open>The locked sections; the iterator is the one the handler goes on with.\<close>

datatype field = Days | Hours | Minutes | Seconds

datatype locked = Naming | Numbering | Timing | Counting
  | Totalling nat nat | Appending field nat nat | Inserting | Pushing

text \<open>Where a thread is: in front of or inside a locked section; before the search; comparing the node at a
  position with its own; behind the locked \<open>size++\<close>, where \<open>find_id\<close> reads \<open>v.end()\<close> to return it; comparing
  the iterator that was returned with the \<open>v.end()\<close> of now; signing out a node: writing the number and the text
  of the time, adding the working time; reading one of the four numbers of the report; before \<open>show\<close>, and in
  its loop.  An iterator the search has found is never \<open>v.end()\<close>, so its comparison is left out.\<close>

datatype pc = Want locked | Inside locked
  | Finding | Searching nat nat | Counted | Comparing nat nat
  | SigningOut nat nat | Leaving nat nat | Calculating nat nat | Reading field nat nat
  | ShowStart | Showing nat nat | Finished | Undefined

abbreviation Starting :: pc where "Starting \<equiv> Want Naming"

text \<open>\<open>t_name\<close> and \<open>t_id\<close> are what the two sections of \<open>get_string\<close> take out of the thread's own query
  (theory \<open>Query\<close>).  \<open>t_line\<close> is \<open>total_string\<close> with the string of \<open>int_to_string\<close> behind it, \<open>t_buf\<close> the
  number that is to be appended next, \<open>t_report\<close> the line behind \<open>total :\<close>, \<open>t_shown\<close> what \<open>show\<close> has
  printed.\<close>

record thread =
  t_pc :: pc
  t_name :: string
  t_id :: string
  t_now :: nat
  t_line :: string
  t_buf :: string
  t_report :: "string option"
  t_shown :: string

text \<open>The shared state: the vector with its block and its capacity, \<open>size\<close>, the thread that holds the mutex,
  and the object of \<open>localtime\<close>.\<close>

record shared =
  sh_users :: "user_node list"
  sh_block :: nat
  sh_room :: nat
  sh_size :: nat
  sh_holder :: "nat option"
  sh_tm :: tm

type_synonym config = "shared \<times> thread list"

definition own_node :: "thread \<Rightarrow> user_node" where
  "own_node t = buynode (t_name t) (t_id t) [] [] 0"

definition own_time :: "nat \<Rightarrow> thread \<Rightarrow> string" where
  "own_time tz t = strftime (localtime tz (t_now t))"

text \<open>The two comparisons of \<open>find_id\<close>.\<close>

definition same_person :: "user_node \<Rightarrow> user_node \<Rightarrow> bool" where
  "same_person cur head \<longleftrightarrow> c_str (u_id cur) = c_str (u_id head) \<and> c_str (u_name cur) = c_str (u_name head)"

text \<open>The node \<open>push_back\<close> copies into the vector.\<close>

definition arrived :: "nat \<Rightarrow> tm \<Rightarrow> thread \<Rightarrow> user_node" where
  "arrived tz T t = (own_node t)\<lparr>start_time := int (mktime tz T), arrive_time := own_time tz t\<rparr>"

text \<open>The strings of the report: \<open>get_total_string\<close>, and the four numbers of \<open>int_to_string\<close> with what is
  appended behind each.\<close>

definition total_text :: "user_node \<Rightarrow> string" where
  "total_text u = u_name u @ '' '' @ u_id u @ '' '' @ arrive_time u @ '' '' @ leave_time u @ '' ''"

fun number :: "field \<Rightarrow> user_node \<Rightarrow> int" where
  "number Days u = int (u_data u)"
| "number Hours u = u_hour u"
| "number Minutes u = u_min u"
| "number Seconds u = u_sec u"

fun flag_behind :: "field \<Rightarrow> string" where
  "flag_behind Seconds = []"
| "flag_behind f = '':''"

fun next_pc :: "field \<Rightarrow> nat \<Rightarrow> nat \<Rightarrow> pc" where
  "next_pc Days b k = Reading Hours b k"
| "next_pc Hours b k = Reading Minutes b k"
| "next_pc Minutes b k = Reading Seconds b k"
| "next_pc Seconds b k = Want Inserting"

definition goto :: "pc \<Rightarrow> thread \<Rightarrow> thread" where
  "goto p t = t\<lparr>t_pc := p\<rparr>"

definition unlocked :: "shared \<Rightarrow> shared" where
  "unlocked s = s\<lparr>sh_holder := None\<rparr>"

text \<open>A use of an iterator into the block \<open>b\<close>.\<close>

definition using_block :: "nat \<Rightarrow> shared \<Rightarrow> thread \<Rightarrow> (shared \<times> thread) option \<Rightarrow> (shared \<times> thread) option" where
  "using_block b s t r = (if b = sh_block s then r else Some (s, goto Undefined t))"

text \<open>A locked section.  When the vector is full, \<open>push_back\<close> moves it to a new block, whose room beyond the new
  node is \<open>extra\<close>.\<close>

fun locked_section :: "nat \<Rightarrow> nat \<Rightarrow> shared \<Rightarrow> thread \<Rightarrow> locked \<Rightarrow> (shared \<times> thread) option" where
  "locked_section tz extra s t Naming = Some (unlocked s, goto (Want Numbering) t)"
| "locked_section tz extra s t Numbering = Some (unlocked s, goto (Want Timing) t)"
| "locked_section tz extra s t Timing =
     Some (unlocked (s\<lparr>sh_tm := localtime tz (t_now t)\<rparr>), goto Finding t)"
| "locked_section tz extra s t Counting = Some (unlocked (s\<lparr>sh_size := Suc (sh_size s)\<rparr>), goto Counted t)"
| "locked_section tz extra s t (Totalling b k) = using_block b s t
     (Some (unlocked s, goto (Reading Days b k) (t\<lparr>t_line := total_text (sh_users s ! k)\<rparr>)))"
| "locked_section tz extra s t (Appending f b k) =
     (let line = t_line t @ t_buf t @ flag_behind f in
      Some (unlocked s, goto (next_pc f b k)
        (t\<lparr>t_line := line, t_report := (if f = Seconds then Some line else t_report t)\<rparr>)))"
| "locked_section tz extra s t Inserting = Some (unlocked s, goto ShowStart t)"
| "locked_section tz extra s t Pushing =
     (let s1 = s\<lparr>sh_users := sh_users s @ [arrived tz (sh_tm s) t]\<rparr>;
          s2 = (if length (sh_users s) < sh_room s then s1
                else s1\<lparr>sh_block := Suc (sh_block s), sh_room := Suc (length (sh_users s)) + extra\<rparr>)
      in Some (unlocked s2, goto ShowStart t))"

text \<open>One step of thread \<open>i\<close>; \<open>None\<close>: it waits for the mutex, or has come to its end.\<close>

definition act :: "nat \<Rightarrow> nat \<Rightarrow> nat \<Rightarrow> shared \<Rightarrow> thread \<Rightarrow> (shared \<times> thread) option" where
  "act tz extra i s t =
    (case t_pc t of
       Want sec \<Rightarrow> if sh_holder s = None then Some (s\<lparr>sh_holder := Some i\<rparr>, goto (Inside sec) t) else None
     | Inside sec \<Rightarrow> locked_section tz extra s t sec
     | Finding \<Rightarrow> Some (s, goto (Searching (sh_block s) 0) t)
     | Searching b k \<Rightarrow> using_block b s t
         (Some (s, goto (if k = length (sh_users s) then Want Counting
                         else if same_person (sh_users s ! k) (own_node t) then SigningOut b k
                         else Searching b (Suc k)) t))
     | Counted \<Rightarrow> Some (s, goto (Comparing (sh_block s) (length (sh_users s))) t)
     | Comparing b k \<Rightarrow> using_block b s t
         (Some (s, goto (if k = length (sh_users s) then Want Pushing else SigningOut b k) t))
     | SigningOut b k \<Rightarrow> using_block b s t
         (Some (s\<lparr>sh_users := (sh_users s)[k := (sh_users s ! k)\<lparr>end_time := int (mktime tz (sh_tm s))\<rparr>]\<rparr>,
                goto (Leaving b k) t))
     | Leaving b k \<Rightarrow> using_block b s t
         (Some (s\<lparr>sh_users := (sh_users s)[k := (sh_users s ! k)\<lparr>leave_time := own_time tz t\<rparr>]\<rparr>,
                goto (Calculating b k) t))
     | Calculating b k \<Rightarrow> using_block b s t
         (case calculat_work_time (sh_users s ! k) of
            None \<Rightarrow> None
          | Some (Inl e) \<Rightarrow> Some (s, goto Undefined t)
          | Some (Inr u) \<Rightarrow> Some (s\<lparr>sh_users := (sh_users s)[k := u]\<rparr>, goto (Want (Totalling b k)) t))
     | Reading f b k \<Rightarrow> using_block b s t
         (let n = number f (sh_users s ! k) in
          if INT_MAX < n then Some (s, goto Undefined t)
          else Some (s, goto (Want (Appending f b k)) (t\<lparr>t_buf := int_str n\<rparr>)))
     | ShowStart \<Rightarrow> Some (s, goto (Showing (sh_block s) 0) (t\<lparr>t_shown := show_header\<rparr>))
     | Showing b k \<Rightarrow> using_block b s t
         (if k = length (sh_users s) then Some (s, goto Finished t)
          else Some (s, goto (Showing b (Suc k)) (t\<lparr>t_shown := t_shown t @ show_row (sh_users s ! k)\<rparr>)))
     | Finished \<Rightarrow> None
     | Undefined \<Rightarrow> None)"

text \<open>Any thread moves.\<close>

inductive step :: "nat \<Rightarrow> config \<Rightarrow> config \<Rightarrow> bool" for tz :: nat where
  moves: "i < length ts \<Longrightarrow> act tz extra i s (ts ! i) = Some (s', t) \<Longrightarrow> step tz (s, ts) (s', ts[i := t])"

inductive_cases step_elim: "step tz (s, ts) (s', ts')"

definition reach :: "nat \<Rightarrow> config \<Rightarrow> config \<Rightarrow> bool" where
  "reach tz = (step tz)\<^sup>*\<^sup>*"

definition can_move :: "nat \<Rightarrow> config \<Rightarrow> bool" where
  "can_move tz c \<longleftrightarrow> (\<exists>i < length (snd c). act tz 0 i (fst c) (snd c ! i) \<noteq> None)"

text \<open>\<open>room\<close> is the capacity of the vector at the start.\<close>

definition begin_all :: "user_node list \<Rightarrow> nat \<Rightarrow> thread list \<Rightarrow> config" where
  "begin_all us room ts = (\<lparr>sh_users = us, sh_block = 0, sh_room = max room (length us), sh_size = length us,
     sh_holder = None, sh_tm = Tm 0 0 0 0 0 0 0\<rparr>, ts)"

definition new_thread :: "string \<Rightarrow> string \<Rightarrow> nat \<Rightarrow> thread" where
  "new_thread name idn now = \<lparr>t_pc = Starting, t_name = name, t_id = idn, t_now = now, t_line = [], t_buf = [],
     t_report = None, t_shown = []\<rparr>"

definition fresh_threads :: "thread list \<Rightarrow> bool" where
  "fresh_threads ts \<longleftrightarrow> (\<forall>t\<in>set ts. t_pc t = Starting)"

text \<open>The threads \<open>is\<close> move one after the other, each one step.\<close>

fun run_schedule :: "nat \<Rightarrow> nat \<Rightarrow> nat list \<Rightarrow> config \<Rightarrow> config option" where
  "run_schedule tz extra [] c = Some c"
| "run_schedule tz extra (i # is) (s, ts) =
     (if i < length ts then
        (case act tz extra i s (ts ! i) of
           None \<Rightarrow> None
         | Some (s', t) \<Rightarrow> run_schedule tz extra is (s', ts[i := t]))
      else None)"

lemma reach_refl [simp]: "reach tz c c"
  by (simp add: reach_def)

lemma reach_step: "reach tz c c' \<Longrightarrow> step tz c' c'' \<Longrightarrow> reach tz c c''"
  by (simp add: reach_def)

lemma reach_trans: "reach tz c c' \<Longrightarrow> reach tz c' c'' \<Longrightarrow> reach tz c c''"
  unfolding reach_def by (rule rtranclp_trans)

lemma relpowp_reach: "(step tz ^^ n) c c' \<Longrightarrow> reach tz c c'"
  unfolding reach_def by (rule relpowp_imp_rtranclp)

lemma run_schedule_steps: "run_schedule tz extra is c = Some c' \<Longrightarrow> (step tz ^^ length is) c c'"
proof (induction "is" arbitrary: c)
  case (Cons i "is")
  obtain s ts where c: "c = (s, ts)" by (cases c)
  from Cons.prems obtain s' t where t: "i < length ts" "act tz extra i s (ts ! i) = Some (s', t)"
    "run_schedule tz extra is (s', ts[i := t]) = Some c'" by (auto simp: c split: if_splits option.splits)
  have "step tz c (s', ts[i := t])" unfolding c by (rule step.moves [OF t(1,2)])
  with Cons.IH [OF t(3)] show ?case unfolding list.size(4) by (metis One_nat_def add_Suc_right add_0_right relpowp_Suc_I2)
qed simp

lemmas run_schedule_reach = relpowp_reach [OF run_schedule_steps]

section \<open>What a step does\<close>

named_theorems act_simps \<open>one step of a thread\<close>

lemma goto_fields [simp]:
  "t_pc (goto p t) = p" "t_name (goto p t) = t_name t" "t_id (goto p t) = t_id t" "t_now (goto p t) = t_now t"
  "t_line (goto p t) = t_line t" "t_buf (goto p t) = t_buf t" "t_report (goto p t) = t_report t" "t_shown (goto p t) = t_shown t"
  by (simp_all add: goto_def)

lemma unlocked_fields [simp]:
  "sh_users (unlocked s) = sh_users s" "sh_block (unlocked s) = sh_block s" "sh_room (unlocked s) = sh_room s"
  "sh_size (unlocked s) = sh_size s" "sh_holder (unlocked s) = None" "sh_tm (unlocked s) = sh_tm s"
  by (simp_all add: unlocked_def)

declare act_def [act_simps] using_block_def [act_simps] Let_def [act_simps]

lemma own_cong:
  "t_name t = t_name r \<Longrightarrow> t_id t = t_id r \<Longrightarrow> own_node t = own_node r"
  "t_now t = t_now r \<Longrightarrow> own_time tz t = own_time tz r"
  by (simp_all add: own_node_def own_time_def)

lemma own_fields [simp]:
  "own_node (goto p t) = own_node t" "own_time tz (goto p t) = own_time tz t" "arrived tz T (goto p t) = arrived tz T t"
  "own_node (t\<lparr>t_line := x\<rparr>) = own_node t" "own_node (t\<lparr>t_buf := x\<rparr>) = own_node t"
  "own_node (t\<lparr>t_report := r\<rparr>) = own_node t" "own_node (t\<lparr>t_shown := x\<rparr>) = own_node t"
  by (simp_all add: own_node_def own_time_def arrived_def)

lemma same_person_iff: "same_person u h \<longleftrightarrow> person u = person h"
  by (auto simp: same_person_def person_def)

lemma person_arrived [simp]: "person (arrived tz T t) = person (own_node t)"
  by (simp add: arrived_def person_def)

definition same_thread :: "thread \<Rightarrow> thread \<Rightarrow> bool" where
  "same_thread t r \<longleftrightarrow> t_name t = t_name r \<and> t_id t = t_id r \<and> t_now t = t_now r"

lemma same_thread_own:
  "same_thread t r \<Longrightarrow> own_node t = own_node r" "same_thread t r \<Longrightarrow> own_time tz t = own_time tz r"
  by (simp_all add: same_thread_def own_node_def own_time_def)

text \<open>What the thread is called and when it came never changes.\<close>

lemma act_same_thread: "act tz extra i s t = Some (s', t') \<Longrightarrow> same_thread t' t"
  by (cases "t_pc t"; cases "case t_pc t of Inside sec \<Rightarrow> sec | _ \<Rightarrow> Naming")
    (auto simp: act_simps same_thread_def split: if_splits option.splits sum.splits)

lemmas act_own = same_thread_own [OF act_same_thread]

definition ended :: "pc \<Rightarrow> bool" where
  "ended p \<longleftrightarrow> p = Finished \<or> p = Undefined"

lemma ended_simps [simp]: "ended Finished" "ended Undefined" "\<not> ended (Want sec)" "\<not> ended (Inside sec)" "\<not> ended Finding"
  "\<not> ended (Searching b k)" "\<not> ended Counted" "\<not> ended (Comparing b k)" "\<not> ended (SigningOut b k)" "\<not> ended (Leaving b k)"
  "\<not> ended (Calculating b k)" "\<not> ended (Reading f b k)" "\<not> ended ShowStart" "\<not> ended (Showing b k)"
  by (simp_all add: ended_def)

lemma no_hang_case:
  assumes "no_hang m"
  shows "(\<exists>u. m = Ret u) \<or> (\<exists>e. m = Fail e)"
proof (cases m)
  case (Some r)
  then show ?thesis by (cases r) auto
qed (use assms in \<open>simp add: no_hang_def\<close>)

text \<open>A thread stands still when it has ended and when it wants the mutex and somebody has it.\<close>

lemma act_None_iff:
  "act tz extra i s t = None \<longleftrightarrow> ended (t_pc t) \<or> (\<exists>sec. t_pc t = Want sec) \<and> sh_holder s \<noteq> None"
proof (cases "t_pc t")
  case (Inside sec)
  then show ?thesis by (cases sec) (auto simp: act_simps)
next
  case (Calculating b k)
  with no_hang_case [OF no_hang_calculat [of "sh_users s ! k"]] show ?thesis by (auto simp: act_simps)
qed (auto simp: act_simps)

lemma can_move_iff: "can_move tz c \<longleftrightarrow> (\<exists>c'. step tz c c')"
proof
  assume "can_move tz c"
  then obtain i where "i < length (snd c)" "act tz 0 i (fst c) (snd c ! i) \<noteq> None" by (auto simp: can_move_def)
  then show "\<exists>c'. step tz c c'" using step.moves [of i "snd c" tz 0 "fst c"] by auto
next
  assume "\<exists>c'. step tz c c'"
  then obtain c' where "step tz c c'" by blast
  then show "can_move tz c"
  proof cases
    case (moves i ts extra s s' t)
    then have "act tz 0 i s (ts ! i) \<noteq> None" unfolding act_None_iff by (metis act_None_iff option.distinct(1))
    with moves show ?thesis by (auto simp: can_move_def)
  qed
qed

section \<open>The lock\<close>

definition inside :: "pc \<Rightarrow> bool" where
  "inside p \<longleftrightarrow> (\<exists>sec. p = Inside sec)"

lemma inside_simps [simp]: "inside (Inside sec)" "\<not> inside (Want sec)" "\<not> inside Finding" "\<not> inside (Searching b k)"
  "\<not> inside Counted" "\<not> inside (Comparing b k)" "\<not> inside (SigningOut b k)" "\<not> inside (Leaving b k)"
  "\<not> inside (Calculating b k)" "\<not> inside (Reading f b k)" "\<not> inside ShowStart" "\<not> inside (Showing b k)"
  "\<not> inside Finished" "\<not> inside Undefined"
  by (simp_all add: inside_def)

lemma next_pc_simps [simp]: "\<not> inside (next_pc f b k)" "\<not> ended (next_pc f b k)"
  by (cases f; simp)+

text \<open>Threads that have counted their person and may still push it.\<close>

fun counted :: "pc \<Rightarrow> bool" where
  "counted Counted \<longleftrightarrow> True"
| "counted (Comparing b k) \<longleftrightarrow> True"
| "counted (Want Pushing) \<longleftrightarrow> True"
| "counted (Inside Pushing) \<longleftrightarrow> True"
| "counted p \<longleftrightarrow> False"

lemma counted_next [simp]: "\<not> counted (next_pc f b k)"
  by (cases f) simp_all

definition pending :: "thread list \<Rightarrow> nat" where
  "pending ts = length (filter (\<lambda>t. counted (t_pc t)) ts)"

definition lock_inv :: "config \<Rightarrow> bool" where
  "lock_inv c \<longleftrightarrow> (case c of (s, ts) \<Rightarrow>
     (\<forall>i < length ts. inside (t_pc (ts ! i)) \<longrightarrow> sh_holder s = Some i) \<and>
     (\<forall>i. sh_holder s = Some i \<longrightarrow> i < length ts \<and> (inside (t_pc (ts ! i)) \<or> t_pc (ts ! i) = Undefined)) \<and>
     length (sh_users s) + pending ts \<le> sh_size s)"

lemma filter_update:
  "i < length xs \<Longrightarrow> length (filter P (xs[i := y])) + (if P (xs ! i) then 1 else 0) =
     length (filter P xs) + (if P y then 1 else 0)"
  by (subst (3) id_take_nth_drop [of i xs], simp, subst upd_conv_take_nth_drop, simp) simp

lemma pending_update: "i < length ts \<Longrightarrow>
    pending (ts[i := t]) + (if counted (t_pc (ts ! i)) then 1 else 0) = pending ts + (if counted (t_pc t) then 1 else 0)"
  using filter_update [of i ts "\<lambda>t. counted (t_pc t)" t] by (simp add: pending_def)

text \<open>A thread that takes the mutex found it free; one that leaves its section gives it back, unless it is
  undefined there; the other steps leave it alone.\<close>

lemma act_holder:
  assumes "act tz extra i s t = Some (s', t')"
  shows "if inside (t_pc t) then \<not> inside (t_pc t') \<and> (sh_holder s' = None \<or> sh_holder s' = sh_holder s \<and> t_pc t' = Undefined)
    else if inside (t_pc t') then sh_holder s = None \<and> sh_holder s' = Some i
    else sh_holder s' = sh_holder s"
proof (cases "t_pc t")
  case (Inside sec)
  with assms show ?thesis by (cases sec) (auto simp: act_simps split: if_splits)
qed (use assms in \<open>auto simp: act_simps split: if_splits option.splits sum.splits\<close>)

text \<open>\<open>size\<close> is incremented before the vector grows.\<close>

lemma act_counts:
  assumes "act tz extra i s t = Some (s', t')"
  shows "length (sh_users s') + sh_size s + (if counted (t_pc t') then 1 else 0)
     \<le> length (sh_users s) + sh_size s' + (if counted (t_pc t) then 1 else 0)"
proof (cases "t_pc t")
  case (Inside sec)
  with assms show ?thesis by (cases sec) (auto simp: act_simps split: if_splits)
next
  case (Want sec)
  with assms show ?thesis by (cases sec) (auto simp: act_simps split: if_splits)
next
  case (Comparing b k)
  with assms show ?thesis
    by (cases "b = sh_block s"; cases "k = length (sh_users s)") (auto simp: act_simps)
next
  case (Calculating b k)
  with assms show ?thesis
    by (cases "b = sh_block s") (auto simp: act_simps split: option.splits sum.splits)
next
  case (Reading f b k)
  with assms show ?thesis
    by (cases "b = sh_block s"; cases "INT_MAX < number f (sh_users s ! k)") (auto simp: act_simps)
next
  case (Showing b k)
  with assms show ?thesis
    by (cases "b = sh_block s"; cases "k = length (sh_users s)") (auto simp: act_simps)
next
  case (Searching b k)
  with assms show ?thesis
    by (cases "b = sh_block s"; cases "k = length (sh_users s)"; cases "same_person (sh_users s ! k) (own_node t)")
      (auto simp: act_simps)
next
  case (SigningOut b k)
  with assms show ?thesis by (cases "b = sh_block s") (auto simp: act_simps)
next
  case (Leaving b k)
  with assms show ?thesis by (cases "b = sh_block s") (auto simp: act_simps)
qed (use assms in \<open>auto simp: act_simps\<close>)

lemma add_le_balance:
  fixes n n' m m' p p' c c' :: nat
  assumes "n' + m + c' \<le> n + m' + c" "p' + c = p + c'" "n + p \<le> m"
  shows "n' + p' \<le> m'"
  using assms by linarith

lemma step_lock_inv:
  assumes "step tz c c'" "lock_inv c"
  shows "lock_inv c'"
  using assms(1)
proof cases
  case (moves i ts extra s s' t)
  note old = assms(2) [unfolded lock_inv_def moves(1) prod.case]
  note holder = act_holder [OF moves(4)]
  have busy: "t_pc (ts ! i) \<noteq> Undefined" using moves(4) act_None_iff [of tz extra i s "ts ! i"] by auto
  have own: "inside (t_pc (ts ! i)) \<longleftrightarrow> sh_holder s = Some i" using old busy moves(3) by blast
  have me: "inside (t_pc t) \<Longrightarrow> sh_holder s' = Some i" "sh_holder s' = Some i \<Longrightarrow> inside (t_pc t) \<or> t_pc t = Undefined"
    using holder own by (metis option.distinct(1))+
  have others: "sh_holder s' = Some j \<longleftrightarrow> sh_holder s = Some j" if "j \<noteq> i" for j
    using holder own that by (metis option.distinct(1) option.inject)
  have "sh_holder s' = Some j" if "j < length ts" "inside (t_pc (ts[i := t] ! j))" for j
  proof (cases "j = i")
    case False
    with that have "inside (t_pc (ts ! j))" by simp
    with old that(1) have "sh_holder s = Some j" by blast
    with others [OF False] show ?thesis by blast
  qed (use that me(1) in simp)
  moreover have "j < length ts \<and> (inside (t_pc (ts[i := t] ! j)) \<or> t_pc (ts[i := t] ! j) = Undefined)"
    if "sh_holder s' = Some j" for j
  proof (cases "j = i")
    case False
    with others that have "sh_holder s = Some j" by blast
    with old have "j < length ts \<and> (inside (t_pc (ts ! j)) \<or> t_pc (ts ! j) = Undefined)" by blast
    with False show ?thesis by simp
  qed (use that me(2) moves(3) in simp)
  moreover have "length (sh_users s') + pending (ts[i := t]) \<le> sh_size s'"
    by (rule add_le_balance [OF act_counts [OF moves(4)] pending_update [OF moves(3)] conjunct2 [OF conjunct2 [OF old]]])
  ultimately show ?thesis unfolding lock_inv_def moves(2) prod.case length_list_update by blast
qed

lemma reach_lock_inv: "reach tz c c' \<Longrightarrow> lock_inv c \<Longrightarrow> lock_inv c'"
  unfolding reach_def by (induction rule: rtranclp_induct) (auto intro: step_lock_inv)

lemma begin_lock_inv:
  assumes "fresh_threads ts"
  shows "lock_inv (begin_all us room ts)"
proof -
  have "filter (\<lambda>t. counted (t_pc t)) ts = []"
    using assms by (auto simp: fresh_threads_def filter_empty_conv)
  with assms show ?thesis by (auto simp: lock_inv_def begin_all_def pending_def fresh_threads_def)
qed

text \<open>The time object, \<open>size\<close> and the length of the vector change only at the end of a section.\<close>

lemma act_guarded:
  assumes "act tz extra i s t = Some (s', t')"
    and "sh_tm s' \<noteq> sh_tm s \<or> sh_size s' \<noteq> sh_size s \<or> length (sh_users s') \<noteq> length (sh_users s) \<or> sh_block s' \<noteq> sh_block s"
  shows "inside (t_pc t) \<and> sh_holder s' = None"
proof (cases "t_pc t")
  case (Inside sec)
  with assms show ?thesis by (cases sec) (auto simp: act_simps split: if_splits)
qed (use assms in \<open>auto simp: act_simps split: if_splits option.splits sum.splits\<close>)

section \<open>The vector\<close>

text \<open>What a thread knows about the people \<open>us\<close> who were in the vector at the start, and about the
  position it works on, when the vector has \<open>n\<close> nodes.\<close>

fun knows :: "user_node list \<Rightarrow> nat \<Rightarrow> string \<times> string \<Rightarrow> pc \<Rightarrow> bool" where
  "knows us n p (Searching b k) \<longleftrightarrow> k \<le> n \<and> p \<notin> person ` set (take k us)"
| "knows us n p (Want Counting) \<longleftrightarrow> p \<notin> person ` set us"
| "knows us n p (Inside Counting) \<longleftrightarrow> p \<notin> person ` set us"
| "knows us n p Counted \<longleftrightarrow> p \<notin> person ` set us"
| "knows us n p (Comparing b k) \<longleftrightarrow> k \<le> n \<and> p \<notin> person ` set us"
| "knows us n p (Want Pushing) \<longleftrightarrow> p \<notin> person ` set us"
| "knows us n p (Inside Pushing) \<longleftrightarrow> p \<notin> person ` set us"
| "knows us n p (SigningOut b k) \<longleftrightarrow> k < n"
| "knows us n p (Leaving b k) \<longleftrightarrow> k < n"
| "knows us n p (Calculating b k) \<longleftrightarrow> k < n"
| "knows us n p (Want (Totalling b k)) \<longleftrightarrow> k < n"
| "knows us n p (Inside (Totalling b k)) \<longleftrightarrow> k < n"
| "knows us n p (Reading f b k) \<longleftrightarrow> k < n"
| "knows us n p (Want (Appending f b k)) \<longleftrightarrow> k < n"
| "knows us n p (Inside (Appending f b k)) \<longleftrightarrow> k < n"
| "knows us n p (Showing b k) \<longleftrightarrow> k \<le> n"
| "knows us n p q \<longleftrightarrow> True"

lemma knows_mono: "knows us n p q \<Longrightarrow> n \<le> m \<Longrightarrow> knows us m p q"
  by (induction us n p q rule: knows.induct) auto

lemma knows_next: "k < n \<Longrightarrow> knows us n p (next_pc f b k)"
  by (cases f) simp_all

text \<open>Behind its visit of the vector: printing the table, or at its end.\<close>

fun at_show :: "pc \<Rightarrow> bool" where
  "at_show ShowStart \<longleftrightarrow> True"
| "at_show (Showing b k) \<longleftrightarrow> True"
| "at_show Finished \<longleftrightarrow> True"
| "at_show Undefined \<longleftrightarrow> True"
| "at_show p \<longleftrightarrow> False"

lemma person_calculat: "calculat_work_time v = Ret u \<Longrightarrow> person u = person v"
  by (auto simp: calculat_work_time_def to_int32_Ret person_def)

lemma map_person_update: "k < length us \<Longrightarrow> person u = person (us ! k) \<Longrightarrow> map person (us[k := u]) = map person us"
  by (metis list_update_id map_update)

text \<open>The vector keeps the people of the start at their places.\<close>

definition starts_with :: "user_node list \<Rightarrow> user_node list \<Rightarrow> bool" where
  "starts_with vs us \<longleftrightarrow> take (length us) (map person vs) = map person us"

lemma starts_with_length:
  assumes "starts_with vs us"
  shows "length us \<le> length vs"
proof -
  have "length (take (length us) (map person vs)) = length (map person us)" using assms by (simp only: starts_with_def)
  then show ?thesis by simp
qed

lemma starts_with_nth: "starts_with vs us \<Longrightarrow> k < length us \<Longrightarrow> person (vs ! k) = person (us ! k)"
proof -
  assume a: "starts_with vs us" "k < length us"
  then have "take (length us) (map person vs) ! k = map person us ! k" by (simp only: starts_with_def)
  with a starts_with_length [OF a(1)] show ?thesis by simp
qed

lemma knows_further:
  assumes "starts_with vs us" "p \<notin> person ` set (take k us)" "k < length vs" "person (vs ! k) \<noteq> p"
  shows "p \<notin> person ` set (take (Suc k) us)"
  using assms starts_with_nth [OF assms(1), of k] by (cases "k < length us") (auto simp: take_Suc_conv_app_nth)

text \<open>A step changes nobody's name and number; the only one who enters somebody is a thread in the last
  section.\<close>

lemma act_vector:
  assumes "act tz extra i s t = Some (s', t')" "starts_with (sh_users s) us"
    and "knows us (length (sh_users s)) (person (own_node t)) (t_pc t)"
  shows "knows us (length (sh_users s')) (person (own_node t)) (t_pc t')"
    and "at_show (t_pc t) \<Longrightarrow> at_show (t_pc t')"
    and "if t_pc t = Inside Pushing then t_pc t' = ShowStart \<and> sh_users s' = sh_users s @ [arrived tz (sh_tm s) t]
      else map person (sh_users s') = map person (sh_users s)"
proof -
  note len = starts_with_length [OF assms(2)]
  have "knows us (length (sh_users s')) (person (own_node t)) (t_pc t') \<and> (at_show (t_pc t) \<longrightarrow> at_show (t_pc t')) \<and>
    (if t_pc t = Inside Pushing then t_pc t' = ShowStart \<and> sh_users s' = sh_users s @ [arrived tz (sh_tm s) t]
      else map person (sh_users s') = map person (sh_users s))"
  proof (cases "t_pc t")
    case (Inside sec)
    with assms(1,3) show ?thesis
      by (cases sec) (auto simp: act_simps knows_next split: if_splits)
  next
    case (Want sec)
    with assms(1,3) show ?thesis by (cases sec) (auto simp: act_simps split: if_splits)
  next
    case (Searching b k)
    show ?thesis
    proof (cases "b = sh_block s")
      case False
      with assms(1) Searching show ?thesis by (auto simp: act_simps)
    next
      case True
      show ?thesis
      proof (cases "k = length (sh_users s)")
        case True
        with assms(1,3) Searching \<open>b = sh_block s\<close> len show ?thesis by (auto simp: act_simps)
      next
        case False
        with assms(3) Searching have k: "k < length (sh_users s)" "person (own_node t) \<notin> person ` set (take k us)" by auto
        show ?thesis
        proof (cases "person (sh_users s ! k) = person (own_node t)")
          case True
          with assms(1) Searching \<open>b = sh_block s\<close> k False show ?thesis by (auto simp: act_simps same_person_iff)
        next
          case other: False
          from knows_further [OF assms(2) k(2,1) other] assms(1) Searching \<open>b = sh_block s\<close> k False other
          show ?thesis by (auto simp: act_simps same_person_iff)
        qed
      qed
    qed
  next
    case (SigningOut b k)
    with assms(1,3) show ?thesis
      by (cases "b = sh_block s") (auto simp: act_simps map_person_update person_def)
  next
    case (Leaving b k)
    with assms(1,3) show ?thesis
      by (cases "b = sh_block s") (auto simp: act_simps map_person_update person_def)
  next
    case (Calculating b k)
    with assms(1,3) show ?thesis
      by (cases "b = sh_block s")
        (auto simp: act_simps map_person_update person_calculat split: option.splits sum.splits)
  next
    case (Comparing b k)
    with assms(1,3) show ?thesis
      by (cases "b = sh_block s"; cases "k = length (sh_users s)") (auto simp: act_simps)
  next
    case (Reading f b k)
    with assms(1,3) show ?thesis
      by (cases "b = sh_block s"; cases "INT_MAX < number f (sh_users s ! k)") (auto simp: act_simps)
  next
    case (Showing b k)
    with assms(1,3) show ?thesis
      by (cases "b = sh_block s"; cases "k = length (sh_users s)") (auto simp: act_simps)
  qed (use assms(1,3) in \<open>auto simp: act_simps\<close>)
  then show "knows us (length (sh_users s')) (person (own_node t)) (t_pc t')"
    and "at_show (t_pc t) \<Longrightarrow> at_show (t_pc t')"
    and "if t_pc t = Inside Pushing then t_pc t' = ShowStart \<and> sh_users s' = sh_users s @ [arrived tz (sh_tm s) t]
      else map person (sh_users s') = map person (sh_users s)" by blast+
qed

text \<open>\<open>ks\<close> are the threads that have pushed, in their order; \<open>ts0\<close> are the threads at the start.\<close>

definition people :: "user_node list \<Rightarrow> thread list \<Rightarrow> nat list \<Rightarrow> (string \<times> string) list" where
  "people us ts0 ks = map person us @ map (\<lambda>i. person (own_node (ts0 ! i))) ks"

definition entered :: "user_node list \<Rightarrow> thread list \<Rightarrow> thread list \<Rightarrow> nat list \<Rightarrow> bool" where
  "entered us ts0 ts ks \<longleftrightarrow> distinct ks \<and>
     (\<forall>i\<in>set ks. i < length ts \<and> at_show (t_pc (ts ! i)) \<and> person (own_node (ts0 ! i)) \<notin> person ` set us)"

definition vector_inv :: "user_node list \<Rightarrow> thread list \<Rightarrow> config \<Rightarrow> bool" where
  "vector_inv us ts0 c \<longleftrightarrow> (case c of (s, ts) \<Rightarrow>
     length ts = length ts0 \<and>
     (\<forall>i < length ts. own_node (ts ! i) = own_node (ts0 ! i) \<and>
        knows us (length (sh_users s)) (person (own_node (ts0 ! i))) (t_pc (ts ! i))) \<and>
     (\<exists>ks. map person (sh_users s) = people us ts0 ks \<and> entered us ts0 ts ks))"

lemma vector_invE:
  assumes "vector_inv us ts0 (s, ts)"
  obtains ks where "length ts = length ts0" "map person (sh_users s) = people us ts0 ks" "entered us ts0 ts ks"
    "starts_with (sh_users s) us"
    "\<And>i. i < length ts \<Longrightarrow> own_node (ts ! i) = own_node (ts0 ! i)"
    "\<And>i. i < length ts \<Longrightarrow> knows us (length (sh_users s)) (person (own_node (ts ! i))) (t_pc (ts ! i))"
proof -
  from assms obtain ks where "map person (sh_users s) = people us ts0 ks" "entered us ts0 ts ks"
    by (auto simp: vector_inv_def)
  with assms that [of ks] show thesis by (auto simp: vector_inv_def starts_with_def people_def)
qed

lemma vector_inv_length:
  assumes "vector_inv us ts0 (s, ts)"
  shows "length us \<le> length (sh_users s)" and "length (sh_users s) \<le> length us + length ts"
proof -
  obtain ks where ks: "map person (sh_users s) = people us ts0 ks" "entered us ts0 ts ks"
    using assms by (rule vector_invE)
  have len: "length (sh_users s) = length us + length ks" using arg_cong [OF ks(1), of length] by (simp add: people_def)
  have "card (set ks) \<le> card {..<length ts}" using ks(2) by (intro card_mono) (auto simp: entered_def)
  with len distinct_card [of ks] ks(2)
  show "length us \<le> length (sh_users s)" and "length (sh_users s) \<le> length us + length ts"
    by (simp_all add: entered_def)
qed

lemma entered_move:
  assumes "entered us ts0 ts ks" "i < length ts" "at_show (t_pc (ts ! i)) \<longrightarrow> at_show (t_pc t)"
  shows "entered us ts0 (ts[i := t]) ks"
  using assms by (auto simp: entered_def nth_list_update)

lemma entered_push:
  assumes "entered us ts0 ts ks" "i < length ts" "\<not> at_show (t_pc (ts ! i))" "at_show (t_pc t)"
    and "person (own_node (ts0 ! i)) \<notin> person ` set us"
  shows "entered us ts0 (ts[i := t]) (ks @ [i])"
  using assms by (auto simp: entered_def nth_list_update)

lemma step_vector_inv:
  assumes "step tz c c'" "vector_inv us ts0 c"
  shows "vector_inv us ts0 c'"
  using assms(1)
proof cases
  case (moves i ts extra s s' t)
  from assms(2) moves(1) have "vector_inv us ts0 (s, ts)" by simp
  then obtain ks where len: "length ts = length ts0" and ks: "map person (sh_users s) = people us ts0 ks" "entered us ts0 ts ks"
    and us: "starts_with (sh_users s) us" and own: "\<And>i. i < length ts \<Longrightarrow> own_node (ts ! i) = own_node (ts0 ! i)"
    and known: "\<And>i. i < length ts \<Longrightarrow> knows us (length (sh_users s)) (person (own_node (ts ! i))) (t_pc (ts ! i))"
    by (rule vector_invE) blast
  note v = act_vector [OF moves(4) us known [OF moves(3)]]
  let ?p = "person (own_node (ts ! i))"
  have grows: "length (sh_users s) \<le> length (sh_users s')"
    using v(3) by (auto split: if_splits dest!: arg_cong [where f = length])
  have "own_node (ts[i := t] ! j) = own_node (ts0 ! j) \<and>
      knows us (length (sh_users s')) (person (own_node (ts0 ! j))) (t_pc (ts[i := t] ! j))" if "j < length ts" for j
    using v(1) act_own(1) [OF moves(4)] own [OF that] knows_mono [OF known [OF that] grows] moves(3)
    by (cases "j = i") simp_all
  moreover have "\<exists>ks. map person (sh_users s') = people us ts0 ks \<and> entered us ts0 (ts[i := t]) ks"
  proof (cases "t_pc (ts ! i) = Inside Pushing")
    case True
    with v(3) have v3: "t_pc t = ShowStart" "sh_users s' = sh_users s @ [arrived tz (sh_tm s) (ts ! i)]" by simp_all
    have "?p \<notin> person ` set us" using known [OF moves(3)] True by simp
    with True v3 have "entered us ts0 (ts[i := t]) (ks @ [i])"
      using own [OF moves(3)] by (intro entered_push [OF ks(2) moves(3)]) simp_all
    moreover have "map person (sh_users s') = people us ts0 (ks @ [i])"
      using v3(2) ks(1) own [OF moves(3)] by (simp add: people_def)
    ultimately show ?thesis by blast
  next
    case False
    with v(3) have "map person (sh_users s') = people us ts0 ks" using ks(1) by simp
    with entered_move [OF ks(2) moves(3)] v(2) show ?thesis by blast
  qed
  ultimately show ?thesis unfolding vector_inv_def moves(2) prod.case length_list_update using len by blast
qed

lemma reach_vector_inv: "reach tz c c' \<Longrightarrow> vector_inv us ts0 c \<Longrightarrow> vector_inv us ts0 c'"
  unfolding reach_def by (induction rule: rtranclp_induct) (auto intro: step_vector_inv)

lemma begin_vector_inv: "fresh_threads ts \<Longrightarrow> vector_inv us ts (begin_all us room ts)"
  by (auto simp: vector_inv_def begin_all_def fresh_threads_def people_def entered_def intro!: exI [of _ "[]"])

section \<open>Runs come to an end\<close>

text \<open>The steps a thread has left, when the vector never has more than \<open>n\<close> nodes.\<close>

fun steps_left :: "nat \<Rightarrow> pc \<Rightarrow> nat" where
  "steps_left n (Want Naming) = 2 * n + 35"
| "steps_left n (Inside Naming) = 2 * n + 34"
| "steps_left n (Want Numbering) = 2 * n + 33"
| "steps_left n (Inside Numbering) = 2 * n + 32"
| "steps_left n (Want Timing) = 2 * n + 31"
| "steps_left n (Inside Timing) = 2 * n + 30"
| "steps_left n Finding = 2 * n + 29"
| "steps_left n (Searching b k) = 2 * n - k + 28"
| "steps_left n (Want Counting) = n + 27"
| "steps_left n (Inside Counting) = n + 26"
| "steps_left n Counted = n + 25"
| "steps_left n (Comparing b k) = n + 24"
| "steps_left n (Want Pushing) = n + 23"
| "steps_left n (Inside Pushing) = n + 22"
| "steps_left n (SigningOut b k) = n + 21"
| "steps_left n (Leaving b k) = n + 20"
| "steps_left n (Calculating b k) = n + 19"
| "steps_left n (Want (Totalling b k)) = n + 18"
| "steps_left n (Inside (Totalling b k)) = n + 17"
| "steps_left n (Reading f b k) = n + 7 + 3 * (case f of Days \<Rightarrow> 3 | Hours \<Rightarrow> 2 | Minutes \<Rightarrow> 1 | Seconds \<Rightarrow> 0)"
| "steps_left n (Want (Appending f b k)) = n + 6 + 3 * (case f of Days \<Rightarrow> 3 | Hours \<Rightarrow> 2 | Minutes \<Rightarrow> 1 | Seconds \<Rightarrow> 0)"
| "steps_left n (Inside (Appending f b k)) = n + 5 + 3 * (case f of Days \<Rightarrow> 3 | Hours \<Rightarrow> 2 | Minutes \<Rightarrow> 1 | Seconds \<Rightarrow> 0)"
| "steps_left n (Want Inserting) = n + 4"
| "steps_left n (Inside Inserting) = n + 3"
| "steps_left n ShowStart = n + 2"
| "steps_left n (Showing b k) = n - k + 1"
| "steps_left n Finished = 0"
| "steps_left n Undefined = 0"

lemma act_steps_left:
  assumes "act tz extra i s t = Some (s', t')" "length (sh_users s) \<le> n" "knows us (length (sh_users s)) p (t_pc t)"
  shows "steps_left n (t_pc t') < steps_left n (t_pc t)"
proof (cases "t_pc t")
  case (Inside sec)
  show ?thesis
  proof (cases sec)
    case (Appending f b k)
    with Inside assms show ?thesis by (cases f) (auto simp: act_simps)
  qed (use Inside assms in \<open>auto simp: act_simps split: if_splits\<close>)
next
  case (Want sec)
  with assms show ?thesis by (cases sec) (auto simp: act_simps split: if_splits field.splits)
next
  case (Searching b k)
  with assms show ?thesis
    by (cases "b = sh_block s"; cases "k = length (sh_users s)"; cases "same_person (sh_users s ! k) (own_node t)")
      (auto simp: act_simps)
next
  case (Comparing b k)
  with assms show ?thesis
    by (cases "b = sh_block s"; cases "k = length (sh_users s)") (auto simp: act_simps)
next
  case (SigningOut b k)
  with assms show ?thesis by (cases "b = sh_block s") (auto simp: act_simps)
next
  case (Leaving b k)
  with assms show ?thesis by (cases "b = sh_block s") (auto simp: act_simps)
next
  case (Calculating b k)
  with assms show ?thesis
    by (cases "b = sh_block s") (auto simp: act_simps split: option.splits sum.splits)
next
  case (Reading f b k)
  with assms show ?thesis
    by (cases "b = sh_block s"; cases "INT_MAX < number f (sh_users s ! k)"; cases f) (auto simp: act_simps)
next
  case (Showing b k)
  with assms show ?thesis
    by (cases "b = sh_block s"; cases "k = length (sh_users s)") (auto simp: act_simps)
qed (use assms in \<open>auto simp: act_simps\<close>)

definition run_left :: "nat \<Rightarrow> thread list \<Rightarrow> nat" where
  "run_left n ts = (\<Sum>t\<leftarrow>ts. steps_left n (t_pc t))"

lemma run_left_update:
  "i < length ts \<Longrightarrow> run_left n (ts[i := t]) + steps_left n (t_pc (ts ! i)) = run_left n ts + steps_left n (t_pc t)"
  unfolding run_left_def
  by (subst (3) id_take_nth_drop [of i ts], simp, subst upd_conv_take_nth_drop, simp) simp

lemma step_run_left:
  assumes "step tz c c'" "vector_inv us ts0 c"
  shows "run_left (length us + length ts0) (snd c') < run_left (length us + length ts0) (snd c)"
  using assms(1)
proof cases
  case (moves i ts extra s s' t)
  from assms(2) moves(1) have inv: "vector_inv us ts0 (s, ts)" by simp
  then have "length ts = length ts0" "knows us (length (sh_users s)) (person (own_node (ts ! i))) (t_pc (ts ! i))"
    using moves(3) by (auto elim!: vector_invE)
  with act_steps_left [OF moves(4), of "length us + length ts0" us] vector_inv_length(2) [OF inv]
  have "steps_left (length us + length ts0) (t_pc t) < steps_left (length us + length ts0) (t_pc (ts ! i))" by simp
  with run_left_update [OF moves(3), of "length us + length ts0" t] show ?thesis by (simp add: moves)
qed

lemma run_bound:
  assumes "vector_inv us ts0 c" "(step tz ^^ k) c c'"
  shows "run_left (length us + length ts0) (snd c') + k \<le> run_left (length us + length ts0) (snd c)"
  using assms(2)
proof (induction k arbitrary: c')
  case 0
  then show ?case by simp
next
  case (Suc k)
  then obtain c1 where c1: "(step tz ^^ k) c c1" "step tz c1 c'" by auto
  have "vector_inv us ts0 c1" using reach_vector_inv [OF relpowp_reach [OF c1(1)] assms(1)] .
  from step_run_left [OF c1(2) this] Suc.IH [OF c1(1)] show ?case by simp
qed

text \<open>Every run can be continued until nobody can move.\<close>

lemma run_to_end:
  assumes "vector_inv us ts0 c"
  shows "\<exists>c'. reach tz c c' \<and> \<not> can_move tz c'"
  using assms
proof (induction "run_left (length us + length ts0) (snd c)" arbitrary: c rule: less_induct)
  case less
  show ?case
  proof (cases "can_move tz c")
    case True
    then obtain c1 where c1: "step tz c c1" by (auto simp: can_move_iff)
    from less.hyps [OF step_run_left [OF c1 less.prems] step_vector_inv [OF c1 less.prems]]
    obtain c' where "reach tz c1 c'" "\<not> can_move tz c'" by blast
    with c1 show ?thesis by (meson reach_refl reach_step reach_trans)
  qed (use reach_refl in blast)
qed

text \<open>A thread that waits for the mutex waits for one that is inside a section or has become undefined there.\<close>

lemma stuck:
  assumes "lock_inv (s, ts)" "\<not> can_move tz (s, ts)"
  shows "(\<forall>t\<in>set ts. ended (t_pc t)) \<or> (\<exists>i < length ts. sh_holder s = Some i \<and> t_pc (ts ! i) = Undefined)"
proof -
  have still: "act tz 0 i s (ts ! i) = None" if "i < length ts" for i using assms(2) that
    unfolding can_move_def fst_conv snd_conv by blast
  show ?thesis
  proof (cases "sh_holder s")
    case None
    then have "\<forall>t\<in>set ts. ended (t_pc t)" using still by (auto simp: act_None_iff in_set_conv_nth)
    then show ?thesis by blast
  next
    case (Some j)
    with assms(1) have j: "j < length ts" "inside (t_pc (ts ! j)) \<or> t_pc (ts ! j) = Undefined" by (auto simp: lock_inv_def)
    then have "t_pc (ts ! j) = Undefined" using still [OF j(1)] by (auto simp: act_None_iff inside_def)
    with Some j(1) show ?thesis by blast
  qed
qed

section \<open>Properties\<close>

lemma lock_inv_guarded:
  assumes "lock_inv (s, ts)" "step tz (s, ts) (s1, ts1)"
    and "sh_tm s1 \<noteq> sh_tm s \<or> sh_size s1 \<noteq> sh_size s \<or> length (sh_users s1) \<noteq> length (sh_users s)"
  shows "\<exists>i t. sh_holder s = Some i \<and> inside (t_pc (ts ! i)) \<and> ts1 = ts[i := t] \<and> sh_holder s1 = None"
proof -
  from assms(2) obtain i extra t where i: "i < length ts" "act tz extra i s (ts ! i) = Some (s1, t)" "ts1 = ts[i := t]"
    by (rule step_elim)
  from act_guarded [OF i(2)] assms(3) have "inside (t_pc (ts ! i))" "sh_holder s1 = None" by blast+
  moreover from this(1) i(1) assms(1) have "sh_holder s = Some i" unfolding lock_inv_def prod.case by blast
  ultimately show ?thesis using i(3) by blast
qed

text \<open>C6. Every locked section of the handler excludes every other: in every interleaving of any number of
  sign-ins at most one thread is inside a section, and it is the one that holds the mutex (a holder that is in no section
  has become undefined in one); the time object, \<open>size\<close> and the vector's length change only when the holder
  leaves its section, and with the mutex given back; and \<open>size\<close> is at least the length of the vector plus the number of threads
  that have counted their person and not yet entered him (it can be more: theory \<open>Race_Runs\<close>).\<close>
theorem race_mutual_exclusion:
  assumes "fresh_threads ts" "reach tz (begin_all us room ts) (s, ts')"
  shows "(\<forall>i < length ts'. \<forall>j < length ts'. inside (t_pc (ts' ! i)) \<and> inside (t_pc (ts' ! j)) \<longrightarrow> i = j) \<and>
     (\<forall>i < length ts'. inside (t_pc (ts' ! i)) \<longrightarrow> sh_holder s = Some i) \<and>
     (\<forall>i. sh_holder s = Some i \<longrightarrow> i < length ts' \<and> (inside (t_pc (ts' ! i)) \<or> t_pc (ts' ! i) = Undefined)) \<and>
     (\<forall>s1 ts1. step tz (s, ts') (s1, ts1) \<and>
        (sh_tm s1 \<noteq> sh_tm s \<or> sh_size s1 \<noteq> sh_size s \<or> length (sh_users s1) \<noteq> length (sh_users s)) \<longrightarrow>
        (\<exists>i t. sh_holder s = Some i \<and> inside (t_pc (ts' ! i)) \<and> ts1 = ts'[i := t] \<and> sh_holder s1 = None)) \<and>
     length (sh_users s) + pending ts' \<le> sh_size s"
proof -
  have inv: "lock_inv (s, ts')" using reach_lock_inv [OF assms(2)] begin_lock_inv [OF assms(1)] by simp
  then have "\<forall>i < length ts'. inside (t_pc (ts' ! i)) \<longrightarrow> sh_holder s = Some i"
    "\<forall>i. sh_holder s = Some i \<longrightarrow> i < length ts' \<and> (inside (t_pc (ts' ! i)) \<or> t_pc (ts' ! i) = Undefined)"
    "length (sh_users s) + pending ts' \<le> sh_size s" unfolding lock_inv_def prod.case by blast+
  moreover from this(1) have "\<forall>i < length ts'. \<forall>j < length ts'. inside (t_pc (ts' ! i)) \<and> inside (t_pc (ts' ! j)) \<longrightarrow> i = j"
    by (metis option.inject)
  ultimately show ?thesis using lock_inv_guarded [OF inv, of tz] by blast
qed

text \<open>A vector with one person in it, and two others who come at the same time.\<close>

definition demo_users :: "user_node list" where
  "demo_users = [buynode ''yan'' ''6'' ''now'' [] 0]"

definition demo_signers :: "thread list" where
  "demo_signers = [new_thread ''li'' ''7'' 100, new_thread ''wu'' ''8'' 200]"

lemma demo_fresh: "fresh_threads demo_signers"
  by (simp add: fresh_threads_def demo_signers_def new_thread_def)

lemmas demo_simps = begin_all_def demo_users_def demo_signers_def new_thread_def own_node_def buynode_def
  new_user_node_def same_person_def c_str_def goto_def unlocked_def arrived_def person_def

lemma run_scheduleE:
  assumes "\<exists>s ts. run_schedule tz extra is c = Some (s, ts) \<and> P s ts" "length is = n"
  obtains s ts where "(step tz ^^ n) c (s, ts)" "P s ts"
  using assms run_schedule_steps by metis

lemma all_less_two: "(\<forall>i < (2::nat). P i) \<longleftrightarrow> P 0 \<and> P 1"
  by (auto simp: less_Suc_eq numeral_2_eq_2)

lemma demo_both_counted:
  "\<exists>s ts. run_schedule 0 0 ([0,0,0,0,0,0,0,0,0,0,0,0,0] @ [1,1,1,1,1,1,1,1,1,1,1,1,1] @ [0])
     (begin_all demo_users 4 demo_signers) = Some (s, ts) \<and>
   t_pc (ts ! 0) = Inside Pushing \<and> t_pc (ts ! 1) = Want Pushing \<and> length ts = 2 \<and> length (sh_users s) = 1 \<and> sh_size s = 3"
  by (simp add: act_simps demo_simps)

theorem race_mutual_exclusion_witness:
  "\<exists>s ts. reach 0 (begin_all demo_users 4 demo_signers) (s, ts) \<and> t_pc (ts ! 0) = Inside Pushing \<and>
     t_pc (ts ! 1) = Want Pushing \<and> sh_holder s = Some 0 \<and> length (sh_users s) = 1 \<and> pending ts \<le> 2"
proof -
  obtain s ts where run: "reach 0 (begin_all demo_users 4 demo_signers) (s, ts)"
    and at: "t_pc (ts ! 0) = Inside Pushing \<and> t_pc (ts ! 1) = Want Pushing \<and> length ts = 2 \<and> length (sh_users s) = 1 \<and> sh_size s = 3"
    by (rule run_scheduleE [OF demo_both_counted refl]) (rule that [OF relpowp_reach])
  from race_mutual_exclusion [OF demo_fresh run] at have "sh_holder s = Some 0" "length (sh_users s) + pending ts \<le> 3"
    by (simp_all add: all_less_two)
  with run at show ?thesis by auto
qed

lemma demo_one_entered:
  "\<exists>s ts. run_schedule 0 0 ([0,0,0,0,0,0,0,0,0,0,0,0,0] @ [0,0,0,0,0,0] @ [1,1,1,1,1,1,1,1,1])
     (begin_all demo_users 4 demo_signers) = Some (s, ts) \<and>
   t_pc (ts ! 0) = Finished \<and> t_pc (ts ! 1) = Searching 0 2 \<and>
   map person (sh_users s) = [(''yan'', ''6''), (''li'', ''7'')]"
  by (simp add: act_simps demo_simps)

lemma demo_all_ended:
  "\<exists>s ts. run_schedule 0 0 ([0,0,0,0,0,0,0,0,0,0,0,0,0] @ [0,0,0,0,0,0] @ [1,1,1,1,1,1,1,1,1] @ [1,1,1,1,1,1,1,1,1,1,1,1])
     (begin_all demo_users 4 demo_signers) = Some (s, ts) \<and> sh_holder s = None \<and> \<not> can_move 0 (s, ts)"
  by (simp add: act_simps demo_simps can_move_def less_Suc_eq)

text \<open>C7. In every interleaving, what the vector says of the people only grows: those who were there stay
  where they were, and behind them come the people of some of the threads, each thread at most once and
  only after it has come to \<open>show\<close>.  So sign-ins of pairwise different people never enter anybody twice.\<close>
theorem race_vector_grows:
  assumes "fresh_threads ts" "reach tz (begin_all us room ts) (s, ts')"
  shows "(\<exists>ks. map person (sh_users s) = people us ts ks \<and> distinct ks \<and>
     (\<forall>i\<in>set ks. i < length ts \<and> at_show (t_pc (ts' ! i)) \<and> person (own_node (ts ! i)) \<notin> person ` set us)) \<and>
     (distinct (map person us) \<and> distinct (map (\<lambda>t. person (own_node t)) ts) \<longrightarrow> distinct (map person (sh_users s)))"
proof -
  have "vector_inv us ts (s, ts')" using reach_vector_inv [OF assms(2)] begin_vector_inv [OF assms(1)] by simp
  then obtain ks where "map person (sh_users s) = people us ts ks" "length ts' = length ts" "entered us ts ts' ks"
    by (rule vector_invE)
  then have ks: "map person (sh_users s) = people us ts ks" "distinct ks"
     "\<forall>i\<in>set ks. i < length ts \<and> at_show (t_pc (ts' ! i)) \<and> person (own_node (ts ! i)) \<notin> person ` set us"
    by (auto simp: entered_def)
  have "distinct (map person (sh_users s))"
    if d: "distinct (map person us)" "distinct (map (\<lambda>t. person (own_node t)) ts)"
  proof -
    from d(2) ks(2,3) have "distinct (map (\<lambda>i. person (own_node (ts ! i))) ks)"
      by (auto simp: distinct_map inj_on_def distinct_conv_nth nth_eq_iff_index_eq)
    with d(1) ks(1,3) show ?thesis by (auto simp: people_def)
  qed
  with ks show ?thesis by blast
qed

text \<open>\<open>li\<close> has been entered behind \<open>yan\<close> and his thread has ended; the thread of \<open>wu\<close> has passed both.\<close>

theorem race_vector_grows_witness:
  "\<exists>s ts ks. reach 0 (begin_all demo_users 4 demo_signers) (s, ts) \<and> t_pc (ts ! 0) = Finished \<and> t_pc (ts ! 1) = Searching 0 2 \<and>
     map person (sh_users s) = [(''yan'', ''6''), (''li'', ''7'')] \<and> distinct (map person (sh_users s)) \<and>
     map person (sh_users s) = people demo_users demo_signers ks \<and> distinct ks \<and> set ks = {0}"
proof -
  obtain s ts where run: "reach 0 (begin_all demo_users 4 demo_signers) (s, ts)"
    and "t_pc (ts ! 0) = Finished \<and> t_pc (ts ! 1) = Searching 0 2 \<and> map person (sh_users s) = [(''yan'', ''6''), (''li'', ''7'')]"
    by (rule run_scheduleE [OF demo_one_entered refl]) (rule that [OF relpowp_reach])
  then have at: "t_pc (ts ! 0) = Finished" "t_pc (ts ! 1) = Searching 0 2" "map person (sh_users s) = [(''yan'', ''6''), (''li'', ''7'')]"
    by simp_all
  note grows = race_vector_grows [OF demo_fresh run]
  have "length demo_signers = 2" by (simp add: demo_signers_def)
  with conjunct1 [OF grows] obtain ks where ks: "map person (sh_users s) = people demo_users demo_signers ks" "distinct ks"
    "\<forall>i\<in>set ks. i < 2 \<and> at_show (t_pc (ts ! i))" by metis
  have "length (people demo_users demo_signers ks) = length [(''yan'', ''6''), (''li'', ''7'')]" using ks(1) at(3) by (simp only:)
  then have "ks \<noteq> []" by (auto simp: people_def demo_users_def)
  moreover have "i = 0" if "i \<in> set ks" for i
  proof (cases "i = 1")
    case True
    with ks(3) that at(2) show ?thesis by fastforce
  qed (use ks(3) that in auto)
  ultimately have "set ks = {0}" by (cases ks) auto
  moreover have "distinct (map person (sh_users s))"
    by (rule mp [OF conjunct2 [OF grows]]) (simp add: demo_simps)
  ultimately show ?thesis using run at ks(1,2) by (intro exI [of _ s] exI [of _ ts] exI [of _ ks]) simp
qed

text \<open>C8. Every interleaving comes to an end: with \<open>n\<close> threads and \<open>m\<close> people there are at most
  \<open>n * (2 * (n + m) + 35)\<close> steps, and every run can be continued to a point where no thread can move; there, either
  every thread has come to its end, and none is waiting for the mutex or inside a section, or a thread has become
  undefined inside a section.\<close>
theorem race_ends:
  assumes "fresh_threads ts" "(step tz ^^ k) (begin_all us room ts) (s, ts')"
  shows "k \<le> length ts * (2 * (length us + length ts) + 35) \<and>
     (\<exists>c. reach tz (s, ts') c \<and> \<not> can_move tz c) \<and>
     (\<not> can_move tz (s, ts') \<longrightarrow> (\<forall>t\<in>set ts'. ended (t_pc t)) \<or>
        (\<exists>i < length ts'. sh_holder s = Some i \<and> t_pc (ts' ! i) = Undefined))"
proof -
  let ?n = "length us + length ts"
  have inv: "vector_inv us ts (s, ts')" "lock_inv (s, ts')"
    using reach_vector_inv [OF relpowp_reach [OF assms(2)]] begin_vector_inv [OF assms(1)]
      reach_lock_inv [OF relpowp_reach [OF assms(2)]] begin_lock_inv [OF assms(1)] by auto
  have "map (\<lambda>t. steps_left ?n (t_pc t)) ts = map (\<lambda>t. 2 * ?n + 35) ts"
    using assms(1) by (simp add: fresh_threads_def)
  then have "run_left ?n ts = (\<Sum>t\<leftarrow>ts. 2 * ?n + 35)" unfolding run_left_def by (rule arg_cong)
  then have "run_left ?n ts = length ts * (2 * ?n + 35)" by (simp add: sum_list_triv)
  with run_bound [OF begin_vector_inv [OF assms(1)] assms(2)]
  have "k \<le> length ts * (2 * ?n + 35)" by (simp add: begin_all_def)
  with run_to_end [OF inv(1), of tz] stuck [OF inv(2), of tz] show ?thesis by blast
qed

text \<open>Forty steps of the two, and nobody can move.\<close>

theorem race_ends_witness:
  "\<exists>s ts. (step 0 ^^ 40) (begin_all demo_users 4 demo_signers) (s, ts) \<and> \<not> can_move 0 (s, ts) \<and>
     (\<forall>t\<in>set ts. ended (t_pc t)) \<and> 40 \<le> length demo_signers * (2 * (length demo_users + length demo_signers) + 35)"
proof -
  obtain s ts where run: "(step 0 ^^ 40) (begin_all demo_users 4 demo_signers) (s, ts)"
    and still: "sh_holder s = None \<and> \<not> can_move 0 (s, ts)"
    by (rule run_scheduleE [OF demo_all_ended, of 40]) simp_all
  from race_ends [OF demo_fresh run] still have "\<forall>t\<in>set ts. ended (t_pc t)"
    "40 \<le> length demo_signers * (2 * (length demo_users + length demo_signers) + 35)" by simp_all
  with run still show ?thesis by blast
qed

end
