(* ===== verification/Race_Runs.thy ===== *)
theory Race_Runs
  imports Race
begin

text \<open>
  Particular runs of concurrent sign-ins (theory \<open>Race\<close>).  Threads that run one after another do what
  the sequential \<open>send_vector\<close> of theory \<open>Attendance\<close> does, whatever the memory allocator answers: this ties the
  two models of the handler together.  The runs after that are the ones in which the missing locks show.
\<close>

section \<open>A thread that is not disturbed\<close>

definition turn :: "nat \<Rightarrow> nat \<Rightarrow> shared \<times> thread \<Rightarrow> shared \<times> thread \<Rightarrow> bool" where
  "turn tz i c c' \<longleftrightarrow> (\<exists>extra. act tz extra i (fst c) (snd c) = Some c')"

definition alone :: "nat \<Rightarrow> nat \<Rightarrow> shared \<times> thread \<Rightarrow> shared \<times> thread \<Rightarrow> bool" where
  "alone tz i = (turn tz i)\<^sup>*\<^sup>*"

lemma alone_refl [simp]: "alone tz i c c"
  by (simp add: alone_def)

lemma alone_trans: "alone tz i c c' \<Longrightarrow> alone tz i c' c'' \<Longrightarrow> alone tz i c c''"
  unfolding alone_def by (rule rtranclp_trans)

lemma alone_act: "act tz extra i s t = Some c \<Longrightarrow> alone tz i (s, t) c"
  unfolding alone_def by (rule r_into_rtranclp) (auto simp: turn_def)

lemma alone_reach:
  assumes "alone tz i c c'" "i < length ts" "ts ! i = snd c"
  shows "reach tz (fst c, ts) (fst c', ts[i := snd c'])"
  using assms(1) unfolding alone_def
proof (induction rule: rtranclp_induct)
  case base
  show ?case using assms(2,3) by (metis list_update_id reach_refl)
next
  case (step c1 c2)
  then obtain extra where "act tz extra i (fst c1) (snd c1) = Some (fst c2, snd c2)" by (auto simp: turn_def)
  then have "step tz (fst c1, ts[i := snd c1]) (fst c2, (ts[i := snd c1])[i := snd c2])"
    using assms(2) by (intro step.moves [where extra = extra]) simp_all
  with step.IH show ?case by (simp add: reach_step)
qed

lemma alone_ends:
  assumes inv: "\<And>s t s' t' extra. P s t \<Longrightarrow> act tz extra i s t = Some (s', t') \<Longrightarrow> P s' t'"
    and fits: "\<And>s t. P s t \<Longrightarrow> length (sh_users s) \<le> n \<and> knows [] (length (sh_users s)) p (t_pc t)"
    and free: "\<And>s t sec. P s t \<Longrightarrow> t_pc t = Want sec \<Longrightarrow> sh_holder s = None"
    and start: "P s t"
  shows "\<exists>s' t'. alone tz i (s, t) (s', t') \<and> ended (t_pc t')"
  using start
proof (induction "steps_left n (t_pc t)" arbitrary: s t rule: less_induct)
  case less
  show ?case
  proof (cases "ended (t_pc t)")
    case False
    then obtain s1 t1 where a: "act tz 0 i s t = Some (s1, t1)"
      using free [OF less.prems] act_None_iff [of tz 0 i s t] by (cases "act tz 0 i s t") auto
    have "steps_left n (t_pc t1) < steps_left n (t_pc t)"
      using act_steps_left [OF a] fits [OF less.prems] by blast
    from less.hyps [OF this inv [OF less.prems a]] obtain s' t' where "alone tz i (s1, t1) (s', t')" "ended (t_pc t')" by blast
    with alone_act [OF a] alone_trans show ?thesis by blast
  qed (use alone_refl in blast)
qed

lemma alone_invariant:
  assumes "alone tz i (s, t) (s', t')" "P s t"
    and "\<And>s t s' t' extra. P s t \<Longrightarrow> act tz extra i s t = Some (s', t') \<Longrightarrow> P s' t'"
  shows "P s' t'"
proof -
  have "case c' of (s', t') \<Rightarrow> P s' t'" if "(turn tz i)\<^sup>*\<^sup>* (s, t) c'" for c'
    using that
  proof (induction rule: rtranclp_induct)
    case (step c1 c2)
    then show ?case using assms(3) by (cases c1; cases c2) (auto simp: turn_def)
  qed (use assms(2) in simp)
  with assms(1) show ?thesis by (auto simp: alone_def)
qed

section \<open>What it knows at every point\<close>

definition holds :: "shared \<Rightarrow> user_node list \<Rightarrow> nat \<Rightarrow> tm \<Rightarrow> nat option \<Rightarrow> bool" where
  "holds s us n T h \<longleftrightarrow> sh_users s = us \<and> sh_size s = n \<and> sh_tm s = T \<and> sh_holder s = h"

text \<open>The report before the number of a field is read.\<close>

fun told :: "field \<Rightarrow> user_node \<Rightarrow> string" where
  "told Days u = total_text u"
| "told Hours u = total_text u @ int_str (int (u_data u)) @ '':''"
| "told Minutes u = total_text u @ int_str (int (u_data u)) @ '':'' @ int_str (u_hour u) @ '':''"
| "told Seconds u = total_text u @ int_str (int (u_data u)) @ '':'' @ int_str (u_hour u) @ '':'' @ int_str (u_min u) @ '':''"

lemma told_all: "told Seconds u @ int_str (u_sec u) = report u"
  by (simp add: report_def total_text_def work_text_def)

definition vector_after :: "nat option \<Rightarrow> user_node list \<Rightarrow> user_node \<Rightarrow> user_node list" where
  "vector_after pos us u = (case pos of None \<Rightarrow> us @ [u] | Some k \<Rightarrow> us[k := u])"

definition size_after :: "nat option \<Rightarrow> nat \<Rightarrow> nat" where
  "size_after pos n = (case pos of None \<Rightarrow> Suc n | Some k \<Rightarrow> n)"

definition shown_rows :: "user_node list \<Rightarrow> string" where
  "shown_rows us = show_header @ concat (map show_row us)"

text \<open>\<open>us\<close>, \<open>n\<close> and \<open>T0\<close> are the vector, \<open>size\<close> and the time object before, \<open>pos\<close> is where the person is, and
  \<open>u\<close> the node after.\<close>

fun solo_pc :: "nat \<Rightarrow> nat \<Rightarrow> user_node list \<Rightarrow> nat \<Rightarrow> tm \<Rightarrow> nat option \<Rightarrow> user_node \<Rightarrow> shared \<Rightarrow> thread \<Rightarrow> pc \<Rightarrow> bool" where
  "solo_pc tz i us n T0 pos u s t (Want Naming) \<longleftrightarrow> holds s us n T0 None"
| "solo_pc tz i us n T0 pos u s t (Inside Naming) \<longleftrightarrow> holds s us n T0 (Some i)"
| "solo_pc tz i us n T0 pos u s t (Want Numbering) \<longleftrightarrow> holds s us n T0 None"
| "solo_pc tz i us n T0 pos u s t (Inside Numbering) \<longleftrightarrow> holds s us n T0 (Some i)"
| "solo_pc tz i us n T0 pos u s t (Want Timing) \<longleftrightarrow> holds s us n T0 None"
| "solo_pc tz i us n T0 pos u s t (Inside Timing) \<longleftrightarrow> holds s us n T0 (Some i)"
| "solo_pc tz i us n T0 pos u s t Finding \<longleftrightarrow> holds s us n (localtime tz (t_now t)) None"
| "solo_pc tz i us n T0 pos u s t (Searching b k) \<longleftrightarrow> holds s us n (localtime tz (t_now t)) None \<and> b = sh_block s \<and>
     (case pos of None \<Rightarrow> k \<le> length us | Some j \<Rightarrow> k \<le> j)"
| "solo_pc tz i us n T0 pos u s t (Want Counting) \<longleftrightarrow> pos = None \<and> holds s us n (localtime tz (t_now t)) None"
| "solo_pc tz i us n T0 pos u s t (Inside Counting) \<longleftrightarrow> pos = None \<and> holds s us n (localtime tz (t_now t)) (Some i)"
| "solo_pc tz i us n T0 pos u s t Counted \<longleftrightarrow> pos = None \<and> holds s us (Suc n) (localtime tz (t_now t)) None"
| "solo_pc tz i us n T0 pos u s t (Comparing b k) \<longleftrightarrow> pos = None \<and> holds s us (Suc n) (localtime tz (t_now t)) None \<and>
     b = sh_block s \<and> k = length us"
| "solo_pc tz i us n T0 pos u s t (Want Pushing) \<longleftrightarrow> pos = None \<and> holds s us (Suc n) (localtime tz (t_now t)) None"
| "solo_pc tz i us n T0 pos u s t (Inside Pushing) \<longleftrightarrow> pos = None \<and> holds s us (Suc n) (localtime tz (t_now t)) (Some i)"
| "solo_pc tz i us n T0 pos u s t (SigningOut b k) \<longleftrightarrow> pos = Some k \<and> b = sh_block s \<and>
     holds s us n (localtime tz (t_now t)) None"
| "solo_pc tz i us n T0 pos u s t (Leaving b k) \<longleftrightarrow> pos = Some k \<and> b = sh_block s \<and>
     holds s (us[k := (us ! k)\<lparr>end_time := int (t_now t)\<rparr>]) n (localtime tz (t_now t)) None"
| "solo_pc tz i us n T0 pos u s t (Calculating b k) \<longleftrightarrow> pos = Some k \<and> b = sh_block s \<and>
     holds s (us[k := leaving tz (t_now t) (us ! k)]) n (localtime tz (t_now t)) None"
| "solo_pc tz i us n T0 pos u s t (Want (Totalling b k)) \<longleftrightarrow> pos = Some k \<and> b = sh_block s \<and>
     holds s (us[k := u]) n (localtime tz (t_now t)) None"
| "solo_pc tz i us n T0 pos u s t (Inside (Totalling b k)) \<longleftrightarrow> pos = Some k \<and> b = sh_block s \<and>
     holds s (us[k := u]) n (localtime tz (t_now t)) (Some i)"
| "solo_pc tz i us n T0 pos u s t (Reading f b k) \<longleftrightarrow> pos = Some k \<and> b = sh_block s \<and>
     holds s (us[k := u]) n (localtime tz (t_now t)) None \<and> t_line t = told f u"
| "solo_pc tz i us n T0 pos u s t (Want (Appending f b k)) \<longleftrightarrow> pos = Some k \<and> b = sh_block s \<and>
     holds s (us[k := u]) n (localtime tz (t_now t)) None \<and> t_line t = told f u \<and> t_buf t = int_str (number f u)"
| "solo_pc tz i us n T0 pos u s t (Inside (Appending f b k)) \<longleftrightarrow> pos = Some k \<and> b = sh_block s \<and>
     holds s (us[k := u]) n (localtime tz (t_now t)) (Some i) \<and> t_line t = told f u \<and> t_buf t = int_str (number f u)"
| "solo_pc tz i us n T0 pos u s t (Want Inserting) \<longleftrightarrow> pos \<noteq> None \<and>
     holds s (vector_after pos us u) n (localtime tz (t_now t)) None \<and> t_report t = Some (report u)"
| "solo_pc tz i us n T0 pos u s t (Inside Inserting) \<longleftrightarrow> pos \<noteq> None \<and>
     holds s (vector_after pos us u) n (localtime tz (t_now t)) (Some i) \<and> t_report t = Some (report u)"
| "solo_pc tz i us n T0 pos u s t ShowStart \<longleftrightarrow>
     holds s (vector_after pos us u) (size_after pos n) (localtime tz (t_now t)) None \<and>
     t_report t = map_option (\<lambda>k. report u) pos"
| "solo_pc tz i us n T0 pos u s t (Showing b k) \<longleftrightarrow>
     holds s (vector_after pos us u) (size_after pos n) (localtime tz (t_now t)) None \<and>
     t_report t = map_option (\<lambda>k. report u) pos \<and> b = sh_block s \<and> k \<le> length (vector_after pos us u) \<and>
     t_shown t = shown_rows (take k (vector_after pos us u))"
| "solo_pc tz i us n T0 pos u s t Finished \<longleftrightarrow>
     holds s (vector_after pos us u) (size_after pos n) (localtime tz (t_now t)) None \<and>
     t_report t = map_option (\<lambda>k. report u) pos \<and> t_shown t = shown_rows (vector_after pos us u)"
| "solo_pc tz i us n T0 pos u s t Undefined \<longleftrightarrow> False"

definition solo :: "nat \<Rightarrow> nat \<Rightarrow> user_node list \<Rightarrow> nat \<Rightarrow> tm \<Rightarrow> nat option \<Rightarrow> user_node \<Rightarrow> shared \<Rightarrow> thread \<Rightarrow> bool" where
  "solo tz i us n T0 pos u s t \<longleftrightarrow> solo_pc tz i us n T0 pos u s t (t_pc t) \<and>
     find_pos us (own_node t) = pos \<and> (pos = None \<longrightarrow> u = arrived tz (localtime tz (t_now t)) t \<and> t_report t = None) \<and>
     (\<forall>k. pos = Some k \<longrightarrow> calculat_work_time (leaving tz (t_now t) (us ! k)) = Ret u \<and> (\<forall>f. number f u \<le> INT_MAX))"

lemma solo_goto:
  assumes "solo tz i us n T0 pos u s t" "same_thread t' t" "pos = None \<Longrightarrow> t_report t' = None"
    and "solo_pc tz i us n T0 pos u s' t' (t_pc t')"
  shows "solo tz i us n T0 pos u s' t'"
proof -
  have "own_node t' = own_node t" "own_time tz t' = own_time tz t" "t_now t' = t_now t"
    using assms(2) same_thread_own [OF assms(2)] by (simp_all add: same_thread_def)
  with assms show ?thesis by (simp add: solo_def arrived_def)
qed

lemma solo_search:
  assumes "find_pos us h = pos" "case pos of None \<Rightarrow> k \<le> length us | Some j \<Rightarrow> k \<le> j"
  shows "k = length us \<Longrightarrow> pos = None"
    and "k \<noteq> length us \<Longrightarrow> same_person (us ! k) h \<Longrightarrow> pos = Some k"
    and "k \<noteq> length us \<Longrightarrow> \<not> same_person (us ! k) h \<Longrightarrow> (case pos of None \<Rightarrow> Suc k \<le> length us | Some j \<Rightarrow> Suc k \<le> j)"
proof -
  have some: "j < length us \<and> same_person (us ! j) h \<and> (\<forall>l<j. \<not> same_person (us ! l) h)" if "pos = Some j" for j
    using find_pos_Some [of us h j] assms(1) that by (simp add: same_person_iff)
  have none: "\<not> same_person (us ! l) h" if "pos = None" "l < length us" for l
    using find_pos_None [of us h] assms(1) that by (metis image_eqI nth_mem same_person_iff)
  show "k = length us \<Longrightarrow> pos = None"
    using some assms(2) by (cases pos) auto
  show "k \<noteq> length us \<Longrightarrow> same_person (us ! k) h \<Longrightarrow> pos = Some k"
    using some none assms(2) by (cases pos) (auto simp: le_less)
  show "k \<noteq> length us \<Longrightarrow> \<not> same_person (us ! k) h \<Longrightarrow> (case pos of None \<Rightarrow> Suc k \<le> length us | Some j \<Rightarrow> Suc k \<le> j)"
    using some none assms(2) by (cases pos) (auto simp: le_less)
qed

lemma act_solo_section:
  assumes "act tz extra i s t = Some (s', t')" "solo tz i us n T0 pos u s t" "t_pc t = Inside sec"
  shows "solo_pc tz i us n T0 pos u s' t' (t_pc t')"
proof -
  from assms(2,3) have now: "solo_pc tz i us n T0 pos u s t (Inside sec)"
    and new: "pos = None \<Longrightarrow> u = arrived tz (localtime tz (t_now t)) t \<and> t_report t = None" by (auto simp: solo_def)
  show ?thesis
  proof (cases sec)
    case (Totalling b k)
    with now have "k < length us" using assms(2) find_pos_Some by (fastforce simp: solo_def)
    with assms(1,3) now Totalling show ?thesis by (auto simp: act_simps holds_def)
  next
    case (Appending f b k)
    with assms(1,3) now show ?thesis
      by (cases f) (auto simp: act_simps holds_def vector_after_def told_all [symmetric])
  next
    case Inserting
    with assms(1,3) now show ?thesis by (auto simp: act_simps holds_def size_after_def)
  next
    case Pushing
    with assms(1,3) now new show ?thesis by (auto simp: act_simps holds_def vector_after_def size_after_def)
  qed (use assms(1,3) now in \<open>auto simp: act_simps holds_def\<close>)
qed

lemma act_solo:
  assumes "act tz extra i s t = Some (s', t')" "solo tz i us n T0 pos u s t"
  shows "solo tz i us n T0 pos u s' t'"
proof (rule solo_goto [OF assms(2) act_same_thread [OF assms(1)]])
  from assms(2) have now: "solo_pc tz i us n T0 pos u s t (t_pc t)"
    and pos: "find_pos us (own_node t) = pos"
    and new: "pos = None \<Longrightarrow> u = arrived tz (localtime tz (t_now t)) t \<and> t_report t = None"
    and old: "\<And>k. pos = Some k \<Longrightarrow> calculat_work_time (leaving tz (t_now t) (us ! k)) = Ret u \<and> (\<forall>f. number f u \<le> INT_MAX)"
    by (auto simp: solo_def)
  have k: "k < length us" if "pos = Some k" for k using find_pos_Some [of us "own_node t"] pos that by blast
  show "pos = None \<Longrightarrow> t_report t' = None"
    using assms(1) new now
    by (cases "t_pc t"; cases "case t_pc t of Inside sec \<Rightarrow> sec | _ \<Rightarrow> Naming")
      (auto simp: act_simps split: if_splits option.splits sum.splits)
  show "solo_pc tz i us n T0 pos u s' t' (t_pc t')"
  proof (cases "t_pc t")
    case (Inside sec)
    with act_solo_section [OF assms] show ?thesis by blast
  next
    case (Want sec)
    with assms(1) now show ?thesis by (cases sec) (auto simp: act_simps holds_def split: if_splits)
  next
    case (Searching b k)
    with now have s: "sh_users s = us" "b = sh_block s" "case pos of None \<Rightarrow> k \<le> length us | Some j \<Rightarrow> k \<le> j"
      by (auto simp: holds_def)
    note search = solo_search [OF pos s(3)]
    show ?thesis using assms(1) now Searching s search
      by (cases "k = length us"; cases "same_person (us ! k) (own_node t)") (auto simp: act_simps holds_def)
  next
    case (SigningOut b k)
    with assms(1) now k show ?thesis by (auto simp: act_simps holds_def clock.put_break)
  next
    case (Leaving b k)
    with assms(1) now k show ?thesis by (auto simp: act_simps holds_def leaving_def own_time_def)
  next
    case (Calculating b k)
    with assms(1) now k old show ?thesis by (auto simp: act_simps holds_def)
  next
    case (Reading f b k)
    with now have "pos = Some k" by simp
    with old have "\<not> INT_MAX < number f u" by (simp add: not_less)
    with Reading assms(1) now k show ?thesis by (auto simp: act_simps holds_def)
  next
    case ShowStart
    with assms(1) now show ?thesis by (auto simp: act_simps holds_def shown_rows_def)
  next
    case (Showing b k)
    with assms(1) now show ?thesis
      by (cases "k = length (vector_after pos us u)")
        (auto simp: act_simps holds_def shown_rows_def take_Suc_conv_app_nth)
  next
    case Finding
    with assms(1) now show ?thesis by (auto simp: act_simps holds_def split: option.split)
  qed (use assms(1) now in \<open>auto simp: act_simps holds_def\<close>)
qed

lemma solo_fits:
  assumes "solo tz i us n T0 pos u s t"
  shows "length (sh_users s) \<le> Suc (length us) \<and> knows [] (length (sh_users s)) p (t_pc t)"
    and "t_pc t = Want sec \<Longrightarrow> sh_holder s = None" and "ended (t_pc t) \<Longrightarrow> t_pc t = Finished"
proof -
  from assms have now: "solo_pc tz i us n T0 pos u s t (t_pc t)" and pos: "find_pos us (own_node t) = pos"
    by (simp_all add: solo_def)
  have k: "k < length us" if "pos = Some k" for k using find_pos_Some [of us "own_node t"] pos that by blast
  have len: "length (vector_after pos us u) \<le> Suc (length us)" by (simp add: vector_after_def split: option.split)
  show "t_pc t = Want sec \<Longrightarrow> sh_holder s = None" using now by (cases sec) (auto simp: holds_def)
  show "ended (t_pc t) \<Longrightarrow> t_pc t = Finished" using now by (auto simp: ended_def)
  show "length (sh_users s) \<le> Suc (length us) \<and> knows [] (length (sh_users s)) p (t_pc t)"
  proof (cases "t_pc t")
    case (Want sec)
    with now k len show ?thesis by (cases sec) (auto simp: holds_def)
  next
    case (Inside sec)
    with now k len show ?thesis by (cases sec) (auto simp: holds_def)
  next
    case (Searching b k)
    with now k len show ?thesis by (auto simp: holds_def split: option.splits)
  qed (use now k len in \<open>auto simp: holds_def\<close>)
qed

lemma solo_finishes:
  assumes "solo tz i us n T0 pos u s t"
  shows "\<exists>s' t'. alone tz i (s, t) (s', t') \<and> ended (t_pc t')"
    and "alone tz i (s, t) (s', t') \<Longrightarrow> ended (t_pc t') \<Longrightarrow> t_pc t' = Finished \<and> solo tz i us n T0 pos u s' t'"
proof -
  show "\<exists>s' t'. alone tz i (s, t) (s', t') \<and> ended (t_pc t')"
    by (rule alone_ends [where P = "solo tz i us n T0 pos u", OF act_solo solo_fits(1,2) assms])
  assume run: "alone tz i (s, t) (s', t')" "ended (t_pc t')"
  have "solo tz i us n T0 pos u s' t'" by (rule alone_invariant [where P = "solo tz i us n T0 pos u", OF run(1) assms act_solo])
  with solo_fits(3) run(2) show "t_pc t' = Finished \<and> solo tz i us n T0 pos u s' t'" by blast
qed

section \<open>One after another\<close>

text \<open>The shared state stands for the state of the sequential server.\<close>

definition stands_for :: "shared \<Rightarrow> server \<Rightarrow> bool" where
  "stands_for s st \<longleftrightarrow> sh_users s = users st \<and> sh_size s = vsize st \<and> sh_tm s = static_tm st \<and>
     sh_holder s = None \<and> \<not> mutex st"

definition sign_thread :: "nat \<times> string \<Rightarrow> thread" where
  "sign_thread e = new_thread (spec_name (snd e)) (spec_id (snd e)) (fst e)"

lemma sign_thread_fields [simp]:
  "t_pc (sign_thread e) = Starting" "t_now (sign_thread e) = fst e" "t_report (sign_thread e) = None"
  by (simp_all add: sign_thread_def new_thread_def)

lemma own_sign_thread: "own_node (sign_thread (now, q)) = head_node q"
  by (simp add: own_node_def sign_thread_def new_thread_def buynode_def head_node_def)

text \<open>A serial run: each thread, from number \<open>i\<close> on, moves alone until it has ended, however that may be.\<close>

inductive serial :: "nat \<Rightarrow> nat \<Rightarrow> shared \<Rightarrow> thread list \<Rightarrow> shared \<Rightarrow> thread list \<Rightarrow> bool" for tz :: nat where
  none: "serial tz i s [] s []"
| one_more: "alone tz i (s, t) (s1, t1) \<Longrightarrow> ended (t_pc t1) \<Longrightarrow> serial tz (Suc i) s1 ts s2 ts2 \<Longrightarrow>
     serial tz i s (t # ts) s2 (t1 # ts2)"

inductive_cases serial_elims: "serial tz i s [] s2 ts2" "serial tz i s (t # ts) s2 ts2"

lemma serial_reach: "serial tz i s ts s' ts' \<Longrightarrow> length done = i \<Longrightarrow> reach tz (s, done @ ts) (s', done @ ts')"
proof (induction arbitrary: "done" rule: serial.induct)
  case (one_more i s t s1 t1 ts s2 ts2)
  have i: "i = length done" using one_more.prems by simp
  have "reach tz (s, done @ t # ts) (s1, (done @ [t1]) @ ts)"
    using alone_reach [OF one_more(1), of "done @ t # ts"] by (simp add: i)
  with one_more.IH [of "done @ [t1]"] one_more.prems show ?case using reach_trans by fastforce
qed simp

text \<open>What \<open>send_vector\<close> returns along a history.\<close>

fun reports :: "nat \<Rightarrow> char \<Rightarrow> (nat \<times> string) list \<Rightarrow> server \<Rightarrow> string option list" where
  "reports tz fill [] st = []"
| "reports tz fill ((now, q) # h) st =
     (case send_vector tz fill now (cbuf QUERY_SIZE q) st of
        Some (Inr (r, st1)) \<Rightarrow> r # reports tz fill h st1
      | _ \<Rightarrow> [])"

lemma number_le:
  assumes "int (u_data u) \<le> INT_MAX" "normal u"
  shows "number f u \<le> INT_MAX"
  using assms by (cases f) (auto simp: normal_def hm_ok_def INT_MAX_def)

lemma solo_sign_thread:
  assumes "stands_for s st" "server_inv clk st" "good_query q" "clk \<le> int now"
    and "send_vector tz fill now (cbuf QUERY_SIZE q) st = Ret (r, st')"
  shows "\<exists>pos u. solo tz i (users st) (vsize st) (static_tm st) pos u s (sign_thread (now, q)) \<and>
    r = map_option (\<lambda>k. report u) pos \<and> users st' = vector_after pos (users st) u \<and> vsize st' = size_after pos (vsize st) \<and>
    static_tm st' = localtime tz now \<and> \<not> mutex st' \<and> out st' = out st @ shown_rows (vector_after pos (users st) u)"
  using assms(2-5)
proof (cases rule: send_vector_RetE)
  case first
  let ?t = "sign_thread (now, q)" and ?T = "localtime tz now"
  have "arrived tz ?T ?t = (head_node q)\<lparr>start_time := int now, arrive_time := strftime ?T\<rparr>"
    by (simp add: arrived_def own_sign_thread own_time_def clock.put_break)
  moreover have "solo tz i (users st) (vsize st) (static_tm st) None (arrived tz ?T ?t) s ?t"
    using assms(1) first(1) own_sign_thread [of now q]
    by (simp add: solo_def holds_def stands_for_def)
  ultimately show ?thesis using first assms(1)
    by (intro exI [of _ None] exI [of _ "arrived tz ?T ?t"])
      (simp add: vector_after_def size_after_def first_sign_def show_table_def shown_rows_def stands_for_def)
next
  case (again k u)
  let ?t = "sign_thread (now, q)"
  have "hm_ok (leaving tz now (users st ! k))" using again(3) by (simp add: good_node_def normal_def leaving_def hm_ok_def)
  from calculat_work_time_Ret(4) [OF again(4) this] again(3) assms(4)
  have "normal u" by (simp add: good_node_def normal_def leaving_def)
  then have "solo tz i (users st) (vsize st) (static_tm st) (Some k) u s ?t"
    using assms(1) again(1,4,5) own_sign_thread [of now q] number_le [of u]
    by (simp add: solo_def holds_def stands_for_def)
  then show ?thesis using again assms(1)
    by (intro exI [of _ "Some k"] exI [of _ u])
      (simp add: vector_after_def size_after_def sign_again_def show_table_def shown_rows_def stands_for_def)
qed

text \<open>One sign-in: the thread comes to its end, and whenever it has, it has done what the handler does.\<close>

lemma sign_thread_alone:
  assumes "stands_for s st" "server_inv clk st" "good_query q" "clk \<le> int now"
    and "send_vector tz fill now (cbuf QUERY_SIZE q) st = Ret (r, st')"
  shows "\<exists>s' t'. alone tz i (s, sign_thread (now, q)) (s', t') \<and> ended (t_pc t')"
    and "alone tz i (s, sign_thread (now, q)) (s', t') \<Longrightarrow> ended (t_pc t') \<Longrightarrow>
      t_pc t' = Finished \<and> t_report t' = r \<and> stands_for s' st' \<and> out st' = out st @ t_shown t'"
proof -
  obtain pos u where solo: "solo tz i (users st) (vsize st) (static_tm st) pos u s (sign_thread (now, q))"
    and st': "r = map_option (\<lambda>k. report u) pos" "users st' = vector_after pos (users st) u"
      "vsize st' = size_after pos (vsize st)" "static_tm st' = localtime tz now" "\<not> mutex st'"
      "out st' = out st @ shown_rows (vector_after pos (users st) u)"
    using solo_sign_thread [OF assms, of i] by blast
  show "\<exists>s' t'. alone tz i (s, sign_thread (now, q)) (s', t') \<and> ended (t_pc t')" by (rule solo_finishes(1) [OF solo])
  assume run: "alone tz i (s, sign_thread (now, q)) (s', t')" "ended (t_pc t')"
  have "t_now t' = now"
    by (rule alone_invariant [where P = "\<lambda>s t. t_now t = now", OF run(1)])
      (auto simp: same_thread_def dest!: act_same_thread)
  with solo_finishes(2) [OF solo run] st'
  show "t_pc t' = Finished \<and> t_report t' = r \<and> stands_for s' st' \<and> out st' = out st @ t_shown t'"
    by (auto simp: solo_def holds_def stands_for_def)
qed

lemma sign_step_Ret: "sign_step tz fill now q st = Ret st1 \<longleftrightarrow> (\<exists>r. send_vector tz fill now (cbuf QUERY_SIZE q) st = Ret (r, st1))"
  by (auto simp: sign_step_def bindR_eq_Ret)

lemma serial_history:
  assumes "run_history (sign_step tz fill) h st = Ret st'" "stands_for s st" "server_inv clk st" "good_history clk h"
  shows "(\<exists>s' ts'. serial tz i s (map sign_thread h) s' ts') \<and>
    (\<forall>s' ts'. serial tz i s (map sign_thread h) s' ts' \<longrightarrow> (\<forall>t\<in>set ts'. t_pc t = Finished) \<and> stands_for s' st' \<and>
      map t_report ts' = reports tz fill h st \<and> out st' = out st @ concat (map t_shown ts'))"
  using assms
proof (induction h arbitrary: st s clk i)
  case Nil
  then show ?case by (auto intro: serial.none elim!: serial_elims)
next
  case (Cons e h)
  obtain now q where e: "e = (now, q)" by (cases e)
  with Cons.prems(1) obtain r st1 where st1: "send_vector tz fill now (cbuf QUERY_SIZE q) st = Ret (r, st1)"
    "run_history (sign_step tz fill) h st1 = Ret st'" by (auto simp: sign_step_Ret)
  have q: "good_query q" "clk \<le> int now" "good_history (int now) h" using Cons.prems(4) e by auto
  note first = sign_thread_alone [OF Cons.prems(2,3) q(1,2) st1(1), of i]
  have inv: "server_inv (int now) st1" using send_vector_simulates [OF Cons.prems(3) q(1,2) st1(1)] by simp
  note rest = Cons.IH [OF st1(2) _ inv q(3), of _ "Suc i"]
  obtain s1 t1 where t1: "alone tz i (s, sign_thread e) (s1, t1)" "ended (t_pc t1)" using first(1) e by blast
  then have "stands_for s1 st1" using first(2) e by blast
  with rest obtain s' ts' where "serial tz (Suc i) s1 (map sign_thread h) s' ts'" by blast
  with t1 have "serial tz i s (map sign_thread (e # h)) s' (t1 # ts')" by (auto intro: serial.one_more)
  moreover have "(\<forall>t\<in>set ts2. t_pc t = Finished) \<and> stands_for s2 st' \<and> map t_report ts2 = reports tz fill (e # h) st \<and>
      out st' = out st @ concat (map t_shown ts2)" if "serial tz i s (map sign_thread (e # h)) s2 ts2" for s2 ts2
  proof -
    from that obtain s3 t3 ts3 where run: "alone tz i (s, sign_thread e) (s3, t3)" "ended (t_pc t3)"
      "serial tz (Suc i) s3 (map sign_thread h) s2 ts3" "ts2 = t3 # ts3" by (auto elim: serial_elims)
    with first(2) e have "t_pc t3 = Finished \<and> t_report t3 = r \<and> stands_for s3 st1 \<and> out st1 = out st @ t_shown t3" by blast
    with rest run(3,4) st1(1) e show ?thesis by auto
  qed
  ultimately show ?case by blast
qed

section \<open>Parts of a run\<close>

lemma goto_goto [simp]: "goto p (goto r t) = goto p t" "(goto p t)\<lparr>t_shown := x\<rparr> = goto p (t\<lparr>t_shown := x\<rparr>)"
  by (simp_all add: goto_def)

lemma search_from:
  assumes "m \<le> length (sh_users s)" "k \<le> m"
    and "\<forall>j. k \<le> j \<and> j < m \<longrightarrow> person (sh_users s ! j) \<noteq> person (own_node t)"
  shows "alone tz i (s, goto (Searching (sh_block s) k) t) (s, goto (Searching (sh_block s) m) t)"
  using assms(2,3)
proof (induction "m - k" arbitrary: k)
  case 0
  then show ?case by simp
next
  case (Suc d)
  have "alone tz i (s, goto (Searching (sh_block s) k) t) (s, goto (Searching (sh_block s) (Suc k)) t)"
    using Suc assms(1) by (intro alone_act [where extra = 0]) (auto simp: act_simps same_person_iff)
  moreover have "alone tz i (s, goto (Searching (sh_block s) (Suc k)) t) (s, goto (Searching (sh_block s) m) t)"
    using Suc by auto
  ultimately show ?case by (rule alone_trans)
qed

lemma then_act: "alone tz i c (s, t) \<Longrightarrow> act tz extra i s t = Some c' \<Longrightarrow> alone tz i c c'"
  using alone_trans alone_act by blast

lemma search_missing:
  assumes "t_pc t = Finding" "find_pos (sh_users s) (own_node t) = None"
  shows "alone tz i (s, t) (s, goto (Want Counting) t)"
proof -
  let ?n = "length (sh_users s)"
  have "alone tz i (s, t) (s, goto (Searching (sh_block s) 0) t)"
    using assms by (intro alone_act [where extra = 0]) (simp add: act_simps)
  also have "alone tz i \<dots> (s, goto (Searching (sh_block s) ?n) t)"
    using assms by (intro search_from) (auto simp: find_pos_None image_iff, metis nth_mem)
  finally (alone_trans) show ?thesis
    by (rule then_act [where extra = 0]) (simp add: act_simps)
qed

lemma show_alone:
  assumes "t_pc t = ShowStart"
  shows "alone tz i (s, t) (s, goto Finished (t\<lparr>t_shown := shown_rows (sh_users s)\<rparr>))"
proof -
  let ?t = "\<lambda>k. goto (Showing (sh_block s) k) (t\<lparr>t_shown := shown_rows (take k (sh_users s))\<rparr>)"
  have rows: "k \<le> length (sh_users s) \<Longrightarrow> alone tz i (s, t) (s, ?t k)" for k
  proof (induction k)
    case 0
    show ?case using assms by (intro alone_act [where extra = 0]) (simp add: act_simps shown_rows_def)
  next
    case (Suc k)
    then have k: "k < length (sh_users s)" by simp
    then have one: "act tz 0 i s (?t k) = Some (s, ?t (Suc k))"
      by (simp add: act_simps shown_rows_def take_Suc_conv_app_nth)
    show ?case by (rule then_act [OF Suc.IH [OF less_imp_le [OF k]] one])
  qed
  have "alone tz i (s, t) (s, ?t (length (sh_users s)))" by (rule rows [OF order_refl])
  moreover have "act tz 0 i s (?t (length (sh_users s))) = Some (s, goto Finished (t\<lparr>t_shown := shown_rows (sh_users s)\<rparr>))"
    by (simp add: act_simps)
  ultimately show ?thesis by (rule then_act)
qed

lemma start_alone:
  assumes "t_pc t = Starting" "sh_holder s = None"
  shows "alone tz i (s, t) (unlocked (s\<lparr>sh_tm := localtime tz (t_now t)\<rparr>), goto Finding t)"
proof -
  have "alone tz i (s, t) (unlocked s, goto (Want Numbering) t)"
    using assms by (intro then_act [where extra = 0, OF alone_act [where extra = 0]]) (auto simp: act_simps unlocked_def)
  also have "alone tz i \<dots> (unlocked s, goto (Want Timing) t)"
    by (intro then_act [where extra = 0, OF alone_act [where extra = 0]]) (auto simp: act_simps unlocked_def)
  also (alone_trans) have "alone tz i \<dots> (unlocked (s\<lparr>sh_tm := localtime tz (t_now t)\<rparr>), goto Finding t)"
    by (intro then_act [where extra = 0, OF alone_act [where extra = 0]]) (auto simp: act_simps unlocked_def)
  finally (alone_trans) show ?thesis .
qed

lemma count_alone:
  assumes "t_pc t = Want Counting" "sh_holder s = None"
  shows "alone tz i (s, t) (unlocked (s\<lparr>sh_size := Suc (sh_size s)\<rparr>), goto Counted t)"
  using assms by (intro then_act [where extra = 0, OF alone_act [where extra = 0]]) (auto simp: act_simps unlocked_def)

lemma return_alone: "t_pc t = Counted \<Longrightarrow> alone tz i (s, t) (s, goto (Want Pushing) t)"
  by (intro then_act [where extra = 0, OF alone_act [where extra = 0]]) (auto simp: act_simps)

lemma push_alone:
  assumes "t_pc t = Want Pushing" "sh_holder s = None"
  shows "\<exists>s' x. alone tz i (s, t) (s', goto Finished (t\<lparr>t_shown := x\<rparr>)) \<and>
    sh_users s' = sh_users s @ [arrived tz (sh_tm s) t] \<and> sh_holder s' = None \<and> sh_tm s' = sh_tm s \<and>
    sh_size s' = sh_size s \<and> (sh_block s' = sh_block s \<longleftrightarrow> length (sh_users s) < sh_room s)"
proof -
  obtain s' where s': "act tz 0 i (s\<lparr>sh_holder := Some i\<rparr>) (goto (Inside Pushing) t) = Some (s', goto ShowStart t)"
    "sh_users s' = sh_users s @ [arrived tz (sh_tm s) t]" "sh_holder s' = None" "sh_tm s' = sh_tm s" "sh_size s' = sh_size s"
    "sh_block s' = sh_block s \<longleftrightarrow> length (sh_users s) < sh_room s"
    by (simp add: act_simps)
  have "alone tz i (s, t) (s\<lparr>sh_holder := Some i\<rparr>, goto (Inside Pushing) t)"
    using assms by (intro alone_act [where extra = 0]) (simp add: act_simps)
  then have "alone tz i (s, t) (s', goto ShowStart t)" using s'(1) by (rule then_act)
  from alone_trans [OF this show_alone] have "\<exists>x. alone tz i (s, t) (s', goto Finished (t\<lparr>t_shown := x\<rparr>))"
    by (auto simp: goto_def)
  with s'(2-) show ?thesis by blast
qed

lemma append_alone:
  assumes "t_pc t = Reading f (sh_block s) k" "sh_holder s = None" "number f (sh_users s ! k) \<le> INT_MAX"
  shows "\<exists>t'. alone tz i (s, t) (s, t') \<and> t_pc t' = next_pc f (sh_block s) k \<and>
    t_line t' = t_line t @ int_str (number f (sh_users s ! k)) @ flag_behind f \<and>
    t_report t' = (if f = Seconds then Some (t_line t') else t_report t)"
proof -
  let ?n = "int_str (number f (sh_users s ! k))"
  have "alone tz i (s, t) (s, goto (Want (Appending f (sh_block s) k)) (t\<lparr>t_buf := ?n\<rparr>))"
    using assms by (intro alone_act [where extra = 0]) (simp add: act_simps)
  then have "alone tz i (s, t) (s\<lparr>sh_holder := Some i\<rparr>, goto (Inside (Appending f (sh_block s) k)) (t\<lparr>t_buf := ?n\<rparr>))"
    by (rule then_act [where extra = 0]) (use assms(2) in \<open>simp add: act_simps\<close>)
  moreover have "unlocked (s\<lparr>sh_holder := Some i\<rparr>) = s" using assms(2) by (simp add: unlocked_def)
  then have "\<exists>t'. act tz 0 i (s\<lparr>sh_holder := Some i\<rparr>) (goto (Inside (Appending f (sh_block s) k)) (t\<lparr>t_buf := ?n\<rparr>)) = Some (s, t') \<and>
    t_pc t' = next_pc f (sh_block s) k \<and> t_line t' = t_line t @ ?n @ flag_behind f \<and>
    t_report t' = (if f = Seconds then Some (t_line t') else t_report t)"
    by (simp add: act_simps)
  ultimately show ?thesis using then_act by blast
qed

lemma report_alone:
  assumes "t_pc t = Want (Totalling (sh_block s) k)" "sh_holder s = None" "\<forall>f. number f (sh_users s ! k) \<le> INT_MAX"
  shows "\<exists>t'. alone tz i (s, t) (s, t') \<and> t_pc t' = Finished \<and> t_report t' = Some (report (sh_users s ! k))"
proof -
  let ?u = "sh_users s ! k" and ?b = "sh_block s"
  have s: "unlocked (s\<lparr>sh_holder := Some i\<rparr>) = s" using assms(2) by (simp add: unlocked_def)
  have n: "int (u_data ?u) \<le> INT_MAX" "u_hour ?u \<le> INT_MAX" "u_min ?u \<le> INT_MAX" "u_sec ?u \<le> INT_MAX"
    using assms(3) number.simps by metis+
  have "alone tz i (s, t) (s\<lparr>sh_holder := Some i\<rparr>, goto (Inside (Totalling ?b k)) t)"
    using assms by (intro alone_act [where extra = 0]) (simp add: act_simps)
  then have "alone tz i (s, t) (s, goto (Reading Days ?b k) (t\<lparr>t_line := total_text ?u\<rparr>))"
    by (rule then_act [where extra = 0]) (use s in \<open>simp add: act_simps\<close>)
  moreover obtain t1 where "alone tz i (s, goto (Reading Days ?b k) (t\<lparr>t_line := total_text ?u\<rparr>)) (s, t1)"
    "t_pc t1 = Reading Hours ?b k" "t_line t1 = told Hours ?u"
    using append_alone [of "goto (Reading Days ?b k) (t\<lparr>t_line := total_text ?u\<rparr>)" Days s k tz i] assms(2) n by auto
  moreover obtain t2 where "alone tz i (s, t1) (s, t2)" "t_pc t2 = Reading Minutes ?b k" "t_line t2 = told Minutes ?u"
    using append_alone [of t1 Hours s k tz i] calculation(3,4) assms(2) n by auto
  moreover obtain t3 where "alone tz i (s, t2) (s, t3)" "t_pc t3 = Reading Seconds ?b k" "t_line t3 = told Seconds ?u"
    using append_alone [of t2 Minutes s k tz i] calculation(6,7) assms(2) n by auto
  moreover obtain t4 where "alone tz i (s, t3) (s, t4)" "t_pc t4 = Want Inserting" "t_report t4 = Some (report ?u)"
    using append_alone [of t3 Seconds s k tz i] calculation(9,10) assms(2) n by (auto simp: told_all [symmetric])
  moreover have "alone tz i (s, t4) (s, goto ShowStart t4)"
    using assms(2) calculation(12) s by (intro then_act [where extra = 0, OF alone_act [where extra = 0]]) (auto simp: act_simps)
  moreover have "alone tz i (s, goto ShowStart t4) (s, goto Finished (goto ShowStart t4\<lparr>t_shown := shown_rows (sh_users s)\<rparr>))"
    by (rule show_alone) simp
  ultimately have "alone tz i (s, t) (s, goto Finished (goto ShowStart t4\<lparr>t_shown := shown_rows (sh_users s)\<rparr>))"
    by (meson alone_trans)
  with \<open>t_report t4 = Some (report ?u)\<close> show ?thesis
    by (intro exI [of _ "goto Finished (goto ShowStart t4\<lparr>t_shown := shown_rows (sh_users s)\<rparr>)"]) simp
qed

section \<open>Two threads in step\<close>

lemma first_of_two: "alone tz 0 (s, a) (s', a') \<Longrightarrow> reach tz (s, [a, b]) (s', [a', b])"
  using alone_reach [of tz 0 "(s, a)" "(s', a')" "[a, b]"] by simp

lemma second_of_two: "alone tz 1 (s, b) (s', b') \<Longrightarrow> reach tz (s, [a, b]) (s', [a, b'])"
  using alone_reach [of tz 1 "(s, b)" "(s', b')" "[a, b]"] by simp

text \<open>Two threads, both past the search, which has found nothing; \<open>b\<close> has taken the time last.\<close>

lemma both_search:
  assumes "t_pc a = Starting" "t_pc b = Starting" "find_pos us (own_node a) = None" "find_pos us (own_node b) = None"
  shows "\<exists>s. reach tz (begin_all us room [a, b]) (s, [goto (Want Counting) a, goto (Want Counting) b]) \<and>
    sh_users s = us \<and> sh_size s = length us \<and> sh_holder s = None \<and> sh_tm s = localtime tz (t_now b) \<and>
    sh_block s = 0 \<and> sh_room s = max room (length us)"
proof -
  define s0 where "s0 = fst (begin_all us room [a, b])"
  define s1 where "s1 = unlocked (s0\<lparr>sh_tm := localtime tz (t_now a)\<rparr>)"
  define s2 where "s2 = unlocked (s1\<lparr>sh_tm := localtime tz (t_now b)\<rparr>)"
  have s: "sh_holder s0 = None" "sh_holder s1 = None" "sh_users s2 = us"
    by (simp_all add: s0_def s1_def s2_def begin_all_def)
  have c: "begin_all us room [a, b] = (s0, [a, b])" by (simp add: s0_def begin_all_def)
  have "reach tz (s0, [a, b]) (s1, [goto Finding a, b])"
    unfolding s1_def using start_alone [OF assms(1) s(1)] by (rule first_of_two)
  also have "reach tz (s1, [goto Finding a, b]) (s2, [goto Finding a, goto Finding b])"
    unfolding s2_def using start_alone [OF assms(2) s(2)] by (rule second_of_two)
  also (reach_trans) have "reach tz (s2, [goto Finding a, goto Finding b]) (s2, [goto (Want Counting) a, goto Finding b])"
    using search_missing [of "goto Finding a" s2 tz 0] assms(3) s(3) by (intro first_of_two) simp
  also (reach_trans) have "reach tz (s2, [goto (Want Counting) a, goto Finding b]) (s2, [goto (Want Counting) a, goto (Want Counting) b])"
    using search_missing [of "goto Finding b" s2 tz 1] assms(4) s(3) by (intro second_of_two) simp
  finally (reach_trans) have "reach tz (begin_all us room [a, b]) (s2, [goto (Want Counting) a, goto (Want Counting) b])"
    unfolding c .
  then show ?thesis by (intro exI conjI) (auto simp: s0_def s1_def s2_def begin_all_def)
qed

text \<open>Both enter their person: neither is disturbed between the end of its search and its comparison.\<close>

lemma both_enter:
  assumes "t_pc a = Starting" "t_pc b = Starting" "find_pos us (own_node a) = None" "find_pos us (own_node b) = None"
  shows "\<exists>s a' b'. reach tz (begin_all us room [a, b]) (s, [a', b']) \<and> t_pc a' = Finished \<and> t_pc b' = Finished \<and>
    sh_users s = us @ [arrived tz (localtime tz (t_now b)) a, arrived tz (localtime tz (t_now b)) b]"
proof -
  obtain s where s: "reach tz (begin_all us room [a, b]) (s, [goto (Want Counting) a, goto (Want Counting) b])"
    "sh_users s = us" "sh_holder s = None" "sh_tm s = localtime tz (t_now b)" using both_search [OF assms] by blast
  define s1 where "s1 = unlocked (s\<lparr>sh_size := Suc (sh_size s)\<rparr>)"
  define s2 where "s2 = unlocked (s1\<lparr>sh_size := Suc (sh_size s1)\<rparr>)"
  have s2: "sh_users s2 = us" "sh_holder s1 = None" "sh_holder s2 = None" "sh_tm s2 = localtime tz (t_now b)"
    using s by (simp_all add: s1_def s2_def)
  note s(1)
  also have "reach tz (s, [goto (Want Counting) a, goto (Want Counting) b]) (s1, [goto Counted a, goto (Want Counting) b])"
    unfolding s1_def using count_alone [of "goto (Want Counting) a" s tz 0] s(3) by (intro first_of_two) simp
  also (reach_trans) have "reach tz (s1, [goto Counted a, goto (Want Counting) b]) (s2, [goto Counted a, goto Counted b])"
    unfolding s2_def using count_alone [of "goto (Want Counting) b" s1 tz 1] s2(2) by (intro second_of_two) simp
  also (reach_trans) have "reach tz (s2, [goto Counted a, goto Counted b]) (s2, [goto (Want Pushing) a, goto Counted b])"
    using return_alone [of "goto Counted a" tz 0 s2] by (intro first_of_two) simp
  also (reach_trans) have "reach tz (s2, [goto (Want Pushing) a, goto Counted b]) (s2, [goto (Want Pushing) a, goto (Want Pushing) b])"
    using return_alone [of "goto Counted b" tz 1 s2] by (intro second_of_two) simp
  finally (reach_trans) have start: "reach tz (begin_all us room [a, b]) (s2, [goto (Want Pushing) a, goto (Want Pushing) b])" .
  obtain s3 a' where a': "alone tz 0 (s2, goto (Want Pushing) a) (s3, a')" "t_pc a' = Finished"
    "sh_users s3 = us @ [arrived tz (localtime tz (t_now b)) a]" "sh_holder s3 = None" "sh_tm s3 = localtime tz (t_now b)"
    using push_alone [of "goto (Want Pushing) a" s2 tz 0] s2 by fastforce
  obtain s4 b' where b': "alone tz 1 (s3, goto (Want Pushing) b) (s4, b')" "t_pc b' = Finished"
    "sh_users s4 = us @ [arrived tz (localtime tz (t_now b)) a, arrived tz (localtime tz (t_now b)) b]"
    using push_alone [of "goto (Want Pushing) b" s3 tz 1] a'(3-5) by fastforce
  have "reach tz (begin_all us room [a, b]) (s4, [a', b'])"
    by (rule reach_trans [OF reach_trans [OF start first_of_two [OF a'(1)]] second_of_two [OF b'(1)]])
  with a'(2) b'(2,3) show ?thesis by blast
qed

text \<open>\<open>a\<close> has read \<open>v.end()\<close>, and \<open>b\<close> enters its person before \<open>a\<close> compares.\<close>

lemma overtaken:
  assumes "t_pc a = Starting" "t_pc b = Starting" "find_pos us (own_node a) = None" "find_pos us (own_node b) = None"
  shows "\<exists>s b'. reach tz (begin_all us room [a, b]) (s, [goto (Comparing 0 (length us)) a, b']) \<and> t_pc b' = Finished \<and>
    sh_users s = us @ [arrived tz (localtime tz (t_now b)) b] \<and> sh_size s = length us + 2 \<and> sh_holder s = None \<and>
    sh_tm s = localtime tz (t_now b) \<and> (sh_block s = 0 \<longleftrightarrow> length us < room)"
proof -
  obtain s where s: "reach tz (begin_all us room [a, b]) (s, [goto (Want Counting) a, goto (Want Counting) b])"
    "sh_users s = us" "sh_size s = length us" "sh_holder s = None" "sh_tm s = localtime tz (t_now b)"
    "sh_block s = 0" "sh_room s = max room (length us)" using both_search [OF assms] by blast
  define s1 where "s1 = unlocked (s\<lparr>sh_size := Suc (sh_size s)\<rparr>)"
  define s2 where "s2 = unlocked (s1\<lparr>sh_size := Suc (sh_size s1)\<rparr>)"
  have s2: "sh_users s1 = us" "sh_block s1 = 0" "sh_holder s1 = None" "sh_users s2 = us" "sh_holder s2 = None"
    "sh_tm s2 = localtime tz (t_now b)" "sh_size s2 = length us + 2" "sh_block s2 = 0" "sh_room s2 = max room (length us)"
    using s by (simp_all add: s1_def s2_def)
  let ?a = "goto (Comparing 0 (length us)) a"
  note s(1)
  also have "reach tz (s, [goto (Want Counting) a, goto (Want Counting) b]) (s1, [goto Counted a, goto (Want Counting) b])"
    unfolding s1_def using count_alone [of "goto (Want Counting) a" s tz 0] s(4) by (intro first_of_two) simp
  also (reach_trans) have "reach tz (s1, [goto Counted a, goto (Want Counting) b]) (s1, [?a, goto (Want Counting) b])"
    using s2(1,2) by (intro first_of_two alone_act [where extra = 0]) (simp add: act_simps)
  also (reach_trans) have "reach tz (s1, [?a, goto (Want Counting) b]) (s2, [?a, goto Counted b])"
    unfolding s2_def using count_alone [of "goto (Want Counting) b" s1 tz 1] s2(3) by (intro second_of_two) simp
  also (reach_trans) have "reach tz (s2, [?a, goto Counted b]) (s2, [?a, goto (Want Pushing) b])"
    using return_alone [of "goto Counted b" tz 1 s2] by (intro second_of_two) simp
  finally (reach_trans) have start: "reach tz (begin_all us room [a, b]) (s2, [?a, goto (Want Pushing) b])" .
  obtain s3 b' where b': "alone tz 1 (s2, goto (Want Pushing) b) (s3, b')" "t_pc b' = Finished"
    "sh_users s3 = us @ [arrived tz (localtime tz (t_now b)) b]" "sh_holder s3 = None" "sh_tm s3 = localtime tz (t_now b)"
    "sh_size s3 = length us + 2" "sh_block s3 = 0 \<longleftrightarrow> length us < room"
  proof -
    obtain s3 x where "alone tz 1 (s2, goto (Want Pushing) b) (s3, goto Finished (goto (Want Pushing) b\<lparr>t_shown := x\<rparr>))"
      "sh_users s3 = us @ [arrived tz (localtime tz (t_now b)) b]" "sh_holder s3 = None" "sh_tm s3 = localtime tz (t_now b)"
      "sh_size s3 = length us + 2" "sh_block s3 = 0 \<longleftrightarrow> length us < max room (length us)"
      using push_alone [of "goto (Want Pushing) b" s2 tz 1] s2 by auto
    with that show thesis by (simp add: less_max_iff_disj)
  qed
  have "reach tz (begin_all us room [a, b]) (s3, [?a, b'])"
    by (rule reach_trans [OF start second_of_two [OF b'(1)]])
  with b' show ?thesis by (intro exI [of _ s3] exI [of _ b'] conjI)
qed

lemma no_time_worked:
  "calculat_work_time ((arrived tz T t)\<lparr>end_time := int (mktime tz T), leave_time := l\<rparr>) =
     Ret ((arrived tz T t)\<lparr>end_time := int (mktime tz T), leave_time := l\<rparr>)"
  by (simp add: calculat_work_time_def arrived_def own_node_def buynode_def new_user_node_def INT_MIN_def INT_MAX_def
      work_loop.simps)

section \<open>Properties\<close>

text \<open>C5. Threads that run one after another do what the sequential handler does: when every sign-in of a
  history runs in a thread of its own, each after the one before has ended, then such a run exists, it is a run of the
  interleaved steps, and every such run, wherever the vector is moved when it is full, ends with all threads finished, with the vector, \<open>size\<close>
  and the time object of the sequential \<open>send_vector\<close>, with the same reports, and with the same tables printed.\<close>
theorem race_serial:
  assumes "run_history (sign_step tz fill) h st = Ret st'" "stands_for s st" "server_inv clk st" "good_history clk h"
  shows "(\<exists>s' ts'. serial tz 0 s (map sign_thread h) s' ts') \<and>
    (\<forall>s' ts'. serial tz 0 s (map sign_thread h) s' ts' \<longrightarrow>
       reach tz (s, map sign_thread h) (s', ts') \<and> (\<forall>t\<in>set ts'. t_pc t = Finished) \<and> stands_for s' st' \<and>
       map t_report ts' = reports tz fill h st \<and> out st' = out st @ concat (map t_shown ts'))"
  using serial_history [OF assms, of 0] serial_reach [of tz 0 s "map sign_thread h" _ _ "[]"] by auto

theorem race_serial_witness:
  "\<exists>st' s' ts'. run_history (sign_step 0 CHR ''x'') demo_history (new_server 0) = Ret st' \<and>
     serial 0 0 (fst (begin_all [] 0 [])) (map sign_thread demo_history) s' ts' \<and>
     reach 0 (fst (begin_all [] 0 []), map sign_thread demo_history) (s', ts') \<and>
     (\<forall>t\<in>set ts'. t_pc t = Finished) \<and> stands_for s' st' \<and> out st' = concat (map t_shown ts') \<and>
     map t_report ts' = reports 0 CHR ''x'' demo_history (new_server 0)"
proof -
  obtain st' where st': "run_history (sign_step 0 CHR ''x'') demo_history (new_server 0) = Ret st'"
    using history_progress [OF server_inv_new demo_history_good(1,2) data_room_new, of 0 "CHR ''x''"] demo_history_good(3)
    by (auto simp: INT_MAX_def)
  have start: "stands_for (fst (begin_all [] 0 [])) (new_server 0)" "out (new_server 0) = []"
    by (simp_all add: stands_for_def begin_all_def new_server_def)
  note race_serial [OF st' start(1) server_inv_new demo_history_good(1)]
  with st' start(2) show ?thesis by (metis append_Nil)
qed

text \<open>C10. A sign-in can be lost: \<open>find_id\<close> returns the \<open>v.end()\<close> of one moment, and it is compared with the
  \<open>v.end()\<close> of a later one.  When another thread enters its person in between, this thread takes him for
  its own: he is signed out with its time, its own person is not entered at all, and \<open>size\<close> stays one
  too high when both have finished.\<close>
theorem race_lost_sign_in:
  assumes "find_pos us (own_node (new_thread n1 i1 t1)) = None" "find_pos us (own_node (new_thread n2 i2 t2)) = None"
    and "person (own_node (new_thread n1 i1 t1)) \<noteq> person (own_node (new_thread n2 i2 t2))" "length us < room"
  shows "\<exists>s ts u. reach tz (begin_all us room [new_thread n1 i1 t1, new_thread n2 i2 t2]) (s, ts) \<and>
     (\<forall>t\<in>set ts. t_pc t = Finished) \<and> sh_users s = us @ [u] \<and> u_name u = n2 \<and> u_id u = i2 \<and>
     leave_time u = strftime (localtime tz t1) \<and> t_report (ts ! 0) = Some (report u) \<and>
     sh_size s = length (sh_users s) + 1 \<and>
     person (own_node (new_thread n1 i1 t1)) \<notin> person ` set (sh_users s)"
proof -
  let ?a = "new_thread n1 i1 t1" and ?b = "new_thread n2 i2 t2" and ?n = "length us"
  let ?T = "localtime tz (t_now ?b)" and ?c = "begin_all us room [?a, ?b]"
  let ?u1 = "(arrived tz ?T ?b)\<lparr>end_time := int (mktime tz ?T)\<rparr>"
  let ?u = "(arrived tz ?T ?b)\<lparr>end_time := int (mktime tz ?T), leave_time := own_time tz ?a\<rparr>"
  have "t_pc ?a = Starting" "t_pc ?b = Starting" by (simp_all add: new_thread_def)
  from overtaken [OF this assms(1,2), of tz room] assms(4) obtain s b' where
    s: "reach tz ?c (s, [goto (Comparing 0 ?n) ?a, b'])" "t_pc b' = Finished"
      "sh_users s = us @ [arrived tz ?T ?b]" "sh_size s = ?n + 2" "sh_holder s = None" "sh_tm s = ?T" "sh_block s = 0" by auto
  define s2 where "s2 = s\<lparr>sh_users := us @ [?u]\<rparr>"
  have s2: "sh_users s2 = us @ [?u]" "sh_size s2 = ?n + 2" "sh_holder s2 = None" "sh_block s2 = 0"
    using s by (simp_all add: s2_def)
  have "alone tz 0 (s, goto (Comparing 0 ?n) ?a) (s, goto (SigningOut 0 ?n) ?a)"
    using s by (intro alone_act [where extra = 0]) (simp add: act_simps)
  also have "alone tz 0 \<dots> (s\<lparr>sh_users := us @ [?u1]\<rparr>, goto (Leaving 0 ?n) ?a)"
    using s by (intro alone_act [where extra = 0]) (simp add: act_simps)
  also (alone_trans) have "alone tz 0 \<dots> (s2, goto (Calculating 0 ?n) ?a)"
    using s by (intro alone_act [where extra = 0]) (simp add: act_simps s2_def)
  also (alone_trans) have "alone tz 0 \<dots> (s2, goto (Want (Totalling 0 ?n)) ?a)"
    using s2 by (intro alone_act [where extra = 0]) (simp add: act_simps no_time_worked s2_def)
  finally (alone_trans) have out: "alone tz 0 (s, goto (Comparing 0 ?n) ?a) (s2, goto (Want (Totalling 0 ?n)) ?a)" .
  have "number f ?u \<le> INT_MAX" for f
    by (cases f) (simp_all add: arrived_def own_node_def buynode_def new_user_node_def INT_MAX_def)
  with report_alone [of "goto (Want (Totalling 0 ?n)) ?a" s2 ?n tz 0] s2 obtain a' where
    a': "alone tz 0 (s2, goto (Want (Totalling 0 ?n)) ?a) (s2, a')" "t_pc a' = Finished" "t_report a' = Some (report ?u)"
    by auto
  have "reach tz ?c (s2, [a', b'])"
    by (rule reach_trans [OF s(1) first_of_two [OF alone_trans [OF out a'(1)]]])
  moreover have "u_name ?u = n2" "u_id ?u = i2" "leave_time ?u = strftime (localtime tz t1)" "person ?u = person (own_node ?b)"
    by (simp_all add: arrived_def own_node_def buynode_def new_user_node_def new_thread_def own_time_def person_def)
  moreover have "person (own_node ?a) \<notin> person ` set us" using assms(1) by (simp add: find_pos_None)
  ultimately show ?thesis using assms(3) s(2) s2(1,2) a'(2,3)
    by (intro exI [of _ s2] exI [of _ "[a', b']"] exI [of _ ?u] conjI) auto
qed

theorem race_lost_sign_in_witness:
  "\<exists>s ts u. reach 0 (begin_all [] 1 [new_thread ''li'' ''7'' 100, new_thread ''wu'' ''8'' 200]) (s, ts) \<and>
     (\<forall>t\<in>set ts. t_pc t = Finished) \<and> sh_users s = [] @ [u] \<and> u_name u = ''wu'' \<and> u_id u = ''8'' \<and>
     leave_time u = strftime (localtime 0 100) \<and> t_report (ts ! 0) = Some (report u) \<and>
     sh_size s = length (sh_users s) + 1 \<and>
     person (own_node (new_thread ''li'' ''7'' 100)) \<notin> person ` set (sh_users s)"
  by (rule race_lost_sign_in)
    (simp_all add: own_node_def new_thread_def buynode_def new_user_node_def person_def c_str_def)

text \<open>C30. Two sign-ins of the same person at the same time can enter him twice: the search reads the vector
  without the lock, and nothing is checked again under the lock before \<open>push_back\<close>.\<close>
theorem race_duplicate_person:
  assumes "find_pos us (own_node (new_thread name idn t1)) = None"
  shows "\<exists>s ts. reach tz (begin_all us room [new_thread name idn t1, new_thread name idn t2]) (s, ts) \<and>
     (\<forall>t\<in>set ts. t_pc t = Finished) \<and> \<not> distinct (map person (sh_users s))"
proof -
  let ?a = "new_thread name idn t1" and ?b = "new_thread name idn t2" and ?T = "localtime tz t2"
  have same: "own_node ?b = own_node ?a" by (simp add: own_node_def new_thread_def)
  have pc: "t_pc ?a = Starting" "t_pc ?b = Starting" "t_now ?b = t2" by (simp_all add: new_thread_def)
  have "find_pos us (own_node ?b) = None" using assms same by simp
  from both_enter [OF pc(1,2) assms this, of tz room] pc(3) obtain s a' b' where
    s: "reach tz (begin_all us room [?a, ?b]) (s, [a', b'])" "t_pc a' = Finished" "t_pc b' = Finished"
      "sh_users s = us @ [arrived tz ?T ?a, arrived tz ?T ?b]" by auto
  from s(4) same have "\<not> distinct (map person (sh_users s))" by simp
  with s(1-3) show ?thesis by (intro exI conjI) auto
qed

theorem race_duplicate_person_witness:
  "\<exists>s ts. reach 0 (begin_all [] 4 [new_thread ''li'' ''7'' 100, new_thread ''li'' ''7'' 101]) (s, ts) \<and>
     (\<forall>t\<in>set ts. t_pc t = Finished) \<and> \<not> distinct (map person (sh_users s))"
  by (rule race_duplicate_person) simp

text \<open>A sign-in can be stamped with the time of another: the pointer \<open>get_time\<close> hands out is to the one
  object of \<open>localtime\<close>, so a thread that takes the time before this one reads it back moves the
  arrival from which the working time is counted, while the text of the arrival stays its own.\<close>

theorem race_wrong_arrival:
  assumes "find_pos us (own_node (new_thread n1 i1 t1)) = None" "find_pos us (own_node (new_thread n2 i2 t2)) = None"
  shows "\<exists>s ts u. reach tz (begin_all us room [new_thread n1 i1 t1, new_thread n2 i2 t2]) (s, ts) \<and>
     u \<in> set (sh_users s) \<and> u_name u = n1 \<and> u_id u = i1 \<and>
     arrive_time u = strftime (localtime tz t1) \<and> start_time u = int t2"
proof -
  let ?a = "new_thread n1 i1 t1" and ?b = "new_thread n2 i2 t2" and ?T = "localtime tz t2"
  have "t_pc ?a = Starting" "t_pc ?b = Starting" "t_now ?b = t2" by (simp_all add: new_thread_def)
  with both_enter [of ?a ?b us tz room] assms obtain s a' b' where
    s: "reach tz (begin_all us room [?a, ?b]) (s, [a', b'])"
      "sh_users s = us @ [arrived tz ?T ?a, arrived tz ?T ?b]" by auto
  moreover have "u_name (arrived tz ?T ?a) = n1 \<and> u_id (arrived tz ?T ?a) = i1 \<and>
      arrive_time (arrived tz ?T ?a) = strftime (localtime tz t1) \<and> start_time (arrived tz ?T ?a) = int t2"
    by (simp add: arrived_def own_node_def own_time_def new_thread_def buynode_def new_user_node_def clock.put_break)
  ultimately show ?thesis by (intro exI conjI) auto
qed

theorem race_wrong_arrival_witness:
  "\<exists>s ts u. reach 0 (begin_all [] 2 [new_thread ''li'' ''7'' 100, new_thread ''wu'' ''8'' 500]) (s, ts) \<and>
     u \<in> set (sh_users s) \<and> u_name u = ''li'' \<and> u_id u = ''7'' \<and>
     arrive_time u = strftime (localtime 0 100) \<and> start_time u = int 500"
  by (rule race_wrong_arrival) simp_all

text \<open>When the vector is full, another sign-in takes the memory away under a thread that holds an iterator
  into it: the thread that compares its old \<open>v.end()\<close> then uses an invalid iterator.\<close>
theorem race_dangling_iterator:
  assumes "find_pos us (own_node (new_thread n1 i1 t1)) = None" "find_pos us (own_node (new_thread n2 i2 t2)) = None"
  shows "\<exists>s ts. reach tz (begin_all us 0 [new_thread n1 i1 t1, new_thread n2 i2 t2]) (s, ts) \<and>
     t_pc (ts ! 0) = Undefined \<and> t_pc (ts ! 1) = Finished"
proof -
  let ?a = "new_thread n1 i1 t1" and ?b = "new_thread n2 i2 t2" and ?n = "length us"
  have "t_pc ?a = Starting" "t_pc ?b = Starting" by (simp_all add: new_thread_def)
  from overtaken [OF this assms, of tz 0] obtain s b' where
    s: "reach tz (begin_all us 0 [?a, ?b]) (s, [goto (Comparing 0 ?n) ?a, b'])" "t_pc b' = Finished" "sh_block s \<noteq> 0"
    by auto
  have "alone tz 0 (s, goto (Comparing 0 ?n) ?a) (s, goto Undefined ?a)"
    using s(3) by (intro alone_act [where extra = 0]) (simp add: act_simps)
  from reach_trans [OF s(1) first_of_two [OF this]] s(2) show ?thesis by (intro exI conjI) auto
qed

theorem race_dangling_iterator_witness:
  "\<exists>s ts. reach 0 (begin_all [] 0 [new_thread ''li'' ''7'' 100, new_thread ''wu'' ''8'' 500]) (s, ts) \<and>
     t_pc (ts ! 0) = Undefined \<and> t_pc (ts ! 1) = Finished"
  by (rule race_dangling_iterator) simp_all

text \<open>\<open>show\<close> walks over the vector without the lock as well: in a full vector the iterator of its loop becomes
  invalid when another thread enters a person, so that even a thread that has done its work can go wrong.\<close>
theorem race_show_dangles:
  assumes "t_pc a = Showing (sh_block s) k" "t_pc b = Want Pushing" "sh_holder s = None" "sh_room s = length (sh_users s)"
  shows "\<exists>s' ts. reach tz (s, [a, b]) (s', ts) \<and> t_pc (ts ! 0) = Undefined \<and> t_pc (ts ! 1) = Finished"
proof -
  from push_alone [OF assms(2,3), of tz 1] assms(4) obtain s' x where
    s': "alone tz 1 (s, b) (s', goto Finished (b\<lparr>t_shown := x\<rparr>))" "sh_block s' \<noteq> sh_block s" by auto
  have "alone tz 0 (s', a) (s', goto Undefined a)"
    using s'(2) assms(1) by (intro alone_act [where extra = 0]) (simp add: act_simps)
  from reach_trans [OF second_of_two [OF s'(1)] first_of_two [OF this]] show ?thesis by (intro exI conjI) auto
qed

end
