(* ===== verification/Race_Sign_Out.thy ===== *)
theory Race_Sign_Out
  imports Race_Runs
begin

text \<open>
  Concurrent sign-outs (theory \<open>Race\<close>).  When everybody who signs is in the vector already, no thread enters
  anybody, the vector stays where it is, and each thread works on the node of its own person: what is
  right about a handler that runs its whole sign-out without the lock.
\<close>

section \<open>The invariant\<close>

text \<open>The node has been signed out by this thread: the text is the thread's own time; the number comes from
  the shared time object, and is the time of one of the threads.\<close>

definition signed_by :: "nat \<Rightarrow> thread list \<Rightarrow> thread \<Rightarrow> user_node \<Rightarrow> bool" where
  "signed_by tz ts0 t u \<longleftrightarrow> leave_time u = own_time tz t \<and> end_time u \<in> (\<lambda>r. int (t_now r)) ` set ts0"

definition at_own :: "user_node list \<Rightarrow> thread \<Rightarrow> nat \<Rightarrow> bool" where
  "at_own us t k \<longleftrightarrow> k < length us \<and> person (us ! k) = person (own_node t)"

text \<open>Before the time has been taken.\<close>

definition early :: "pc \<Rightarrow> bool" where
  "early p \<longleftrightarrow> p \<in> {Want Naming, Inside Naming, Want Numbering, Inside Numbering, Want Timing, Inside Timing}"

definition told_all_of :: "nat \<Rightarrow> user_node list \<Rightarrow> thread list \<Rightarrow> user_node list \<Rightarrow> thread \<Rightarrow> bool" where
  "told_all_of tz us ts0 vs t \<longleftrightarrow>
     (\<exists>k. at_own us t k \<and> signed_by tz ts0 t (vs ! k) \<and> t_report t = Some (report (vs ! k)))"

fun known_pc :: "nat \<Rightarrow> user_node list \<Rightarrow> thread list \<Rightarrow> user_node list \<Rightarrow> thread \<Rightarrow> pc \<Rightarrow> bool" where
  "known_pc tz us ts0 vs t (Searching b k) \<longleftrightarrow> b = 0 \<and> (\<forall>j<k. \<not> at_own us t j)"
| "known_pc tz us ts0 vs t (SigningOut b k) \<longleftrightarrow> b = 0 \<and> at_own us t k"
| "known_pc tz us ts0 vs t (Leaving b k) \<longleftrightarrow> b = 0 \<and> at_own us t k \<and> end_time (vs ! k) \<in> (\<lambda>r. int (t_now r)) ` set ts0"
| "known_pc tz us ts0 vs t (Calculating b k) \<longleftrightarrow> b = 0 \<and> at_own us t k \<and> signed_by tz ts0 t (vs ! k)"
| "known_pc tz us ts0 vs t (Want (Totalling b k)) \<longleftrightarrow> b = 0 \<and> at_own us t k \<and> signed_by tz ts0 t (vs ! k)"
| "known_pc tz us ts0 vs t (Inside (Totalling b k)) \<longleftrightarrow> b = 0 \<and> at_own us t k \<and> signed_by tz ts0 t (vs ! k)"
| "known_pc tz us ts0 vs t (Reading f b k) \<longleftrightarrow> b = 0 \<and> at_own us t k \<and> signed_by tz ts0 t (vs ! k) \<and>
     t_line t = told f (vs ! k)"
| "known_pc tz us ts0 vs t (Want (Appending f b k)) \<longleftrightarrow> b = 0 \<and> at_own us t k \<and> signed_by tz ts0 t (vs ! k) \<and>
     t_line t = told f (vs ! k) \<and> t_buf t = int_str (number f (vs ! k))"
| "known_pc tz us ts0 vs t (Inside (Appending f b k)) \<longleftrightarrow> b = 0 \<and> at_own us t k \<and> signed_by tz ts0 t (vs ! k) \<and>
     t_line t = told f (vs ! k) \<and> t_buf t = int_str (number f (vs ! k))"
| "known_pc tz us ts0 vs t (Want Inserting) \<longleftrightarrow> told_all_of tz us ts0 vs t"
| "known_pc tz us ts0 vs t (Inside Inserting) \<longleftrightarrow> told_all_of tz us ts0 vs t"
| "known_pc tz us ts0 vs t ShowStart \<longleftrightarrow> told_all_of tz us ts0 vs t"
| "known_pc tz us ts0 vs t (Showing b k) \<longleftrightarrow> b = 0 \<and> told_all_of tz us ts0 vs t"
| "known_pc tz us ts0 vs t Finished \<longleftrightarrow> told_all_of tz us ts0 vs t"
| "known_pc tz us ts0 vs t Undefined \<longleftrightarrow> True"
| "known_pc tz us ts0 vs t p \<longleftrightarrow> early p \<or> p = Finding"

definition times :: "thread list \<Rightarrow> nat \<Rightarrow> tm set" where
  "times ts0 tz = (\<lambda>r. localtime tz (t_now r)) ` set ts0"

definition known_inv :: "nat \<Rightarrow> user_node list \<Rightarrow> thread list \<Rightarrow> config \<Rightarrow> bool" where
  "known_inv tz us ts0 c \<longleftrightarrow> (case c of (s, ts) \<Rightarrow>
     length ts = length ts0 \<and> (\<forall>i < length ts. same_thread (ts ! i) (ts0 ! i)) \<and>
     sh_block s = 0 \<and> sh_size s = length us \<and> map person (sh_users s) = map person us \<and>
     (\<forall>i < length ts. known_pc tz us ts0 (sh_users s) (ts ! i) (t_pc (ts ! i))) \<and>
     (\<forall>i < length ts. \<not> early (t_pc (ts ! i)) \<longrightarrow> sh_tm s \<in> times ts0 tz) \<and>
     (\<forall>k < length us. (\<forall>i < length ts0. \<not> at_own us (ts0 ! i) k) \<longrightarrow> sh_users s ! k = us ! k))"

definition different_people :: "thread list \<Rightarrow> bool" where
  "different_people ts \<longleftrightarrow> distinct (map (\<lambda>t. person (own_node t)) ts)"

text \<open>A thread that changes at most the node of its own person leaves the others where they are.\<close>

lemma known_pc_other:
  assumes "known_pc tz us ts0 vs t p" "\<And>k. at_own us t k \<Longrightarrow> ws ! k = vs ! k"
  shows "known_pc tz us ts0 ws t p"
proof -
  have told: "told_all_of tz us ts0 vs t \<Longrightarrow> told_all_of tz us ts0 ws t" using assms(2) by (auto simp: told_all_of_def)
  show ?thesis
  proof (cases p)
    case (Want sec)
    with assms told show ?thesis by (cases sec) auto
  next
    case (Inside sec)
    with assms told show ?thesis by (cases sec) auto
  qed (use assms told in auto)
qed

lemma at_own_cong: "own_node t = own_node r \<Longrightarrow> at_own us t = at_own us r"
  by (simp add: at_own_def fun_eq_iff)

lemma own_updates [simp]:
  "at_own us (goto p t) = at_own us t" "at_own us (t\<lparr>t_line := x\<rparr>) = at_own us t" "at_own us (t\<lparr>t_buf := x\<rparr>) = at_own us t"
  "at_own us (t\<lparr>t_report := r\<rparr>) = at_own us t" "at_own us (t\<lparr>t_shown := x\<rparr>) = at_own us t"
  "signed_by tz ts0 (goto p t) = signed_by tz ts0 t" "signed_by tz ts0 (t\<lparr>t_line := x\<rparr>) = signed_by tz ts0 t"
  "signed_by tz ts0 (t\<lparr>t_buf := x\<rparr>) = signed_by tz ts0 t" "signed_by tz ts0 (t\<lparr>t_report := r\<rparr>) = signed_by tz ts0 t"
  "signed_by tz ts0 (t\<lparr>t_shown := x\<rparr>) = signed_by tz ts0 t"
  by (simp_all add: at_own_def signed_by_def own_node_def own_time_def fun_eq_iff)

lemma times_mktime: "T \<in> times ts0 tz \<Longrightarrow> int (mktime tz T) \<in> (\<lambda>r. int (t_now r)) ` set ts0"
  by (auto simp: times_def clock.put_break)

lemma calculat_times: "calculat_work_time v = Ret u \<Longrightarrow> leave_time u = leave_time v \<and> end_time u = end_time v"
  by (auto simp: calculat_work_time_def to_int32_Ret)

lemma early_simps [simp]: "early (Want Naming)" "early (Inside Naming)" "early (Want Numbering)" "early (Inside Numbering)"
  "early (Want Timing)" "early (Inside Timing)" "\<not> early Finding" "\<not> early (Searching b k)" "\<not> early (SigningOut b k)"
  "\<not> early (Leaving b k)" "\<not> early (Calculating b k)" "\<not> early (Reading f b k)" "\<not> early Counted" "\<not> early (Comparing b k)"
  "\<not> early (Want Counting)" "\<not> early (Inside Counting)" "\<not> early (Want Pushing)" "\<not> early (Inside Pushing)"
  "\<not> early (Want Inserting)" "\<not> early (Inside Inserting)" "\<not> early (Want (Totalling b k))" "\<not> early (Inside (Totalling b k))"
  "\<not> early (Want (Appending f b k))" "\<not> early (Inside (Appending f b k))"
  "\<not> early ShowStart" "\<not> early (Showing b k)" "\<not> early Finished" "\<not> early Undefined"
  by (simp_all add: early_def)

text \<open>One step of a thread whose person is in the vector.\<close>

lemma act_known:
  assumes act: "act tz extra i s t = Some (s', t')" and block: "sh_block s = 0"
    and people: "map person (sh_users s) = map person us" and reg: "person (own_node t) \<in> person ` set us"
    and pc: "known_pc tz us ts0 (sh_users s) t (t_pc t)" and now: "localtime tz (t_now t) \<in> times ts0 tz"
    and clock: "\<not> early (t_pc t) \<Longrightarrow> sh_tm s \<in> times ts0 tz"
  shows "sh_block s' = 0 \<and> sh_size s' = sh_size s \<and> map person (sh_users s') = map person (sh_users s) \<and>
    (\<forall>k. \<not> at_own us t k \<longrightarrow> sh_users s' ! k = sh_users s ! k) \<and> known_pc tz us ts0 (sh_users s') t' (t_pc t') \<and>
    (sh_tm s' = sh_tm s \<or> sh_tm s' \<in> times ts0 tz) \<and> (\<not> early (t_pc t') \<longrightarrow> sh_tm s' \<in> times ts0 tz)"
proof -
  have len: "length (sh_users s) = length us" using map_eq_imp_length_eq [OF people] .
  have at: "person (sh_users s ! k) = person (us ! k)" if "k < length us" for k
    using people that len by (metis nth_map)
  have change: "map person ((sh_users s)[k := u]) = map person (sh_users s)"
      "\<forall>j. \<not> at_own us t j \<longrightarrow> (sh_users s)[k := u] ! j = sh_users s ! j" "k < length (sh_users s)"
    if "at_own us t k" "person u = person (sh_users s ! k)" for k u
    using that map_person_update [of k "sh_users s" u] len by (auto simp: at_own_def nth_list_update)
  show ?thesis
  proof (cases "t_pc t")
    case (Want sec)
    with act pc clock block show ?thesis
      by (cases sec) (auto simp: act_simps told_all_of_def split: if_splits)
  next
    case (Inside sec)
    show ?thesis
    proof (cases sec)
      case (Appending f b k)
      with Inside act pc clock block show ?thesis
        by (cases f) (auto simp: act_simps told_all_of_def told_all [symmetric])
    qed (use Inside act pc clock now block in \<open>auto simp: act_simps told_all_of_def split: if_splits\<close>)
  next
    case (Searching b k)
    obtain j where j: "at_own us t j" using reg by (auto simp: at_own_def in_set_conv_nth)
    with pc Searching len have "k \<noteq> length (sh_users s)" by (auto simp: at_own_def)
    moreover from j pc Searching have "k \<le> j" by (metis known_pc.simps(1) not_le)
    with j len have "same_person (sh_users s ! k) (own_node t) \<longleftrightarrow> at_own us t k"
      using at [of k] by (auto simp: at_own_def same_person_iff)
    ultimately show ?thesis using act pc clock block Searching
      by (cases "at_own us t k") (auto simp: act_simps less_Suc_eq)
  next
    case (SigningOut b k)
    then have k: "at_own us t k" using pc by simp
    note c = change [OF k, of "(sh_users s ! k)\<lparr>end_time := int (mktime tz (sh_tm s))\<rparr>"]
    show ?thesis using act pc clock block SigningOut c times_mktime
      by (auto simp: act_simps person_def)
  next
    case (Leaving b k)
    then have k: "at_own us t k" using pc by simp
    note c = change [OF k, of "(sh_users s ! k)\<lparr>leave_time := own_time tz t\<rparr>"]
    show ?thesis using act pc clock block Leaving c
      by (auto simp: act_simps person_def signed_by_def)
  next
    case (Calculating b k)
    then have k: "at_own us t k" using pc by simp
    show ?thesis
    proof (cases "\<exists>u. calculat_work_time (sh_users s ! k) = Ret u")
      case True
      then obtain u where u: "calculat_work_time (sh_users s ! k) = Ret u" ..
      from change [OF k person_calculat [OF u]] act pc clock block Calculating u calculat_times [OF u] show ?thesis
        by (auto simp: act_simps signed_by_def)
    next
      case False
      with act pc clock block Calculating show ?thesis by (auto simp: act_simps split: option.splits sum.splits)
    qed
  next
    case (Reading f b k)
    with act pc clock block show ?thesis
      by (cases "INT_MAX < number f (sh_users s ! k)") (auto simp: act_simps)
  next
    case (Showing b k)
    with act pc clock block show ?thesis
      by (cases "k = length (sh_users s)") (auto simp: act_simps told_all_of_def)
  qed (use act pc clock block in \<open>auto simp: act_simps told_all_of_def\<close>)
qed

lemma known_here: "known_inv tz us ts0 (s, ts) \<Longrightarrow> i < length ts \<Longrightarrow> known_pc tz us ts0 (sh_users s) (ts ! i) (t_pc (ts ! i))"
  by (simp add: known_inv_def)

lemma step_known_inv:
  assumes "step tz c c'" "known_inv tz us ts0 c" "different_people ts0"
    and reg: "\<forall>t\<in>set ts0. person (own_node t) \<in> person ` set us"
  shows "known_inv tz us ts0 c'"
  using assms(1)
proof cases
  case (moves i ts extra s s' t)
  from assms(2) moves(1) have inv: "known_inv tz us ts0 (s, ts)" by simp
  then have len: "length ts = length ts0" and s: "sh_block s = 0" "sh_size s = length us" "map person (sh_users s) = map person us"
    and clock: "\<And>j. j < length ts \<Longrightarrow> \<not> early (t_pc (ts ! j)) \<Longrightarrow> sh_tm s \<in> times ts0 tz"
    and rest: "\<And>k. k < length us \<Longrightarrow> \<forall>i < length ts0. \<not> at_own us (ts0 ! i) k \<Longrightarrow> sh_users s ! k = us ! k"
    by (auto simp: known_inv_def)
  have same: "same_thread (ts ! j) (ts0 ! j)" if "j < length ts" for j using inv that by (simp add: known_inv_def)
  then have own: "own_node (ts ! j) = own_node (ts0 ! j)" if "j < length ts" for j
    using that same_thread_own by blast
  have mem: "ts0 ! i \<in> set ts0" using moves(3) len by simp
  have now: "localtime tz (t_now (ts ! i)) \<in> times ts0 tz"
    using mem same [OF moves(3)] by (auto simp: times_def same_thread_def)
  have "person (own_node (ts ! i)) \<in> person ` set us" using reg mem own [OF moves(3)] by simp
  note new = act_known [OF moves(4) s(1,3) this known_here [OF inv moves(3)] now clock [OF moves(3)]]
  have apart: "\<not> at_own us (ts ! i) k" if "j < length ts" "j \<noteq> i" "at_own us (ts ! j) k" for j k
    using assms(3) that len own [OF moves(3)] own [OF that(1)] moves(3)
    by (auto simp: different_people_def at_own_def distinct_conv_nth)
  have pcs: "known_pc tz us ts0 (sh_users s') (ts[i := t] ! j) (t_pc (ts[i := t] ! j))" if "j < length ts" for j
  proof (cases "j = i")
    case True
    with new moves(3) show ?thesis by simp
  next
    case False
    have "known_pc tz us ts0 (sh_users s') (ts ! j) (t_pc (ts ! j))"
      by (rule known_pc_other [OF known_here [OF inv that]]) (use apart [OF that False] new in blast)
    with False show ?thesis by simp
  qed
  have clocks: "sh_tm s' \<in> times ts0 tz" if "j < length ts" "\<not> early (t_pc (ts[i := t] ! j))" for j
    using that clock [OF that(1)] new moves(3) by (cases "j = i") auto
  have sames: "same_thread (ts[i := t] ! j) (ts0 ! j)" if "j < length ts" for j
    using same [OF that] act_same_thread [OF moves(4)] moves(3) by (cases "j = i") (auto simp: same_thread_def)
  have rests: "sh_users s' ! k = us ! k" if "k < length us" "\<forall>i < length ts0. \<not> at_own us (ts0 ! i) k" for k
  proof -
    have "\<not> at_own us (ts ! i) k" using that(2) moves(3) len at_own_cong [OF own [OF moves(3)], of us] by simp
    with new rest [OF that] show ?thesis by simp
  qed
  show ?thesis
    unfolding moves(2) known_inv_def prod.case length_list_update using new s len pcs clocks sames rests by simp
qed

lemma reach_known_inv:
  assumes "reach tz c c'" "known_inv tz us ts0 c" "different_people ts0"
    "\<forall>t\<in>set ts0. person (own_node t) \<in> person ` set us"
  shows "known_inv tz us ts0 c'"
  using assms(1,2) unfolding reach_def
  by (induction rule: rtranclp_induct) (auto intro: step_known_inv [OF _ _ assms(3,4)])

lemma begin_known_inv: "fresh_threads ts \<Longrightarrow> known_inv tz us ts (begin_all us room ts)"
  by (auto simp: known_inv_def begin_all_def fresh_threads_def same_thread_def)

section \<open>Properties\<close>

text \<open>C9. When pairwise different people who are all in the vector sign at the same time, every interleaving
  leaves the vector in place with the same people in the same order and \<open>size\<close> its length; nobody
  is signed out who did not sign; and a thread that has finished has signed out its own person: the text of the
  leaving is its own time, the report is that of the node, and the time from which the work is counted is the time
  of one of the threads (theory \<open>Race_Runs\<close> shows that it need not be its own).\<close>
theorem race_sign_outs:
  assumes "fresh_threads ts" "different_people ts" "\<forall>t\<in>set ts. person (own_node t) \<in> person ` set us"
    and "reach tz (begin_all us room ts) (s, ts')"
  shows "map person (sh_users s) = map person us \<and> sh_size s = length us \<and> sh_block s = 0 \<and>
    (\<forall>k < length us. (\<forall>t\<in>set ts. person (own_node t) \<noteq> person (us ! k)) \<longrightarrow> sh_users s ! k = us ! k) \<and>
    (\<forall>i < length ts. t_pc (ts' ! i) = Finished \<longrightarrow> (\<exists>k < length us. person (us ! k) = person (own_node (ts ! i)) \<and>
       leave_time (sh_users s ! k) = own_time tz (ts ! i) \<and> end_time (sh_users s ! k) \<in> (\<lambda>r. int (t_now r)) ` set ts \<and>
       t_report (ts' ! i) = Some (report (sh_users s ! k))))"
proof -
  have inv: "known_inv tz us ts (s, ts')"
    by (rule reach_known_inv [OF assms(4) begin_known_inv [OF assms(1)] assms(2,3)])
  have "\<exists>k < length us. person (us ! k) = person (own_node (ts ! i)) \<and>
       leave_time (sh_users s ! k) = own_time tz (ts ! i) \<and> end_time (sh_users s ! k) \<in> (\<lambda>r. int (t_now r)) ` set ts \<and>
       t_report (ts' ! i) = Some (report (sh_users s ! k))" if i: "i < length ts" "t_pc (ts' ! i) = Finished" for i
  proof -
    have "i < length ts'" "same_thread (ts' ! i) (ts ! i)" using inv i(1) by (simp_all add: known_inv_def)
    then show ?thesis using known_here [OF inv, of i] i(2) same_thread_own [of "ts' ! i" "ts ! i"]
      by (auto simp: at_own_def signed_by_def told_all_of_def)
  qed
  moreover have "sh_users s ! k = us ! k" if "k < length us" "\<forall>t\<in>set ts. person (own_node t) \<noteq> person (us ! k)" for k
  proof -
    have "\<forall>i<length ts. \<not> at_own us (ts ! i) k" using that(2) by (auto simp: at_own_def)
    with inv that(1) show ?thesis by (simp add: known_inv_def)
  qed
  ultimately show ?thesis using inv by (simp add: known_inv_def)
qed

definition demo_us :: "user_node list" where
  "demo_us = [arrived 0 (localtime 0 100) (new_thread ''li'' ''7'' 100)]"

definition demo_leaver :: thread where
  "demo_leaver = new_thread ''li'' ''7'' 160"

lemma demo_sign_out:
  "\<exists>s t. reach 0 (begin_all demo_us 1 [demo_leaver]) (s, [t]) \<and> t_pc t = Finished"
proof -
  let ?s = "fst (begin_all demo_us 1 [demo_leaver])" and ?v = "leaving 0 160 (demo_us ! 0)"
  note demo = demo_us_def demo_leaver_def new_thread_def own_node_def buynode_def new_user_node_def arrived_def
  have calc: "calculat_work_time ?v = Ret (?v\<lparr>u_min := 1\<rparr>)"
    by (simp add: demo calculat_work_time_def leaving_def clock.put_break INT_MIN_def INT_MAX_def work_loop.simps work_round_def Let_def)
  have "number f (?v\<lparr>u_min := 1\<rparr>) \<le> INT_MAX" for f
    by (cases f) (simp_all add: demo leaving_def INT_MAX_def)
  with calc have "solo 0 0 demo_us 1 (Tm 0 0 0 0 0 0 0) (Some 0) (?v\<lparr>u_min := 1\<rparr>) ?s demo_leaver"
    by (simp add: solo_def begin_all_def) (simp add: demo holds_def)
  from solo_finishes [OF this] obtain s t where "alone 0 0 (?s, demo_leaver) (s, t)" "t_pc t = Finished" by blast
  with alone_reach [of 0 0 "(?s, demo_leaver)" "(s, t)" "[demo_leaver]"] show ?thesis by (auto simp: begin_all_def)
qed

theorem race_sign_outs_witness:
  "\<exists>s ts'. reach 0 (begin_all demo_us 1 [demo_leaver]) (s, ts') \<and> t_pc (ts' ! 0) = Finished \<and>
     sh_size s = 1 \<and> leave_time (sh_users s ! 0) = strftime (localtime 0 160)"
proof -
  from demo_sign_out obtain s t where
    run: "reach 0 (begin_all demo_us 1 [demo_leaver]) (s, [t])" "t_pc t = Finished" by blast
  have "fresh_threads [demo_leaver]" "different_people [demo_leaver]"
    "\<forall>t\<in>set [demo_leaver]. person (own_node t) \<in> person ` set demo_us"
    by (simp_all add: fresh_threads_def different_people_def demo_leaver_def demo_us_def own_node_def new_thread_def)
  note r = race_sign_outs [OF this run(1)]
  have "own_time 0 demo_leaver = strftime (localtime 0 160)" "length demo_us = 1"
    by (simp_all add: own_time_def demo_leaver_def new_thread_def demo_us_def)
  then have "sh_size s = 1" "leave_time (sh_users s ! 0) = strftime (localtime 0 160)" using r run(2) by auto
  with run show ?thesis by (intro exI [of _ s] exI [of _ "[t]"]) simp
qed

end
