(* ===== verification/Client.thy ===== *)
theory Client
  imports Line_Reader Comm "HOL-Library.Word"
begin

text \<open>
  The command line clients: \<open>get_str\<close> and \<open>get_sock\<close> of \<open>client/client.h\<close> and the loop of \<open>main\<close> in
  \<open>client/client.cpp\<close>.  \<open>client/client_http.h\<close> and \<open>client/client_http.cpp\<close> have the same code with the
  constants of \<open>comm/comm.h\<close>; its functions are given too.
\<close>

section \<open>Reading a line from the keyboard\<close>

definition C_SIZE :: nat where [size_defs]: "C_SIZE = 1024"

text \<open>What \<open>fgets(buf, n, stdin)\<close> takes from the input: up to and including a line feed, at most \<open>n - 1\<close>
  characters.  At the end of the input it takes nothing and leaves the buffer alone.\<close>

definition fgets_text :: "nat \<Rightarrow> string \<Rightarrow> string" where
  "fgets_text n inp =
    (let p = take (n - 1) inp
     in if LF \<in> set p then takeWhile (\<lambda>c. c \<noteq> LF) p @ [LF] else p)"

definition get_str :: "char list \<Rightarrow> nat \<Rightarrow> string \<Rightarrow> (nat \<times> char list \<times> string) res" where
  "get_str buf n inp =
    (if \<not> 0 < n then Fail AssertFail
     else
       let t = fgets_text n inp in
       bindR (if t = [] then Ret buf
              else if length t < length buf then Ret (put buf 0 (t @ [NUL])) else Fail OutOfBounds) (\<lambda>buf1.
       bindR (cstr buf1) (\<lambda>s.
         let len = length s in
         if len = 0 then Fail OutOfBounds
         else bindR (wr buf1 (len - 1) NUL) (\<lambda>buf2. Ret (len, buf2, drop (length t) inp)))))"

definition http_get_str :: "char list \<Rightarrow> nat \<Rightarrow> string \<Rightarrow> (nat \<times> char list \<times> string) res" where
  "http_get_str buf n inp =
    (if \<not> 0 < n then Fail AssertFail
     else
       let t = fgets_text n inp in
       bindR (if t = [] then Ret buf
              else if length t < length buf then Ret (put buf 0 (t @ [NUL])) else Fail OutOfBounds) (\<lambda>buf1.
       bindR (cstr buf1) (\<lambda>s.
         let len = length s in
         if len = 0 then Fail OutOfBounds
         else bindR (wr buf1 (len - 1) NUL) (\<lambda>buf2. Ret (len, buf2, drop (length t) inp)))))"

lemma http_get_str_eq: "http_get_str = get_str"
  by (intro ext) (simp add: http_get_str_def get_str_def)

section \<open>The socket\<close>

text \<open>The address the client will connect to: the port is a \<open>short\<close>, handed to \<open>htons\<close> as 16 bits; \<open>pton\<close>
  is \<open>inet_pton\<close>, whose failure goes unnoticed and leaves the address 0; \<open>sockfd\<close> is what \<open>socket\<close> returns.\<close>

record sockaddr =
  sin_port :: "16 word"
  sin_addr :: "32 word"

definition client_get_sock :: "(string \<Rightarrow> 32 word option) \<Rightarrow> int \<Rightarrow> string \<Rightarrow> 16 word \<Rightarrow> int \<times> sockaddr" where
  "client_get_sock pton sockfd ip port =
    (let a = \<lparr>sin_port = port, sin_addr = (case pton ip of None \<Rightarrow> 0 | Some x \<Rightarrow> x)\<rparr>
     in if sockfd < 0 then (-1, a) else (sockfd, a))"

definition http_client_get_sock :: "(string \<Rightarrow> 32 word option) \<Rightarrow> int \<Rightarrow> string \<Rightarrow> 16 word \<Rightarrow> int \<times> sockaddr" where
  "http_client_get_sock pton sockfd ip port =
    (let a = \<lparr>sin_port = port, sin_addr = (case pton ip of None \<Rightarrow> 0 | Some x \<Rightarrow> x)\<rparr>
     in if sockfd < 0 then (-1, a) else (sockfd, a))"

section \<open>The loops of \<open>main\<close>\<close>

text \<open>The inner loop: it ends with \<open>quit\<close> and sends every other line with the NUL that replaces its last
  character.  \<open>reader\<close> is \<open>get_str\<close>.\<close>

partial_function (option) talk ::
  "(char list \<Rightarrow> nat \<Rightarrow> string \<Rightarrow> (nat \<times> char list \<times> string) res) \<Rightarrow> string \<Rightarrow> string list \<Rightarrow>
     (string list \<times> string option) res" where
  "talk reader inp sent =
    bindR (reader (zeros C_SIZE) (C_SIZE - 1) inp) (\<lambda>r.
    bindR (cstr (fst (snd r))) (\<lambda>text.
      if C_SIZE \<le> fst r then Ret (sent, None)
      else if strncaseeq text ''quit'' 4 then Ret (sent, Some (snd (snd r)))
      else talk reader (snd (snd r)) (sent @ [take (fst r) (fst (snd r))])))"

text \<open>The outer loop connects again, on the same socket, after \<open>quit\<close>.  A socket that is connected refuses
  that (\<open>EISCONN\<close>), so the second round ends the program.  \<open>reachable\<close> says whether the first one succeeds.\<close>

definition client_main :: "(string \<Rightarrow> 32 word option) \<Rightarrow> int \<Rightarrow> bool \<Rightarrow> string list \<Rightarrow> string \<Rightarrow>
    (int \<times> string list) res" where
  "client_main pton sockfd reachable argv inp =
    (if length argv < 3 then Ret (-1, [])
     else bindR (atoi (argv ! 2)) (\<lambda>port.
       case client_get_sock pton sockfd (argv ! 1) (word_of_int port) of (sock, addr) \<Rightarrow>
       if sock = -1 then Ret (-1, [])
       else if \<not> reachable then Ret (-1, [])
       else bindR (talk get_str inp []) (\<lambda>(sent, rest). Ret (-1, sent))))"

definition http_client_main :: "(string \<Rightarrow> 32 word option) \<Rightarrow> int \<Rightarrow> bool \<Rightarrow> string list \<Rightarrow> string \<Rightarrow>
    (int \<times> string list) res" where
  "http_client_main pton sockfd reachable argv inp =
    (if length argv < 3 then Ret (-1, [])
     else bindR (atoi (argv ! 2)) (\<lambda>port.
       case http_client_get_sock pton sockfd (argv ! 1) (word_of_int port) of (sock, addr) \<Rightarrow>
       if sock = -1 then Ret (-1, [])
       else if \<not> reachable then Ret (-1, [])
       else bindR (talk http_get_str inp []) (\<lambda>(sent, rest). Ret (-1, sent))))"

lemma http_client_main_eq: "http_client_main = client_main"
  unfolding http_client_main_def client_main_def http_get_str_eq http_client_get_sock_def client_get_sock_def
  by (rule refl)

section \<open>What a session sends\<close>

definition typed :: "string \<Rightarrow> bool" where
  "typed l \<longleftrightarrow> no_nul l \<and> LF \<notin> set l \<and> length l \<le> 1021"

lemma fgets_line: "typed l \<Longrightarrow> fgets_text 1023 (l @ LF # inp) = l @ [LF]"
proof -
  assume l: "typed l"
  then have "length l \<le> 1021" by (simp add: typed_def)
  then have "1022 - length l = Suc (1021 - length l)" by simp
  then have "take 1022 (l @ LF # inp) = l @ LF # take (1021 - length l) inp" using \<open>length l \<le> 1021\<close> by simp
  with l show ?thesis by (simp add: fgets_text_def typed_def takeWhile_append)
qed

lemma get_str_line:
  assumes "typed l"
  shows "get_str (zeros C_SIZE) (C_SIZE - 1) (l @ LF # inp) = Ret (Suc (length l), cbuf C_SIZE l, inp)"
proof -
  have len: "length l \<le> 1021" and nul: "no_nul (l @ [LF])" using assms by (simp_all add: typed_def)
  have b1: "put (zeros C_SIZE) 0 ((l @ [LF]) @ [NUL]) = (l @ [LF]) @ NUL # drop (length l + 2) (zeros C_SIZE)"
    by (simp add: put_0)
  have c: "cstr ((l @ [LF]) @ NUL # drop (length l + 2) (zeros C_SIZE)) = Ret (l @ [LF])"
    using nul by (rule cstr_app)
  have "((l @ [LF]) @ NUL # drop (length l + 2) (zeros C_SIZE))[length l := NUL] = l @ NUL # NUL # zeros (C_SIZE - (length l + 2))"
    by simp
  also have "\<dots> = cbuf C_SIZE l"
  proof -
    have "C_SIZE - Suc (length l) = Suc (C_SIZE - (length l + 2))" using len by (simp add: C_SIZE_def)
    then show ?thesis using len by (simp add: cbuf_split C_SIZE_def zeros_Suc)
  qed
  finally have w: "wr ((l @ [LF]) @ NUL # drop (length l + 2) (zeros C_SIZE)) (length l) NUL = Ret (cbuf C_SIZE l)"
    using len by (simp add: wr_def C_SIZE_def)
  have f: "fgets_text (C_SIZE - 1) (l @ LF # inp) = l @ [LF]" using fgets_line [OF assms] by (simp add: C_SIZE_def)
  have pos: "0 < C_SIZE - 1" "length (l @ [LF]) < length (zeros C_SIZE)" using len by (simp_all add: C_SIZE_def)
  show ?thesis unfolding get_str_def f using pos c w by (simp add: b1 [simplified])
qed

definition says_quit :: "string \<Rightarrow> bool" where
  "says_quit l \<longleftrightarrow> strncaseeq l ''quit'' 4"

definition keyboard :: "string list \<Rightarrow> string" where
  "keyboard ls = concat (map (\<lambda>l. l @ [LF]) ls)"

lemma keyboard_simps [simp]: "keyboard [] = []" "keyboard (l # ls) = l @ LF # keyboard ls"
  by (simp_all add: keyboard_def)

lemma talk_line:
  assumes "typed l"
  shows "talk get_str (l @ LF # inp) sent =
    (if says_quit l then Ret (sent, Some inp) else talk get_str inp (sent @ [l @ [NUL]]))"
proof -
  have len: "length l \<le> 1021" using assms by (simp add: typed_def)
  then have "cstr (cbuf C_SIZE l) = Ret l" "take (Suc (length l)) (cbuf C_SIZE l) = l @ [NUL]" "\<not> C_SIZE \<le> Suc (length l)"
    using assms by (simp_all add: cstr_cbuf cbuf_split typed_def C_SIZE_def)
  with get_str_line [OF assms, of inp] show ?thesis
    by (subst talk.simps) (simp add: says_quit_def)
qed

lemma talk_lines:
  assumes "\<forall>l\<in>set ls. typed l \<and> \<not> says_quit l"
  shows "talk get_str (keyboard ls @ inp) sent = talk get_str inp (sent @ map (\<lambda>l. l @ [NUL]) ls)"
  using assms by (induction ls arbitrary: sent) (simp_all add: talk_line)

lemma talk_eof: "talk get_str [] sent = Fail OutOfBounds"
proof -
  have "get_str (zeros C_SIZE) (C_SIZE - 1) [] = Fail OutOfBounds"
    by (simp add: get_str_def C_SIZE_def fgets_text_def cstr_zeros)
  then show ?thesis by (subst talk.simps) simp
qed

section \<open>Properties\<close>

text \<open>A session of the client: the lines typed before the first one that begins with \<open>quit\<close>, in any
  case, are sent in order, each with a closing NUL in place of its line feed; then the client tries to
  connect the connected socket again and ends with \<open>-1\<close>.  When the keyboard input ends without \<open>quit\<close>,
  \<open>buf[len-1]\<close> is written at length 0, in front of the buffer.\<close>
theorem client_session:
  assumes "\<forall>l\<in>set ls. typed l \<and> \<not> says_quit l" "typed l" "says_quit l"
    "length argv = 3" "atoi (argv ! 2) = Ret port" "0 \<le> sockfd"
  shows "client_main pton sockfd True argv (keyboard ls @ l @ LF # rest) = Ret (-1, map (\<lambda>l. l @ [NUL]) ls) \<and>
     client_main pton sockfd True argv (keyboard ls) = Fail OutOfBounds"
  using assms talk_lines [OF assms(1), of "l @ LF # rest" "[]"] talk_lines [OF assms(1), of "[]" "[]"]
  by (simp add: client_main_def client_get_sock_def talk_line talk_eof Let_def)

theorem client_session_witness:
  "client_main (\<lambda>ip. None) 3 True [''client'', ''127.0.0.1'', ''0''] (keyboard [''hi''] @ ''QUIT'' @ LF # []) = Ret (-1, [''hi'' @ [NUL]]) \<and>
   client_main (\<lambda>ip. None) 3 True [''client'', ''127.0.0.1'', ''0''] (keyboard [''hi'']) = Fail OutOfBounds"
proof -
  have "atoi ''0'' = Ret 0" by code_simp
  moreover have "says_quit ''QUIT''" "\<not> says_quit ''hi''"
    by code_simp+
  ultimately show ?thesis
    using client_session [of "[''hi'']" "''QUIT''" "[''client'', ''127.0.0.1'', ''0'']" 0 3 "\<lambda>ip. None" "[]"]
    by (simp add: typed_def)
qed

text \<open>The client and the server's \<open>get_line\<close> do not fit together: the server takes the NUL the client
  sends for the end of a line and then swallows one more byte, so that it reads the first line of a
  session correctly and the second one without its first character.\<close>
theorem client_second_line_mutilated:
  assumes "\<forall>c\<in>set l1. \<not> terminator c" "length l1 + 1 < SIZE" "c \<noteq> NUL"
  shows "http_get_line SIZE (zeros SIZE) (map Byte (concat (map (\<lambda>l. l @ [NUL]) (l1 # (c # l2) # ls)))) =
     Ret (Suc (length l1), put (zeros SIZE) 0 (l1 @ [LF, NUL]), map Byte (concat (map (\<lambda>l. l @ [NUL]) (l2 # ls))))"
proof -
  have "map Byte l1 = [] \<or> starts_with_byte (map Byte l1)" by (cases l1) auto
  with get_line_reads(1) [of "map Byte l1" SIZE "zeros SIZE" NUL
      "Byte c # map Byte (concat (map (\<lambda>l. l @ [NUL]) (l2 # ls)))" 1 c
      "map Byte (concat (map (\<lambda>l. l @ [NUL]) (l2 # ls)))"] assms
  show ?thesis by (simp add: image_iff)
qed

theorem client_second_line_mutilated_witness:
  "http_get_line SIZE (zeros SIZE) (map Byte (concat (map (\<lambda>l. l @ [NUL]) [''ab'', ''cd'']))) =
     Ret (3, put (zeros SIZE) 0 (''ab'' @ [LF, NUL]), map Byte (''d'' @ [NUL]))"
  using client_second_line_mutilated [of "''ab''" "CHR ''c''" "''d''" "[]"]
  by (simp add: terminator_def SIZE_def)

end
