(* ===== verification/Session.thy ===== *)
theory Session
  imports Server_Http Server_Epoll Client
begin

text \<open>
  The command line clients and the servers together.  A run of \<open>client/client_http.cpp\<close> is put in front of
  the thread server, a run of \<open>client/client.cpp\<close> in front of the epoll server: what the client has sent
  when it closes its socket is the input of the connection.  The client ends every line with a NUL, which
  both functions \<open>get_line\<close> take for a terminator and whose next byte they swallow.  The sockets of the
  thread server block, so a call of \<open>recv\<close> waits for its byte; those of the epoll server do not, so calls may
  fail between any two bytes of what was sent.
\<close>

section \<open>The bytes of a run\<close>

text \<open>What the peer of a client receives before the connection is closed; \<open>run\<close> is the result of the
  client's \<open>main\<close>.\<close>

definition received :: "(int \<times> string list) res \<Rightarrow> rx" where
  "received run = (case run of Some (Inr (k, sent)) \<Rightarrow> map Byte (concat sent) | _ \<Rightarrow> [])"

definition wire :: "string list \<Rightarrow> string" where
  "wire ls = concat (map (\<lambda>l. l @ [NUL]) ls)"

lemma wire_simps [simp]: "wire [] = []" "wire (l # ls) = l @ NUL # wire ls"
  by (simp_all add: wire_def)

text \<open>The arguments with which a client gets as far as its loop.\<close>

definition started :: "string list \<Rightarrow> int \<Rightarrow> bool" where
  "started argv sockfd \<longleftrightarrow> length argv = 3 \<and> (\<exists>port. atoi (argv ! 2) = Ret port) \<and> 0 \<le> sockfd"

definition lines_of :: "string list \<Rightarrow> bool" where
  "lines_of ls \<longleftrightarrow> (\<forall>l\<in>set ls. typed l \<and> \<not> says_quit l)"

lemma received_client:
  assumes "started argv sockfd" "lines_of ls" "typed l" "says_quit l"
  shows "received (client_main pton sockfd True argv (keyboard ls @ l @ LF # rest)) = map Byte (wire ls)"
  using assms client_session [of ls l argv _ sockfd pton rest]
  by (auto simp: started_def lines_of_def received_def wire_def)

section \<open>The loop over the header lines on any bytes\<close>

text \<open>No run of bytes between two terminators fills the buffer.  \<open>k\<close> bytes of the current run have passed.\<close>

fun short_runs :: "nat \<Rightarrow> nat \<Rightarrow> string \<Rightarrow> bool" where
  "short_runs sz k [] \<longleftrightarrow> True"
| "short_runs sz k (c # cs) \<longleftrightarrow> (if terminator c then short_runs sz 0 cs else k + 2 < sz \<and> short_runs sz (Suc k) cs)"

definition ended :: "string \<Rightarrow> bool" where
  "ended cs \<longleftrightarrow> cs = [] \<or> terminator (last cs)"

lemma short_runs_mono: "short_runs sz k cs \<Longrightarrow> j \<le> k \<Longrightarrow> short_runs sz j cs"
  by (induction sz k cs arbitrary: j rule: short_runs.induct) (auto split: if_splits)

lemma short_runs_Cons: "short_runs sz k (c # cs) \<Longrightarrow> short_runs sz 0 cs"
  by (auto split: if_splits intro: short_runs_mono)

lemma short_runs_tail: "short_runs sz 0 cs \<Longrightarrow> short_runs sz 0 (drop (Suc 0) cs)"
  using short_runs_Cons [of sz 0 "hd cs" "tl cs"] by (cases cs) (simp_all only: list.sel drop_Suc drop_0 list.discI tl_Nil)

lemma short_runs_line:
  "\<forall>c\<in>set l. \<not> terminator c \<Longrightarrow> terminator t \<Longrightarrow> short_runs sz k (l @ t # cs) \<Longrightarrow>
     (l \<noteq> [] \<longrightarrow> k + length l + 1 < sz) \<and> short_runs sz 0 cs"
proof (induction l arbitrary: k)
  case (Cons a l)
  then have "k + 2 < sz" "short_runs sz (Suc k) (l @ t # cs)" by simp_all
  moreover from this(2) have "(l \<noteq> [] \<longrightarrow> Suc k + length l + 1 < sz) \<and> short_runs sz 0 cs"
    using Cons.prems by (intro Cons.IH) simp_all
  ultimately show ?case by (cases "l = []") simp_all
qed simp

lemma short_runs_wire: "\<forall>l\<in>set ls. no_nul l \<and> length l + 1 < sz \<Longrightarrow> short_runs sz 0 (wire ls)"
proof (induction ls)
  case (Cons l ls)
  have "length x + k + 1 < sz \<Longrightarrow> short_runs sz k (x @ NUL # wire ls)" for x k
  proof (induction x arbitrary: k)
    case (Cons c x)
    then have "short_runs sz 0 (x @ NUL # wire ls)" "short_runs sz (Suc k) (x @ NUL # wire ls)" by simp_all
    with Cons.prems show ?case by simp
  qed (use Cons in simp)
  with Cons.prems show ?case by simp
qed simp

lemma ended_wire [simp]: "ended (wire ls)"
  by (induction ls) (auto simp: ended_def)

lemma ended_drop: "ended cs \<Longrightarrow> ended (drop n cs)"
  by (cases "n < length cs") (auto simp: ended_def last_drop)

lemma ended_split:
  assumes "ended cs" "cs \<noteq> []"
  obtains l t rest where "cs = l @ t # rest" "\<forall>c\<in>set l. \<not> terminator c" "terminator t" "ended rest"
proof -
  let ?l = "takeWhile (\<lambda>c. \<not> terminator c) cs" and ?r = "dropWhile (\<lambda>c. \<not> terminator c) cs"
  have "\<exists>c\<in>set cs. terminator c" using assms by (auto simp: ended_def intro: bexI [of _ "last cs"])
  then obtain t rest where r: "?r = t # rest" by (cases ?r) (auto simp: dropWhile_eq_Nil_conv)
  have cs: "cs = ?l @ t # rest" using takeWhile_dropWhile_id [of "\<lambda>c. \<not> terminator c" cs] unfolding r by simp
  have "terminator t" using hd_dropWhile [of "\<lambda>c. \<not> terminator c" cs] r by simp
  moreover have "rest = drop (Suc (length ?l)) cs"
    by (subst (2) cs) simp
  ultimately show thesis using that [OF cs] ended_drop [OF assms(1)] by (metis set_takeWhileD)
qed

text \<open>One line of such bytes, as either server reads it.\<close>

lemma get_line_bytes:
  assumes "\<forall>c\<in>set l. \<not> terminator c" "terminator t" "length l + 1 < sz" "sz \<le> length buf"
  shows "http_get_line sz buf (map Byte (l @ t # d # cs)) =
      (if d = NUL then Ret (length l, put buf 0 (l @ [NUL]), map Byte cs)
       else Ret (Suc (length l), put buf 0 (l @ [LF, NUL]), map Byte cs))"
    and "epoll_get_line sz buf (map Byte (l @ t # d # cs)) =
      (if d = NUL then Ret (Suc (length l), put buf 0 (l @ [NUL]), map Byte cs)
       else Ret (Suc (length l), put buf 0 (l @ [LF, NUL]), map Byte cs))"
    and "http_get_line sz buf (map Byte (l @ [t])) =
      (if t = NUL then Ret (length l, put buf 0 (l @ [NUL]), [])
       else Ret (Suc (length l), put buf 0 (l @ [LF, NUL]), []))"
    and "epoll_get_line sz buf (map Byte (l @ [t])) =
      (if t = NUL then Ret (Suc (length l), put buf 0 (l @ [NUL]), [])
       else Ret (Suc (length l), put buf 0 (l @ [LF, NUL]), []))"
proof -
  have es: "\<forall>e\<in>set (map Byte l). plain e" "map Byte l = [] \<or> starts_with_byte (map Byte l)"
    "length (payload (map Byte l)) + 1 < sz"
    using assms(1,3) by (cases l; auto)+
  note two = get_line_reads [OF es assms(4,2), where s = "Byte d # map Byte cs"]
  note one = get_line_reads [OF es assms(4,2), where s = "[]"]
  show "http_get_line sz buf (map Byte (l @ t # d # cs)) =
      (if d = NUL then Ret (length l, put buf 0 (l @ [NUL]), map Byte cs)
       else Ret (Suc (length l), put buf 0 (l @ [LF, NUL]), map Byte cs))"
    and "epoll_get_line sz buf (map Byte (l @ t # d # cs)) =
      (if d = NUL then Ret (Suc (length l), put buf 0 (l @ [NUL]), map Byte cs)
       else Ret (Suc (length l), put buf 0 (l @ [LF, NUL]), map Byte cs))"
    using two [of 1 d "map Byte cs"] by simp_all
  show "http_get_line sz buf (map Byte (l @ [t])) =
      (if t = NUL then Ret (length l, put buf 0 (l @ [NUL]), [])
       else Ret (Suc (length l), put buf 0 (l @ [LF, NUL]), []))"
    and "epoll_get_line sz buf (map Byte (l @ [t])) =
      (if t = NUL then Ret (Suc (length l), put buf 0 (l @ [NUL]), [])
       else Ret (Suc (length l), put buf 0 (l @ [LF, NUL]), []))"
    using one [of 0 t "[]"] by simp_all
qed

text \<open>The buffer after a line holds a string.\<close>

lemma line_string:
  assumes "\<forall>c\<in>set l. \<not> terminator c"
  shows "cstr (put buf 0 (l @ [LF, NUL])) = Ret (l @ [LF])" "cstr (put buf 0 (l @ [NUL])) = Ret l"
  using assms cstr_put [of "l @ [LF]" buf "[]"] cstr_put [of l buf "[]"] by (simp_all add: plain_no_nul)

text \<open>In the thread server the loop comes to an end on every such input, whatever the lines say.\<close>

lemma http_header_loop_returns:
  assumes "short_runs sz 0 cs" "ended cs" "1 < sz" "sz \<le> length buf" "cstr buf = Ret x"
  shows "\<exists>buf1 s. header_loop http_get_line sz num buf (map Byte cs) = Ret (buf1, s)"
  using assms
proof (induction "length cs" arbitrary: cs num buf x rule: less_induct)
  case less
  show ?case
  proof (cases "0 < num \<and> x \<noteq> [LF]")
    case False
    with less.prems show ?thesis by (subst header_loop.simps) auto
  next
    case True
    show ?thesis
    proof (cases "cs = []")
      case True
      with \<open>0 < num \<and> x \<noteq> [LF]\<close> less.prems show ?thesis by (simp add: http_header_loop_closed)
    next
      case False
      then obtain l t rest where cs: "cs = l @ t # rest" "\<forall>c\<in>set l. \<not> terminator c" "terminator t" "ended rest"
        using ended_split less.prems(2) by metis
      have "short_runs sz 0 (l @ t # rest)" using less.prems(1) cs(1) by (simp only:)
      note runs = short_runs_line [OF cs(2,3) this]
      then have len: "length l + 1 < sz" and rest: "short_runs sz 0 rest"
        using less.prems(3) by (cases "l = []", simp_all)
      let ?tail = "drop 1 rest"
      have tail: "short_runs sz 0 ?tail" "ended ?tail" "length ?tail < length cs"
        using rest ended_drop [OF cs(4)] by (simp_all add: cs(1) short_runs_tail)
      obtain n b where line: "http_get_line sz buf (map Byte cs) = Ret (n, b, map Byte ?tail)"
        "sz \<le> length b" "\<exists>y. cstr b = Ret y"
      proof (cases rest)
        case Nil
        then show thesis
          using that get_line_bytes(3) [OF cs(2,3) len less.prems(4)] line_string [OF cs(2), of buf] cs(1) less.prems(4) len
          by (cases "t = NUL") auto
      next
        case (Cons d r)
        then show thesis
          using that get_line_bytes(1) [OF cs(2,3) len less.prems(4), of d r] line_string [OF cs(2), of buf] cs(1) less.prems(4) len
          by (cases "d = NUL") auto
      qed
      then obtain y where y: "cstr b = Ret y" by auto
      have "header_loop http_get_line sz num buf (map Byte cs) = header_loop http_get_line sz n b (map Byte ?tail)"
        using True less.prems(5) line(1) by (subst header_loop.simps) simp
      with less.hyps [OF tail(3) tail(1,2) less.prems(3) line(2) y] show ?thesis by simp
    qed
  qed
qed

section \<open>A session with the thread server\<close>

lemma put_string: "length l < n \<Longrightarrow> put (zeros n) 0 (l @ [NUL]) = cbuf n l"
  by (simp add: put_0 cbuf_split)

text \<open>The protocol of the request line keeps its line feed when the byte that is swallowed behind it is not
  another NUL.\<close>

definition protocol_read :: "string \<Rightarrow> string list \<Rightarrow> string" where
  "protocol_read t ls = (if ls = [] \<or> hd ls = [] then t else t @ [LF])"

lemma first_line_read:
  assumes "\<forall>c\<in>set l. \<not> terminator c" "length l + 1 < SIZE" "\<forall>x\<in>set ls. no_nul x"
  shows "line_read (map Byte (wire (l # ls))) (if ls = [] \<or> hd ls = [] then l else l @ [LF]) (map Byte (drop 1 (wire ls)))"
proof (cases "wire ls")
  case Nil
  then have "ls = []" by (cases ls) simp_all
  with Nil get_line_bytes(3) [OF assms(1), of NUL SIZE "zeros SIZE"] assms(2) show ?thesis
    by (simp add: line_read_def put_string)
next
  case (Cons d cs)
  then have "d = NUL \<longleftrightarrow> hd ls = []" "ls \<noteq> []"
    using assms(3) by (cases ls; cases "hd ls"; auto simp: no_nul_def)+
  with Cons get_line_bytes(1) [OF assms(1), of NUL SIZE "zeros SIZE" d cs] assms(2) show ?thesis
    by (simp add: line_read_def put_string put_line)
qed

text \<open>A request line that can be typed: its tokens fit, and it is one line.\<close>

definition typed_request :: "string \<Rightarrow> string \<Rightarrow> string \<Rightarrow> bool" where
  "typed_request m u t \<longleftrightarrow> line_fits m u (t @ [LF]) \<and> token t \<and> (\<forall>c\<in>set (request_line m u t). \<not> terminator c)
     \<and> length (request_line m u t) \<le> 1021 \<and> \<not> says_quit (request_line m u t)"

lemma typed_request_line:
  assumes "typed_request m u t"
  shows "lines_of [request_line m u t]" "line_fits m u (protocol_read t ls)"
proof -
  have "LF \<notin> set (request_line m u t)" "no_nul (request_line m u t)"
    using assms by (auto simp: typed_request_def intro: plain_no_nul)
  then show "lines_of [request_line m u t]" using assms by (simp add: typed_request_def lines_of_def typed_def)
  show "line_fits m u (protocol_read t ls)"
    using assms by (auto simp: typed_request_def protocol_read_def line_fits_def length_request_line)
qed

lemma session_read:
  assumes "typed_request m u t" "lines_of ls"
  shows "line_read (map Byte (wire (request_line m u t # ls))) (request_line m u (protocol_read t ls)) (map Byte (drop 1 (wire ls)))"
    and "\<exists>s. http_files.header_skip (map Byte (drop 1 (wire ls))) s"
proof -
  have len: "length (request_line m u t) + 1 < SIZE" using assms(1) by (simp add: typed_request_def SIZE_def)
  have nul: "\<forall>x\<in>set ls. no_nul x \<and> length x + 1 < SIZE" using assms(2) by (auto simp: lines_of_def typed_def SIZE_def)
  then show "line_read (map Byte (wire (request_line m u t # ls))) (request_line m u (protocol_read t ls)) (map Byte (drop 1 (wire ls)))"
    using first_line_read [OF _ len, of ls] assms(1)
    by (simp only: typed_request_def protocol_read_def if_distrib [of "request_line m u"] request_line_LF) blast
  have "short_runs SIZE 0 (drop 1 (wire ls))" using short_runs_wire [OF nul] by (simp add: short_runs_tail)
  moreover have "cstr (zeros SIZE) = Ret []" by (simp add: cstr_zeros SIZE_def)
  ultimately have "\<exists>buf1 s. header_loop http_get_line SIZE 1 (zeros SIZE) (map Byte (drop 1 (wire ls))) = Ret (buf1, s)"
    by (intro http_header_loop_returns ended_drop) (simp_all add: SIZE_def)
  then show "\<exists>s. http_files.header_skip (map Byte (drop 1 (wire ls))) s"
    by (auto simp: http_files.header_skip_def)
qed

text \<open>What is typed at the client: a request line, more lines, and a line that ends the session.\<close>

definition typed_session :: "string \<Rightarrow> string list \<Rightarrow> string" where
  "typed_session l ls = keyboard (l # ls) @ ''quit'' @ [LF]"

lemma typed_quit: "typed ''quit''" "says_quit ''quit''"
  by (simp_all add: typed_def) code_simp

lemma received_session:
  assumes "started argv sockfd" "lines_of (l # ls)"
  shows "received (client_main pton sockfd True argv (typed_session l ls)) = map Byte (wire (l # ls))"
  using received_client [OF assms typed_quit, of pton "[]"] by (simp add: typed_session_def)

lemma client_page:
  assumes "started argv sockfd" "typed_request ''GET'' u t" "lines_of ls" "CHR ''?'' \<notin> set u"
    "files w (resource_path u) = Some (Regular c)" "3 \<le> free_count w"
  shows "\<exists>w'. main_loop h [Client (received (http_client_main pton sockfd True argv (typed_session (request_line ''GET'' u t) ls))) now True]
      (st, w) = Ret (None, [file_response ''Content-Type'' c], st, w')"
proof -
  let ?l = "request_line ''GET'' u t"
  have all: "lines_of (?l # ls)" using typed_request_line(1) [OF assms(2)] assms(3) by (simp add: lines_of_def)
  define r where "r = map Byte (wire (?l # ls))"
  define r1 where "r1 = map Byte (drop 1 (wire ls))"
  have rx: "received (http_client_main pton sockfd True argv (typed_session ?l ls)) = r"
    unfolding http_client_main_eq r_def by (rule received_session [OF assms(1) all])
  note read = session_read [OF assms(2,3), folded r_def r1_def]
  then obtain s where skip: "http_files.header_skip r1 s" by blast
  note fits = typed_request_line(2) [OF assms(2), of ls]
  have pos: "0 < free_count w" using assms(6) by simp
  obtain n where n: "fd_new (Socket r [] None) w = (Some n, fd_set (Some n) (Some (Socket r [] None)) w)"
    "n < length (fds w)" "free_count (fd_set (Some n) (Some (Socket r [] None)) w) = free_count w - 1"
    using accept_socket [OF pos] by metis
  let ?w1 = "fd_set (Some n) (Some (Socket r [] None)) w"
  let ?w2 = "set_rx (Some n) r1 ?w1"
  have sock: "fd_get ?w1 (Some n) = Some (Socket r [] None)" using n(2) by simp
  have w2: "fd_get ?w2 (Some n) = Some (Socket r1 [] None)" "files ?w2 (resource_path u) = Some (Regular c)" "2 \<le> free_count ?w2"
    using n(2,3) assms(5,6) free_count_set_used [OF sock, of "Socket r1 [] None"] by (simp_all add: set_rx_def)
  obtain w3 where w3: "exec_get_file (Some n) (resource_path u) (length c) ?w2 = Ret w3"
    "fd_get w3 (Some n) = Some (Socket s (file_response ''Content-Type'' c) None)"
    using http_files.serves_skip [OF skip w2, of "length c"] by auto
  have "files ?w1 (resource_path u) = Some (Regular c)" using assms(5) by simp
  from Accept_file_line [OF read(1) fits assms(4) sock this, of h now st] w3
  have "Accept h now (Some n) (st, ?w1) = Ret (file_response ''Content-Type'' c, st, close (Some n) w3)"
    by (simp add: hang_up_def sock_tx_def)
  with n(1) show ?thesis by (simp add: rx accept_request_def)
qed

lemma good_history_queries: "good_history clk h \<Longrightarrow> (now, q) \<in> set h \<Longrightarrow> good_query q"
  by (induction clk h rule: good_history.induct) auto

section \<open>A session with the epoll server\<close>

text \<open>The lines typed behind the request: at least two characters, none of which ends a line, that fit the
  buffer of the epoll server.\<close>

definition chatty :: "string list \<Rightarrow> bool" where
  "chatty ls \<longleftrightarrow> (\<forall>l\<in>set ls. (\<forall>c\<in>set l. \<not> terminator c) \<and> 2 \<le> length l \<and> length l + 1 < E_SIZE)"

lemma chatty_simps [simp]:
  "chatty []"
  "chatty (l # ls) \<longleftrightarrow> (\<forall>c\<in>set l. \<not> terminator c) \<and> 2 \<le> length l \<and> length l + 1 < E_SIZE \<and> chatty ls"
  by (auto simp: chatty_def)

text \<open>The sockets of the epoll server do not block: what the typed bytes meet is a stream in which calls of
  \<open>recv\<close> may fail between any two of them.  \<open>starts_late\<close> says of what lies behind the request line that for
  some header line the first call of \<open>recv\<close> fails and the second one has a byte.  That \<open>get_line\<close> drops the
  byte and returns an empty line.  A line takes the bytes and the failing calls up to its terminator, and one
  call more.\<close>

function starts_late :: "rx \<Rightarrow> bool" where
  "starts_late [] \<longleftrightarrow> False"
| "starts_late (RecvErr # s) \<longleftrightarrow> starts_with_byte s \<or> starts_late (drop 1 s)"
| "starts_late (Byte c # s) \<longleftrightarrow> starts_late (drop 2 (dropWhile plain (Byte c # s)))"
  by pat_completeness auto
termination
proof (relation "measure length")
  fix c s
  have "length (dropWhile plain s) \<le> length s" by (rule length_dropWhile_le)
  then show "(drop 2 (dropWhile plain (Byte c # s)), Byte c # s) \<in> measure length" by auto
qed auto

definition behind_line :: "rx \<Rightarrow> rx" where
  "behind_line s = drop 2 (dropWhile plain s)"

text \<open>The bytes of lines, the first of which may have lost its first character.\<close>

definition lines_left :: "rx \<Rightarrow> bool" where
  "lines_left s \<longleftrightarrow> payload s = [] \<or>
     (\<exists>l ls. payload s = wire (l # ls) \<and> l \<noteq> [] \<and> (\<forall>c\<in>set l. \<not> terminator c) \<and> length l + 1 < E_SIZE \<and> chatty ls)"

lemma lines_left_wire: "chatty ls \<Longrightarrow> payload s = wire ls \<Longrightarrow> lines_left s"
proof (cases ls)
  case (Cons l ks)
  moreover assume "chatty ls" "payload s = wire ls"
  ultimately have "payload s = wire (l # ks)" "l \<noteq> []" "\<forall>c\<in>set l. \<not> terminator c" "length l + 1 < E_SIZE" "chatty ks" by auto
  then show ?thesis unfolding lines_left_def by blast
qed (simp add: lines_left_def)

lemma lines_left_cut: "chatty ls \<Longrightarrow> payload s = drop 1 (wire ls) \<Longrightarrow> lines_left s"
proof (cases ls)
  case (Cons l ks)
  moreover assume "chatty ls" "payload s = drop 1 (wire ls)"
  ultimately have "payload s = wire (tl l # ks)" "tl l \<noteq> []" "\<forall>c\<in>set (tl l). \<not> terminator c" "length (tl l) + 1 < E_SIZE" "chatty ks"
    by (cases l; cases "tl l"; auto)+
  then show ?thesis unfolding lines_left_def by blast
qed (simp add: lines_left_def)

lemma payload_split:
  assumes "payload s = l @ NUL # k" "\<forall>c\<in>set l. \<not> terminator c"
  shows "\<exists>es s2. s = es @ Byte NUL # s2 \<and> (\<forall>e\<in>set es. plain e) \<and> payload es = l \<and> payload s2 = k"
  using assms
proof (induction s arbitrary: l rule: payload.induct)
  case (2 c s)
  show ?case
  proof (cases l)
    case Nil
    with 2 show ?thesis by (intro exI [of _ "[]"] exI [of _ s]) simp
  next
    case (Cons d ds)
    with 2 have "payload s = ds @ NUL # k" "\<forall>c\<in>set ds. \<not> terminator c" by simp_all
    from 2(1) [OF this] obtain es s2 where "s = es @ Byte NUL # s2" "\<forall>e\<in>set es. plain e" "payload es = ds" "payload s2 = k"
      by blast
    with 2 Cons show ?thesis by (intro exI [of _ "Byte c # es"] exI [of _ s2]) simp
  qed
next
  case (3 s)
  then have "payload s = l @ NUL # k" by simp
  from 3(1) [OF this 3(3)] obtain es s2 where "s = es @ Byte NUL # s2" "\<forall>e\<in>set es. plain e" "payload es = l" "payload s2 = k"
    by blast
  then show ?case by (intro exI [of _ "RecvErr # es"] exI [of _ s2]) simp
qed simp

lemma behind_line_split: "\<forall>e\<in>set es. plain e \<Longrightarrow> behind_line (es @ Byte NUL # s2) = drop 1 s2"
  by (simp add: behind_line_def dropWhile_append2 numeral_2_eq_2)

text \<open>A line whose first byte is there is read, whatever fails behind it; the call of \<open>recv\<close> behind its NUL
  takes a byte of the next line only when it does not fail.\<close>

lemma epoll_line:
  assumes "starts_with_byte s" "payload s = l @ NUL # wire ls" "\<forall>c\<in>set l. \<not> terminator c" "l \<noteq> []"
    "length l + 1 < E_SIZE" "chatty ls" "E_SIZE \<le> length buf"
  shows "\<exists>x. x \<in> {[], [LF]} \<and>
      epoll_get_line E_SIZE buf s = Ret (Suc (length l), put buf 0 (l @ x @ [NUL]), behind_line s)"
    and "lines_left (behind_line s)"
proof -
  obtain es s2 where s: "s = es @ Byte NUL # s2" "\<forall>e\<in>set es. plain e" "payload es = l" "payload s2 = wire ls"
    using payload_split [OF assms(2,3)] by blast
  then have es: "es = [] \<or> starts_with_byte es" using assms(1) by (cases es; cases "hd es") auto
  have len: "length (payload es) + 1 < E_SIZE" using s(3) assms(5) by simp
  note reads = get_line_reads [OF s(2) es len assms(7) terminator_simps(1), of s2]
  have rest: "behind_line s = drop 1 s2" using behind_line_split [OF s(2)] s(1) by simp
  show "\<exists>x. x \<in> {[], [LF]} \<and>
      epoll_get_line E_SIZE buf s = Ret (Suc (length l), put buf 0 (l @ x @ [NUL]), behind_line s)"
  proof (cases "starts_with_byte s2")
    case True
    then obtain c s3 where s2: "s2 = Byte c # s3" by (auto simp: starts_with_byte_def)
    then have "c \<noteq> NUL" using s(4) assms(6) by (cases ls; cases "hd ls") auto
    with reads(2) [of 1 c s3] s2 s(1,3) rest show ?thesis by (intro exI [of _ "[LF]"]) simp
  next
    case False
    then have "recv1 s2 NUL = (if s2 = [] then 0 else -1, NUL, drop 1 s2)" by (cases s2; cases "hd s2") auto
    from reads(4) [OF this] s(1,3) rest show ?thesis by (intro exI [of _ "[]"]) simp
  qed
  show "lines_left (behind_line s)"
  proof (cases "starts_with_byte s2")
    case True
    then have "payload (drop 1 s2) = drop 1 (payload s2)" by (auto simp: starts_with_byte_def)
    then have "payload (drop 1 s2) = drop 1 (wire ls)" by (simp only: s(4))
    with assms(6) show ?thesis unfolding rest by (rule lines_left_cut)
  next
    case False
    then have "payload (drop 1 s2) = wire ls" using s(4) by (cases s2; cases "hd s2") auto
    with assms(6) show ?thesis unfolding rest by (rule lines_left_wire)
  qed
qed

text \<open>A \<open>get_line\<close> whose first call fails: nothing, or the line feed.\<close>

lemma epoll_line_late:
  assumes "length buf = E_SIZE"
  shows "\<not> starts_with_byte s \<Longrightarrow> epoll_get_line E_SIZE buf (RecvErr # s) = Ret (1, put buf 0 [NUL], drop 1 s)"
    and "s = Byte c # s1 \<Longrightarrow> c \<noteq> NUL \<Longrightarrow> epoll_get_line E_SIZE buf (RecvErr # s) = Ret (1, put buf 0 [LF, NUL], s1)"
proof -
  have len: "0 < length buf" "1 < length buf" "0 < E_SIZE - 1" using assms by (simp_all add: E_SIZE_def)
  note early = line_loop_early [OF len(3), of "RecvErr # s" buf]
  { assume "\<not> starts_with_byte s"
    then have "recv1 s NUL = (if s = [] then 0 else -1, NUL, drop 1 s)" by (cases s; cases "hd s") auto
    with early len put_snoc0 [of "[]" buf NUL] show "epoll_get_line E_SIZE buf (RecvErr # s) = Ret (1, put buf 0 [NUL], drop 1 s)"
      by (simp add: epoll_get_line_def) }
  { assume "s = Byte c # s1" "c \<noteq> NUL"
    with early len put_snoc0 [of "[LF]" buf NUL] put_snoc0 [of "[]" buf LF]
    show "epoll_get_line E_SIZE buf (RecvErr # s) = Ret (1, put buf 0 [LF, NUL], s1)"
      by (simp add: epoll_get_line_def) }
qed

text \<open>The loop over the header lines: it reads to the end of the input, where it stays, unless a line starts
  late.\<close>

lemma epoll_header_loop_late:
  assumes "lines_left s" "0 < num" "cstr buf = Ret x" "x \<noteq> [LF]" "length buf = E_SIZE"
  shows "if starts_late s then \<exists>b s1. header_loop epoll_get_line E_SIZE num buf s = Ret (b, s1)
    else header_loop epoll_get_line E_SIZE num buf s = Hang"
  using assms
proof (induction "length s" arbitrary: s num buf x rule: less_induct)
  case less
  have next_line: "header_loop epoll_get_line E_SIZE num buf s = header_loop epoll_get_line E_SIZE n b s1"
    if "epoll_get_line E_SIZE buf s = Ret (n, b, s1)" for n b s1
    using that less.prems(2-4) by (subst header_loop.simps) simp
  have buf: "E_SIZE \<le> length buf" using less.prems(5) by simp
  show ?case
  proof (cases s rule: starts_late.cases)
    case 1
    then show ?thesis using epoll_header_loop_closed [OF less.prems(2-4) _ buf] by (simp add: E_SIZE_def)
  next
    case (2 r)
    show ?thesis
    proof (cases "starts_with_byte r")
      case True
      then obtain c s1 where r: "r = Byte c # s1" by (auto simp: starts_with_byte_def)
      moreover have "c \<noteq> NUL" using less.prems(1) 2 r by (auto simp: lines_left_def neq_Nil_conv)
      ultimately have "header_loop epoll_get_line E_SIZE num buf s = header_loop epoll_get_line E_SIZE 1 (put buf 0 [LF, NUL]) s1"
        using epoll_line_late(2) [OF less.prems(5)] by (intro next_line) (simp add: 2)
      with 2 True show ?thesis by (simp add: epoll_lines.header_loop_blank)
    next
      case False
      then have "payload (drop 1 r) = payload s" using 2 by (cases r; cases "hd r") auto
      then have left: "lines_left (drop 1 r)" using less.prems(1) by (simp add: lines_left_def)
      have "header_loop epoll_get_line E_SIZE num buf s = header_loop epoll_get_line E_SIZE 1 (put buf 0 [NUL]) (drop 1 r)"
        using epoll_line_late(1) [OF less.prems(5) False] by (intro next_line) (simp add: 2)
      moreover have "cstr (put buf 0 [NUL]) = Ret []" using line_string(2) [of "[]" buf] by simp
      moreover have "length (put buf 0 [NUL]) = E_SIZE" using less.prems(5) by (simp add: E_SIZE_def)
      ultimately show ?thesis using less.hyps [OF _ left, of 1 "put buf 0 [NUL]" "[]"] 2 False by (simp add: One_nat_def [symmetric] del: One_nat_def)
    qed
  next
    case (3 c r)
    then obtain l ls where l: "payload s = wire (l # ls)" "l \<noteq> []" "\<forall>c\<in>set l. \<not> terminator c" "length l + 1 < E_SIZE" "chatty ls"
      using less.prems(1) by (auto simp: lines_left_def)
    have byte: "starts_with_byte s" by (simp add: 3)
    note line = epoll_line [OF byte l(1) [unfolded wire_simps] l(3,2,4,5) buf]
    obtain y where y: "y \<in> {[], [LF]}" "epoll_get_line E_SIZE buf s = Ret (Suc (length l), put buf 0 (l @ y @ [NUL]), behind_line s)"
      using line(1) by blast
    have str: "cstr (put buf 0 (l @ y @ [NUL])) = Ret (l @ y)" using line_string [OF l(3), of buf] y(1) by auto
    have "l @ y \<noteq> [LF]" using l(2,3) by (cases l) auto
    moreover have "length (put buf 0 (l @ y @ [NUL])) = E_SIZE" using y(1) l(4) less.prems(5) by auto
    moreover have "length (behind_line s) < length s"
      using length_dropWhile_le [of plain r] by (auto simp: behind_line_def 3)
    moreover have "starts_late s = starts_late (behind_line s)" by (simp add: 3 behind_line_def)
    ultimately show ?thesis
      using less.hyps [of "behind_line s" "Suc (length l)" "put buf 0 (l @ y @ [NUL])" "l @ y"] line(2) str
      unfolding next_line [OF y(2)] by simp
  qed
qed

definition epoll_typed :: "string \<Rightarrow> string \<Rightarrow> bool" where
  "epoll_typed u t \<longleftrightarrow> length (request_line ''GET'' u t) + 1 < E_SIZE \<and> length (resource_path u) < E_PATH_SIZE"

text \<open>The request is answered, or the thread waits for ever.\<close>

lemma epoll_request_late:
  assumes "typed_request ''GET'' u t" "epoll_typed u t" "chatty ls" "CHR ''?'' \<notin> set u"
    "starts_with_byte s" "payload s = wire (request_line ''GET'' u t # ls)"
    "fd_get w sock = Some (Socket s [] (Some room))" "files w (resource_path u) = Some (Regular c)" "2 \<le> free_count w"
  shows "if starts_late (behind_line s)
    then \<exists>w'. epoll_accept_request sock w = Ret (take room (file_response ''COntent-Type'' c), w') \<and> fd_get w' sock = None
    else epoll_accept_request sock w = Hang"
proof -
  let ?l = "request_line ''GET'' u t" and ?r = "behind_line s"
  have l: "\<forall>c\<in>set ?l. \<not> terminator c" "length ?l + 1 < E_SIZE" "?l \<noteq> []"
    using assms(1,2) by (auto simp: typed_request_def epoll_typed_def request_line_def)
  note line = epoll_line [OF assms(5) assms(6) [unfolded wire_simps] l(1,3,2) assms(3), of "zeros E_SIZE"]
  obtain x where x: "x \<in> {[], [LF]}" "epoll_get_line E_SIZE (zeros E_SIZE) s = Ret (Suc (length ?l), put (zeros E_SIZE) 0 (?l @ x @ [NUL]), ?r)"
    using line(1) by auto
  have len: "length (?l @ x) < E_SIZE" using l(2) x(1) by auto
  have "put (zeros E_SIZE) 0 (?l @ x @ [NUL]) = cbuf E_SIZE (request_line ''GET'' u (t @ x))"
    using put_string [OF len] by (simp add: request_line_def)
  with x(2) assms(7) have n: "epoll_get_line E_SIZE (zeros E_SIZE) (sock_rx sock w) =
      Ret (Suc (length ?l), cbuf E_SIZE (request_line ''GET'' u (t @ x)), ?r)" by (simp add: sock_rx_def)
  have fits: "line_fits ''GET'' u (t @ x)"
    using typed_request_line(2) [OF assms(1), of "[]"] typed_request_line(2) [OF assms(1), of "[''a'']"] x(1)
    by (auto simp: protocol_read_def)
  have res: "spec_resource ''GET'' u = u" using assms(4) by (simp add: spec_resource_def)
  have "length (request_line ''GET'' u (t @ x)) < E_SIZE" using len by (simp add: request_line_def)
  moreover have "length u < E_URL_SIZE" "length ''GET'' < E_METHOD_SIZE"
    using l(2) by (simp_all add: length_request_line size_defs)
  ultimately have parse: "get_method_path_url (cbuf E_SIZE (request_line ''GET'' u (t @ x))) init_epoll_request
      = Ret (epoll_parsed ''GET'' u)"
    using fits assms(2) res by (intro epoll_parse_eq) (simp_all add: line_fits_def epoll_typed_def)
  have get: "epoll_knows ''GET''" by (simp add: epoll_knows_def strcaseeq_def)
  have path: "cstr (cbuf E_PATH_SIZE (resource_path u)) = Ret (resource_path u)"
    using assms(2) fits by (intro cstr_cbuf) (simp_all add: epoll_typed_def line_fits_def token_no_nul)
  let ?w1 = "set_rx sock ?r w"
  have w1: "fd_get ?w1 sock = Some (Socket ?r [] (Some room))" "files ?w1 (resource_path u) = Some (Regular c)"
    "2 \<le> free_count ?w1" "sock_rx sock ?w1 = ?r"
    using assms(7-9) by (simp_all add: set_rx_def sock_rx_def free_count_set_used)
  have "cstr (zeros E_SIZE) = Ret []" by (simp add: cstr_zeros E_SIZE_def)
  from epoll_header_loop_late [OF line(2) _ this, of 1]
  have loop: "if starts_late ?r then \<exists>s1. epoll_files.header_skip ?r s1
      else header_loop epoll_get_line E_SIZE 1 (zeros E_SIZE) ?r = Hang"
    unfolding epoll_files.header_skip_def by (cases "starts_late ?r") auto
  show ?thesis
  proof (cases "starts_late ?r")
    case True
    with loop obtain s1 where "epoll_files.header_skip ?r s1" by auto
    from epoll_files.serves_skip [OF this w1(1-3), of "length c"] epoll_files.get_regular [OF path w1(2), of sock]
    obtain w2 where "epoll_exec_get sock (cbuf E_PATH_SIZE (resource_path u)) ?w1 = Ret w2"
      "fd_get w2 sock = Some (Socket s1 (take room (file_response ''COntent-Type'' c)) (room_left (Some room) (file_response ''COntent-Type'' c)))"
      by (auto simp: accepted_def)
    with n parse assms(4) get res True show ?thesis
      by (simp add: epoll_accept_request_def epoll_parsed_def spec_cgi_def epoll_sock_tx_def close_def Let_def)
  next
    case False
    with loop w1(4) have "epoll_exec_get_file sock (resource_path u) (length c) ?w1 = Hang"
      by (simp add: epoll_exec_get_file_def)
    then have "epoll_exec_get sock (cbuf E_PATH_SIZE (resource_path u)) ?w1 = Hang"
      using epoll_files.get_regular [OF path w1(2)] by simp
    with n parse assms(4) get res False show ?thesis
      by (simp add: epoll_accept_request_def epoll_parsed_def spec_cgi_def Let_def)
  qed
qed

section \<open>Properties\<close>

definition typed_sign :: "string \<Rightarrow> string \<Rightarrow> string \<Rightarrow> bool" where
  "typed_sign p t q \<longleftrightarrow> CHR ''?'' \<notin> set p \<and> typed_request ''GET'' (sign_url p q) t \<and> length q + 13 < QUERY_SIZE"

lemma typed_sign_stream:
  assumes "typed_sign p t q" "good_query q" "lines_of ls" "started argv sockfd"
  shows "sign_stream p q (received (http_client_main pton sockfd True argv
    (typed_session (request_line ''GET'' (sign_url p q) t) ls)))"
proof -
  let ?l = "request_line ''GET'' (sign_url p q) t"
  have req: "typed_request ''GET'' (sign_url p q) t" using assms(1) by (simp add: typed_sign_def)
  have "lines_of (?l # ls)" using typed_request_line(1) [OF req] assms(3) by (simp add: lines_of_def)
  then have "received (http_client_main pton sockfd True argv (typed_session ?l ls)) = map Byte (wire (?l # ls))"
    unfolding http_client_main_eq by (intro received_session assms(4))
  with session_read [OF req assms(3)] typed_request_line(2) [OF req, of ls] assms(1,2) show ?thesis
    by (auto simp: sign_stream_def typed_sign_def)
qed

text \<open>C2. Signing in from the keyboard, from the keys pressed at the client to the register of the server: each
  visitor starts \<open>client_http\<close>, types a GET with a name and a number, whatever other lines, and \<open>quit\<close>.
  The server is sent the typed lines, reads the request although the client ends its lines with NULs, answers
  every visitor with the output of the CGI program, and its register is the abstract one after the same
  history.\<close>
theorem keyboard_sign_ins:
  assumes "server_inv clk st" "good_history clk (map (\<lambda>(now, q, ls). (now, q)) hist)"
    "\<forall>(now, q, ls)\<in>set hist. int now \<le> INT_MAX - 60 \<and> typed_sign p t q \<and> lines_of ls"
    "data_room (length hist) st" "int (length hist) * 74566 \<le> INT_MAX"
    "5 \<le> free_count w" "cgi_ready (h_cgi h)" "started argv sockfd"
  shows "\<exists>st'. main_loop h (map (\<lambda>(now, q, ls). Client (received (http_client_main pton sockfd True argv
        (typed_session (request_line ''GET'' (sign_url p q) t) ls))) now True) hist) (st, w) =
      Ret (None, map (\<lambda>(now, q, ls). sign_answer h p q) hist, st', w) \<and>
    register_of (users st') = sign_history (map (\<lambda>(now, q, ls). (now, q)) hist) (register_of (users st))"
proof -
  let ?rx = "\<lambda>q ls. received (http_client_main pton sockfd True argv (typed_session (request_line ''GET'' (sign_url p q) t) ls))"
  let ?vs = "map (\<lambda>(now, q, ls). (now, q, ?rx q ls)) hist"
  have eqs: "map visit_sign ?vs = map (\<lambda>(now, q, ls). (now, q)) hist"
    "map visit_arrival ?vs = map (\<lambda>(now, q, ls). Client (?rx q ls) now True) hist"
    "map (\<lambda>(now, q, r). sign_answer h p q) ?vs = map (\<lambda>(now, q, ls). sign_answer h p q) hist"
    by (simp_all add: case_prod_unfold visit_sign_def visit_arrival_def)
  have good: "good_query q" if "(now, q, ls) \<in> set hist" for now q ls
    using good_history_queries [OF assms(2), of now q] that by force
  then have "\<forall>(now, q, r)\<in>set ?vs. sign_stream p q r"
    using assms(3,8) by (auto intro!: typed_sign_stream)
  moreover have "\<forall>v\<in>set ?vs. int (fst v) \<le> INT_MAX - 60" using assms(3) by auto
  ultimately show ?thesis
    using serve_visits [of clk st ?vs p w h] assms(1,2,4-7) unfolding eqs by (simp only: length_map)
qed

definition demo_argv :: "string list" where
  "demo_argv = [''client_http'', ''127.0.0.1'', ''8080'']"

lemma demo_started: "started demo_argv 3"
proof -
  have "atoi ''8080'' = Ret 8080" by code_simp
  then show ?thesis by (simp add: started_def demo_argv_def)
qed

lemma demo_typed:
  "typed_request ''GET'' ''/a'' ''HTTP/1.1''" "epoll_typed ''/a'' ''HTTP/1.1''"
  "typed_sign ''/s'' ''HTTP/1.1'' ''a=li&b=7''" "lines_of [''hello'']" "chatty [''hello'']"
proof -
  have "\<not> says_quit (request_line ''GET'' u t)" for u t
    by (simp add: says_quit_def strncaseeq_def tolower_def request_line_def)
  moreover have "\<not> says_quit ''hello''" by code_simp
  ultimately show "typed_request ''GET'' ''/a'' ''HTTP/1.1''" "epoll_typed ''/a'' ''HTTP/1.1''"
    "typed_sign ''/s'' ''HTTP/1.1'' ''a=li&b=7''" "lines_of [''hello'']" "chatty [''hello'']"
    by (simp_all add: typed_sign_def typed_request_def epoll_typed_def line_fits_def token_def size_defs
        resource_path_def spec_resource_def before_q_def terminator_def sign_url_def lines_of_def typed_def)
      (simp_all add: request_line_def terminator_def)
qed

definition demo_visits :: "(nat \<times> string \<times> string list) list" where
  "demo_visits = [(100, ''a=li&b=7'', []), (160, ''a=li&b=7'', [''hello'']), (200, ''a=li&b=7'', [''hello''])]"

theorem keyboard_sign_ins_witness:
  "\<exists>st'. main_loop demo_host (map (\<lambda>(now, q, ls). Client (received (http_client_main (\<lambda>ip. None) 3 True demo_argv
        (typed_session (request_line ''GET'' (sign_url ''/s'' q) ''HTTP/1.1'') ls))) now True) demo_visits)
      (new_server 0, idle_world 5) =
      Ret (None, map (\<lambda>(now, q, ls). sign_answer demo_host ''/s'' q) demo_visits, st', idle_world 5) \<and>
    register_of (users st') = sign_history (map (\<lambda>(now, q, ls). (now, q)) demo_visits) (register_of (users (new_server 0)))"
proof (rule keyboard_sign_ins [where clk = 0])
  show "cgi_ready (h_cgi demo_host)" by (simp add: cgi_ready_def demo_host_def demo_cgi_simps)
  show "\<forall>(now, q, ls)\<in>set demo_visits. int now \<le> INT_MAX - 60 \<and> typed_sign ''/s'' ''HTTP/1.1'' q \<and> lines_of ls"
    using demo_typed(3,4) by (simp add: INT_MAX_def lines_of_def demo_visits_def)
qed (simp_all add: server_inv_new demo_started demo_query(1) data_room_new INT_MAX_def demo_visits_def)

text \<open>C20. The same session at the two servers: a request line for a file, and behind it any lines of at
  least two characters.  The thread server, whose loop over the header lines ends when the client has closed
  the connection, answers with the file.  A thread of the epoll server finds the first byte there; behind it
  any call of \<open>recv\<close> may fail, since its socket does not block.  As long as no header line starts late, for
  instance when no call fails at all, the thread reads the end of the connection for ever and never answers.
  When one does, \<open>get_line\<close> drops a byte and returns an empty line, the loop takes it for the end of the
  header, and the thread answers with as much of the file as the send buffer takes, and closes the
  connection.\<close>
theorem session_at_both_servers:
  assumes "started argv sockfd" "typed_request ''GET'' u t" "epoll_typed u t" "lines_of ls" "chatty ls"
    "CHR ''?'' \<notin> set u" "files w (resource_path u) = Some (Regular c)" "3 \<le> free_count w"
    "starts_with_byte s" "payload s = payload (received (client_main pton sockfd True argv
       (typed_session (request_line ''GET'' u t) ls)))" "fd_get w2 sock = Some (Socket s [] (Some room))"
    "files w2 (resource_path u) = Some (Regular c2)" "2 \<le> free_count w2"
  shows "(\<exists>w'. main_loop h [Client (received (http_client_main pton sockfd True argv
        (typed_session (request_line ''GET'' u t) ls))) now True] (st, w) =
      Ret (None, [file_response ''Content-Type'' c], st, w')) \<and>
    (if starts_late (behind_line s)
     then \<exists>w'. epoll_accept_request sock w2 = Ret (take room (file_response ''COntent-Type'' c2), w') \<and> fd_get w' sock = None
     else epoll_accept_request sock w2 = Hang)"
proof (rule conjI [OF client_page [OF assms(1,2,4,6-8)]])
  have "lines_of (request_line ''GET'' u t # ls)"
    using typed_request_line(1) [OF assms(2)] assms(4) by (simp add: lines_of_def)
  from received_session [OF assms(1) this, of pton] assms(10)
  have "payload s = wire (request_line ''GET'' u t # ls)" by simp
  from epoll_request_late [OF assms(2,3,5,6,9) this assms(11-13)]
  show "if starts_late (behind_line s)
     then \<exists>w'. epoll_accept_request sock w2 = Ret (take room (file_response ''COntent-Type'' c2), w') \<and> fd_get w' sock = None
     else epoll_accept_request sock w2 = Hang" .
qed

text \<open>The bytes \<open>GET /a HTTP/1.1\<close>, \<open>hello\<close> and \<open>again\<close>: all at once, with a gap in the middle of a line, and with a
  gap in front of the second line.\<close>

definition sent_line :: "string \<Rightarrow> rx" where
  "sent_line line = map Byte (line @ [NUL])"

definition demo_streams :: "rx \<times> rx \<times> rx" where
  "demo_streams =
    (let rq = sent_line (request_line ''GET'' ''/a'' ''HTTP/1.1'')
     in (rq @ sent_line ''hello'' @ sent_line ''again'',
         rq @ map Byte ''hel'' @ RecvErr # sent_line ''lo'' @ sent_line ''again'',
         rq @ sent_line ''hello'' @ RecvErr # RecvErr # sent_line ''again''))"

lemma starts_with_byte_code [code]:
  "starts_with_byte [] = False" "starts_with_byte (Byte c # s) = True" "starts_with_byte (RecvErr # s) = False"
  by simp_all

definition demo_at :: "rx \<Rightarrow> world" where
  "demo_at s = fd_set (Some 0) (Some (Socket s [] (Some 30))) (idle_world 5)"

theorem session_at_both_servers_witness:
  "(\<exists>w'. main_loop demo_host [Client (received (http_client_main (\<lambda>ip. None) 3 True demo_argv
        (typed_session (request_line ''GET'' ''/a'' ''HTTP/1.1'') [''hello'', ''again'']))) 100 True] (new_server 0, idle_world 5) =
      Ret (None, [file_response ''Content-Type'' ''hello''], new_server 0, w')) \<and>
   (case demo_streams of (whole, gap, late) \<Rightarrow>
      epoll_accept_request (Some 0) (demo_at whole) = Hang \<and>
      epoll_accept_request (Some 0) (demo_at gap) = Hang \<and>
      (\<exists>w'. epoll_accept_request (Some 0) (demo_at late) = Ret (take 30 (file_response ''COntent-Type'' ''hello''), w')))"
proof -
  let ?ls = "[''hello'', ''again'']" and ?l = "request_line ''GET'' ''/a'' ''HTTP/1.1''"
  have ls: "lines_of ?ls" "chatty ?ls"
    using demo_typed(4,5) by (auto simp: lines_of_def typed_def terminator_def size_defs) code_simp
  have rx: "payload (received (client_main (\<lambda>ip. None) 3 True demo_argv (typed_session ?l ?ls))) = wire (?l # ?ls)"
    using received_session [OF demo_started, of ?l ?ls] typed_request_line(1) [OF demo_typed(1)] ls(1)
    by (simp add: lines_of_def)
  note both = session_at_both_servers [OF demo_started demo_typed(1,2) ls, where pton = "\<lambda>ip. None" and w = "idle_world 5"
    and c = "''hello''" and ?c2.0 = "''hello''" and sock = "Some 0" and room = 30 and h = demo_host and now = 100 and st = "new_server 0"]
  have sides: "CHR ''?'' \<notin> set ''/a''" "files (idle_world 5) (resource_path ''/a'') = Some (Regular ''hello'')"
    "3 \<le> free_count (idle_world 5)" "fd_get (demo_at s) (Some 0) = Some (Socket s [] (Some 30))"
    "files (demo_at s) (resource_path ''/a'') = Some (Regular ''hello'')" "2 \<le> free_count (demo_at s)" for s
    by (simp_all add: demo_at_def demo_files_def resource_path_def idle_world_def fd_get_def fd_set_def free_count_def eval_nat_numeral)
  obtain whole gap late where d: "demo_streams = (whole, gap, late)" by (cases demo_streams)
  then have bytes: "payload whole = wire (?l # ?ls)" "payload gap = wire (?l # ?ls)" "payload late = wire (?l # ?ls)"
    "starts_with_byte whole" "starts_with_byte gap" "starts_with_byte late"
    by (auto simp: demo_streams_def sent_line_def request_line_def)
  have gaps: "case demo_streams of (whole, gap, late) \<Rightarrow> \<not> starts_late (behind_line whole) \<and>
      \<not> starts_late (behind_line gap) \<and> starts_late (behind_line late)"
    by code_simp
  show ?thesis
    using both [OF sides(1-3) bytes(4) bytes(1) [folded rx] sides(4-6)] both [OF sides(1-3) bytes(5) bytes(2) [folded rx] sides(4-6)]
      both [OF sides(1-3) bytes(6) bytes(3) [folded rx] sides(4-6)] gaps
    by (auto simp: d)
qed

end
