(* ===== verification/Console.thy ===== *)
theory Console
  imports Request
begin

text \<open>
  The log on standard output: the three functions \<open>print_log\<close> (\<open>comm/comm.h\<close>, \<open>client/client.h\<close>,
  \<open>server/server.h\<close>), \<open>show_resource\<close> and the lines \<open>get_path_method_query\<close> prints
  (\<open>server/server_http.h\<close>), and \<open>main\<close> of \<open>test.cpp\<close>.  A function is given by the text it prints; \<open>None\<close>
  is the null pointer.
\<close>

section \<open>The functions \<open>print_log\<close>\<close>

text \<open>That of \<open>comm/comm.h\<close> tests the pointer, the other two assert it; that of \<open>server/server.h\<close> prints only
  in a build with \<open>DEBUG\<close>.\<close>

definition print_log :: "char list option \<Rightarrow> string res" where
  "print_log str = (case str of Some b \<Rightarrow> bindR (cstr b) (\<lambda>t. Ret (t @ [LF])) | None \<Rightarrow> Ret [])"

definition client_print_log :: "char list option \<Rightarrow> string res" where
  "client_print_log str = (case str of Some b \<Rightarrow> bindR (cstr b) (\<lambda>t. Ret (t @ [LF])) | None \<Rightarrow> Fail AssertFail)"

definition epoll_print_log :: "bool \<Rightarrow> char list option \<Rightarrow> string res" where
  "epoll_print_log debug str =
    (case str of Some b \<Rightarrow> (if debug then bindR (cstr b) (\<lambda>t. Ret (t @ [LF])) else Ret []) | None \<Rightarrow> Fail AssertFail)"

lemma print_logs_agree:
  "client_print_log (Some b) = print_log (Some b)" "epoll_print_log True (Some b) = print_log (Some b)"
  by (simp_all add: print_log_def client_print_log_def epoll_print_log_def)

section \<open>The log of a request\<close>

definition show_resource :: "char list \<Rightarrow> char list \<Rightarrow> char list \<Rightarrow> string res" where
  "show_resource method url treaty =
    bindR (cstr method) (\<lambda>m. bindR (cstr url) (\<lambda>u. bindR (cstr treaty) (\<lambda>t.
      Ret (''method : '' @ m @ [LF] @ ''url    : '' @ u @ [LF] @ ''treaty : '' @ t @ [LF]))))"

text \<open>What \<open>get_path_method_query\<close> prints once it has filled the buffers of the request.\<close>

definition resource_log :: "request \<Rightarrow> string res" where
  "resource_log r =
    bindR (show_resource (rq_method r) (rq_url r) (rq_treaty r)) (\<lambda>s.
    bindR (cstr (rq_query r)) (\<lambda>q. bindR (cstr (rq_path r)) (\<lambda>p.
      Ret (s @ ''query :'' @ q @ [LF] @ ''path :'' @ p @ [LF]))))"

text \<open>For a request line that fits, the log names the parts the specification gives; of a GET the address is
  shown without its query, and a line feed of the request line appears in the log too.\<close>

theorem resource_log_of_line:
  assumes "line_fits m u t"
  shows "bindR (get_path_method_query (cbuf SIZE (request_line m u t)) init_request) resource_log =
    Ret (''method : '' @ m @ [LF] @ ''url    : '' @ spec_resource m u @ [LF] @ ''treaty : '' @ t @ [LF] @
      ''query :'' @ spec_query m u @ [LF] @ ''path :'' @ resource_path (spec_resource m u) @ [LF])"
proof -
  have tok: "token m" "token u" "token t" and len: "length m < METHOD_SIZE" "length u < URL_SIZE" "length t < TREATY_SIZE"
    "length (resource_path (spec_resource m u)) < PATH_SIZE"
    using assms by (simp_all add: line_fits_def)
  have "no_nul (spec_query m u)"
    using tok(2) by (auto simp: spec_query_def after_q_def no_nul_def token_def dest!: list.set_sel(2) [rotated] set_dropWhileD)
  moreover have "length (spec_query m u) < QUERY_SIZE"
    using length_spec_query [of m u] len(2) by (simp add: size_defs)
  ultimately show ?thesis
    using parse_line_eq [OF assms] tok len cut_url_strings(1) [of u URL_SIZE m]
    by (simp add: parsed_def resource_log_def show_resource_def cstr_cbuf token_no_nul no_nul_spec_resource)
qed

theorem resource_log_of_line_witness:
  "bindR (get_path_method_query (cbuf SIZE (request_line ''GET'' ''/s?n=li'' (''HTTP/1.0'' @ [LF]))) init_request) resource_log =
    Ret (''method : GET'' @ LF # ''url    : /s'' @ LF # ''treaty : HTTP/1.0'' @ LF # LF # ''query :n=li'' @ LF #
      ''path :htdocs/s'' @ [LF])"
  using resource_log_of_line [of "''GET''" "''/s?n=li''" "''HTTP/1.0'' @ [LF]"]
  by (simp add: line_fits_def token_def request_line_def size_defs resource_path_def spec_resource_def
      spec_query_def before_q_def after_q_def)

section \<open>The scratch program\<close>

definition test_main :: "int \<times> string" where
  "test_main = (let str = ''zhoufei''; pstr = str; tmp = []; tmp1 = tmp @ pstr in (0, pstr @ [LF] @ tmp1 @ [LF]))"

end
