(* ===== verification/Mysql_Db.thy ===== *)
theory Mysql_Db
  imports CString
begin

text \<open>
  The wrapper of the database: \<open>class Mysql\<close> (\<open>mysql/mysql.h\<close>), the program that tries it
  (\<open>mysql/mysql.cpp\<close>) and the page it serves (\<open>cgi_bin/data_base_show.cpp\<close>).  The client library of
  MySQL is a parameter: a record of functions on a state of its own, which the theorems constrain by
  what its manual says.
\<close>

section \<open>The client library\<close>

text \<open>A stored result has its field names and its rows; a field can be \<open>NULL\<close>.\<close>

record result =
  r_fields :: "string list"
  r_rows :: "string option list list"

text \<open>\<open>lib_query\<close> returns whether \<open>mysql_query\<close> gave 0; \<open>lib_store\<close> is \<open>None\<close> for a null pointer.  \<open>lib_free\<close> is what
  \<open>free\<close> does to a stored result.  The library wants it given back with \<open>mysql_free_result\<close> and says nothing
  about \<open>free\<close>, so nothing is assumed of it: it may fail.\<close>

record 'db mysql_lib =
  lib_init :: "'db \<Rightarrow> bool \<times> 'db"
  lib_connect :: "string \<Rightarrow> string \<Rightarrow> string \<Rightarrow> string \<Rightarrow> nat \<Rightarrow> 'db \<Rightarrow> bool \<times> 'db"
  lib_query :: "string \<Rightarrow> 'db \<Rightarrow> bool \<times> 'db"
  lib_store :: "'db \<Rightarrow> result option \<times> 'db"
  lib_close :: "'db \<Rightarrow> 'db"
  lib_free :: "result \<Rightarrow> 'db \<Rightarrow> 'db res"

section \<open>The class\<close>

definition ROW :: nat where "ROW = 4"

definition HOST_IP :: string where "HOST_IP = ''127.0.0.1''"

text \<open>\<open>my_open\<close> says whether the handle \<open>mysql_base\<close> has not been closed.\<close>

record mysql =
  my_base :: bool
  my_open :: bool
  my_res :: "result option"
  my_host :: string
  my_user_name :: string
  my_user_db :: string
  my_passwd :: string
  my_name :: string
  my_sub_number :: string
  my_begin_time :: string
  my_end_time :: string
  my_work_time :: string

definition new_mysql :: "('db, 'z) mysql_lib_scheme \<Rightarrow> string \<Rightarrow> string \<Rightarrow> string \<Rightarrow> string \<Rightarrow> 'db \<Rightarrow> mysql \<times> 'db" where
  "new_mysql lib Host User_name Passwd User_db db =
    (case lib_init lib db of (ok, db1) \<Rightarrow>
      (\<lparr>my_base = ok, my_open = True, my_res = None, my_host = Host, my_user_name = User_name,
        my_user_db = User_db, my_passwd = Passwd, my_name = [], my_sub_number = [], my_begin_time = [],
        my_end_time = [], my_work_time = []\<rparr>, db1))"

definition Insert_base :: "string \<Rightarrow> string \<Rightarrow> string \<Rightarrow> string \<Rightarrow> string \<Rightarrow> mysql \<Rightarrow> mysql" where
  "Insert_base Name Sub_number Begin End total_time my =
     my\<lparr>my_name := Name, my_sub_number := Sub_number, my_begin_time := Begin, my_end_time := End,
        my_work_time := total_time\<rparr>"

definition insert_sql :: "string \<Rightarrow> string \<Rightarrow> string \<Rightarrow> string \<Rightarrow> string \<Rightarrow> string" where
  "insert_sql Name Sub_number Begin End total_time =
     ''INSERT INTO mytest values'' @ ''(''@ [CHR 0x27] @ Name @ [CHR 0x27] @ '','' @ [CHR 0x27] @ Sub_number
      @ [CHR 0x27] @ '','' @ [CHR 0x27] @ Begin @ [CHR 0x27] @ '','' @ [CHR 0x27] @ End
      @ [CHR 0x27] @ '','' @ [CHR 0x27] @ total_time @ [CHR 0x27] @ '');''"

definition insert_row :: "('db, 'z) mysql_lib_scheme \<Rightarrow> string \<Rightarrow> string \<Rightarrow> string \<Rightarrow> string \<Rightarrow> string \<Rightarrow>
    mysql \<times> 'db \<Rightarrow> bool \<times> mysql \<times> 'db" where
  "insert_row lib Name Sub_number Begin End total_time s =
    (let my = Insert_base Name Sub_number Begin End total_time (fst s) in
     case lib_query lib (c_str (insert_sql Name Sub_number Begin End total_time)) (snd s) of (ok, db) \<Rightarrow>
       (if ok then True else False, my, db))"

text \<open>Closing a handle twice frees it twice.\<close>

definition close_connect :: "('db, 'z) mysql_lib_scheme \<Rightarrow> mysql \<times> 'db \<Rightarrow> (mysql \<times> 'db) res" where
  "close_connect lib s =
    (if my_open (fst s) then Ret ((fst s)\<lparr>my_open := False\<rparr>, lib_close lib (snd s)) else Fail DoubleFree)"

definition delete_mysql :: "('db, 'z) mysql_lib_scheme \<Rightarrow> mysql \<times> 'db \<Rightarrow> (mysql \<times> 'db) res" where
  "delete_mysql lib s =
    bindR (close_connect lib s) (\<lambda>s1.
      case my_res (fst s1) of
        None \<Rightarrow> Ret s1
      | Some r \<Rightarrow> bindR (lib_free lib r (snd s1)) (\<lambda>db. Ret ((fst s1)\<lparr>my_res := None\<rparr>, db)))"

definition inter_link :: "('db, 'z) mysql_lib_scheme \<Rightarrow> mysql \<times> 'db \<Rightarrow> bool \<times> mysql \<times> 'db" where
  "inter_link lib s =
    (case lib_connect lib (c_str (my_host (fst s))) (c_str (my_user_name (fst s))) (c_str (my_passwd (fst s)))
       (c_str (my_user_db (fst s))) 3306 (snd s) of (ok, db) \<Rightarrow> (if ok then True else False, fst s, db))"

subsection \<open>Reading the table\<close>

text \<open>Writing \<open>xs\<close> into an array from index \<open>i\<close> on.\<close>

fun write_from :: "'a list \<Rightarrow> nat \<Rightarrow> 'a list \<Rightarrow> 'a list res" where
  "write_from arr i [] = Ret arr"
| "write_from arr i (x # xs) =
    (if i < length arr then write_from (arr[i := x]) (Suc i) xs else Fail OutOfBounds)"

text \<open>Assigning a null pointer to a \<open>string\<close> is a fault.\<close>

fun write_row :: "string list \<Rightarrow> nat \<Rightarrow> string option list \<Rightarrow> string list res" where
  "write_row arr i [] = Ret arr"
| "write_row arr i (x # xs) =
    (case x of None \<Rightarrow> Fail NullDeref
     | Some v \<Rightarrow> if i < length arr then write_row (arr[i := v]) (Suc i) xs else Fail OutOfBounds)"

fun write_rows :: "string list list \<Rightarrow> nat \<Rightarrow> string option list list \<Rightarrow> string list list res" where
  "write_rows out_str i [] = Ret out_str"
| "write_rows out_str i (row # rows) =
    (if i < length out_str then
       bindR (write_row (out_str ! i) 0 row) (\<lambda>r. write_rows (out_str[i := r]) (Suc i) rows)
     else Fail OutOfBounds)"

text \<open>The result of the query is not looked at; \<open>mysql_num_rows\<close> of a null result is a fault.\<close>

definition show_mysql :: "('db, 'z) mysql_lib_scheme \<Rightarrow> string list \<Rightarrow> string list list \<Rightarrow> mysql \<times> 'db \<Rightarrow>
    (string list \<times> string list list \<times> nat \<times> mysql \<times> 'db) res" where
  "show_mysql lib name out_str s =
    (case lib_query lib ''SELECT * FROM mytest'' (snd s) of (ok, db1) \<Rightarrow>
     case lib_store lib db1 of
       (None, db2) \<Rightarrow> Fail NullDeref
     | (Some r, db2) \<Rightarrow>
         bindR (write_from name 0 (r_fields r)) (\<lambda>name1.
         bindR (write_rows out_str 0 (r_rows r)) (\<lambda>out1.
           Ret (name1, out1, length (r_rows r), (fst s)\<lparr>my_res := Some r\<rparr>, db2))))"

definition empty_header :: "string list" where "empty_header = replicate ROW []"
definition empty_table :: "string list list" where "empty_table = replicate 1024 (replicate ROW [])"

section \<open>The programs\<close>

text \<open>\<open>mysql/mysql.cpp\<close>: the text printed; \<open>end\<close> in the branch of a failing \<open>show_table\<close>, which never
  returns \<open>false\<close>, is the string of that name.\<close>

definition ctor_line :: string where
  "ctor_line = [CHR 0xE6, CHR 0x9E, CHR 0x84, CHR 0xE9, CHR 0x80, CHR 0xA0, CHR 0xE5, CHR 0x87, CHR 0xBD,
     CHR 0xE6, CHR 0x95, CHR 0xB0, CHR 0xE6, CHR 0x88, CHR 0x90, CHR 0xE5, CHR 0x8A, CHR 0x9F, LF]"

definition tabbed :: "string list \<Rightarrow> string" where
  "tabbed xs = concat (map (\<lambda>x. x @ [CHR 0x09]) xs) @ [LF]"

definition mysql_main :: "('db, 'z) mysql_lib_scheme \<Rightarrow> 'db \<Rightarrow> (string \<times> 'db) res" where
  "mysql_main lib db =
    (case new_mysql lib ''127.0.0.1'' ''root'' ''root'' ''Mysql'' db of s0 \<Rightarrow>
     case inter_link lib s0 of (flag1, s1) \<Rightarrow>
     case insert_row lib ''abcd'' ''123456'' ''12:23:45'' ''12:34:67'' ''23'' s1 of (flag2, s2) \<Rightarrow>
     bindR (show_mysql lib empty_header empty_table s2) (\<lambda>(header, out_str, line, s3).
     bindR (delete_mysql lib s3) (\<lambda>s4.
       Ret (ctor_line
         @ (if flag1 then ''link success'' else ''link falied'') @ [LF]
         @ (if flag2 then ''insert success'' else ''insert falied'') @ [LF]
         @ ''show table success'' @ [LF] @ tabbed header @ concat (map tabbed (take line out_str)), snd s4))))"

text \<open>\<open>cgi_bin/data_base_show.cpp\<close>: the lines of the page, in the two parts in front of and behind the
  access to the database.\<close>

definition page_start :: "string list" where
  "page_start = [''<html>'', ''<head>'', ''<p> wecome to linux data base show world </p>'', ''</head>'', ''<body>'']"

definition page_row :: "string list \<Rightarrow> string list" where
  "page_row cells = [''<tr>''] @ map (\<lambda>c. ''<td>'' @ c @ ''</td>'') cells @ [''</tr>'']"

definition page_table :: "string list \<Rightarrow> string list list \<Rightarrow> string list" where
  "page_table header rows =
     [''<table border='' @ [CHR 0x22] @ ''1'' @ [CHR 0x22] @ ''>'', ''<tr>'']
     @ map (\<lambda>h. ''<th>'' @ h @ ''</th>'') header @ [''</th>'']
     @ concat (map page_row rows) @ [''</table>'', ''</body>'', ''</html>'']"

definition db_show_main :: "('db, 'z) mysql_lib_scheme \<Rightarrow> 'db \<Rightarrow> string list \<times> 'db res" where
  "db_show_main lib db =
    (case new_mysql lib HOST_IP ''root'' ''root'' ''mytest'' db of s0 \<Rightarrow>
     case inter_link lib s0 of (flag, s1) \<Rightarrow>
     case show_mysql lib empty_header empty_table s1 of
       None \<Rightarrow> (page_start, Hang)
     | Some (Inl e) \<Rightarrow> (page_start, Fail e)
     | Some (Inr (header, show_data, line, s2)) \<Rightarrow>
         (page_start @ page_table header (take line show_data),
          bindR (delete_mysql lib s2) (\<lambda>s3. Ret (snd s3))))"

section \<open>What reading the table does\<close>

lemma write_from_ok: "i + length xs \<le> length arr \<Longrightarrow> write_from arr i xs = Ret (take i arr @ xs @ drop (i + length xs) arr)"
proof (induction xs arbitrary: arr i)
  case (Cons x xs)
  then show ?case by (simp add: take_Suc_conv_app_nth take_update_cancel)
qed simp

lemma write_from_oob: "length arr < i + length xs \<Longrightarrow> i \<le> length arr \<Longrightarrow> write_from arr i xs = Fail OutOfBounds"
  by (induction xs arbitrary: arr i) auto

lemma write_row_ok: "i + length xs \<le> length arr \<Longrightarrow>
    write_row arr i (map Some xs) = Ret (take i arr @ xs @ drop (i + length xs) arr)"
proof (induction xs arbitrary: arr i)
  case (Cons x xs)
  then show ?case by (simp add: take_Suc_conv_app_nth take_update_cancel)
qed simp

text \<open>A row of the page buffer: the fields, and empty strings in the columns that are left.\<close>

definition padded :: "string list \<Rightarrow> string list" where
  "padded row = row @ replicate (ROW - length row) []"

lemma length_padded [simp]: "length row \<le> ROW \<Longrightarrow> length (padded row) = ROW"
  by (simp add: padded_def)

lemma write_rows_ok:
  assumes "i + length rows \<le> length arr" "\<forall>k. i \<le> k \<and> k < length arr \<longrightarrow> arr ! k = replicate ROW []"
    "\<forall>row\<in>set rows. length row \<le> ROW"
  shows "write_rows arr i (map (map Some) rows) = Ret (take i arr @ map padded rows @ drop (i + length rows) arr)"
  using assms
proof (induction rows arbitrary: arr i)
  case (Cons row rows)
  have r: "write_row (arr ! i) 0 (map Some row) = Ret (padded row)"
    using Cons.prems by (simp add: write_row_ok padded_def)
  have "write_rows arr i (map (map Some) (row # rows)) = write_rows (arr[i := padded row]) (Suc i) (map (map Some) rows)"
    using Cons.prems(1) r by simp
  also have "\<dots> = Ret (take (Suc i) (arr[i := padded row]) @ map padded rows @ drop (Suc i + length rows) (arr[i := padded row]))"
    using Cons.prems by (intro Cons.IH) auto
  finally show ?case using Cons.prems(1) by (simp add: take_Suc_conv_app_nth take_update_cancel)
qed simp

lemma show_mysql_copies:
  assumes "lib_store lib (snd (lib_query lib ''SELECT * FROM mytest'' (snd s))) = (Some r, db)"
    "r_rows r = map (map Some) rows" "length (r_fields r) \<le> ROW" "length rows \<le> 1024" "\<forall>row\<in>set rows. length row \<le> ROW"
  shows "show_mysql lib empty_header empty_table s =
    Ret (padded (r_fields r), map padded rows @ drop (length rows) empty_table, length rows, (fst s)\<lparr>my_res := Some r\<rparr>, db)"
proof -
  have "write_from empty_header 0 (r_fields r) = Ret (padded (r_fields r))"
    using write_from_ok [of 0 "r_fields r" empty_header] assms(3) by (simp add: empty_header_def padded_def)
  moreover have "write_rows empty_table 0 (map (map Some) rows) = Ret (map padded rows @ drop (length rows) empty_table)"
    using write_rows_ok [of 0 rows empty_table] assms(4,5) by (simp add: empty_table_def)
  ultimately show ?thesis using assms(1,2) by (auto simp: show_mysql_def split: prod.splits)
qed

lemma show_mysql_wide:
  assumes "lib_store lib (snd (lib_query lib ''SELECT * FROM mytest'' (snd s))) = (Some r, db)" "ROW < length (r_fields r)"
  shows "show_mysql lib empty_header empty_table s = Fail OutOfBounds"
  using assms write_from_oob [of empty_header 0 "r_fields r"]
  by (auto simp: show_mysql_def empty_header_def split: prod.splits)

section \<open>Reading an INSERT statement\<close>

text \<open>The values of an INSERT statement as the database reads them, for texts without escapes: rows in
  parentheses, separated by commas, of texts in single quotes, separated by commas.\<close>

abbreviation QUOTE :: char where "QUOTE \<equiv> CHR 0x27"

definition sql_plain :: "string \<Rightarrow> bool" where
  "sql_plain v \<longleftrightarrow> QUOTE \<notin> set v \<and> CHR 0x5C \<notin> set v"

function read_fields :: "string \<Rightarrow> (string list \<times> string) option" where
  "read_fields s =
    (case s of [] \<Rightarrow> None
     | q # r \<Rightarrow>
        if q \<noteq> QUOTE then None
        else (case dropWhile (\<lambda>c. c \<noteq> QUOTE) r of
            e # d # t \<Rightarrow>
              if d = CHR '','' then map_option (\<lambda>(vs, u). (takeWhile (\<lambda>c. c \<noteq> QUOTE) r # vs, u)) (read_fields t)
              else if d = CHR '')'' then Some ([takeWhile (\<lambda>c. c \<noteq> QUOTE) r], t) else None
          | _ \<Rightarrow> None))"
  by pat_completeness auto
termination
proof (relation "measure length")
  fix s :: string and q r e t' d t
  assume "s = q # r" "dropWhile (\<lambda>c. c \<noteq> QUOTE) r = e # t'" "t' = d # t"
  moreover have "length (dropWhile (\<lambda>c. c \<noteq> QUOTE) r) \<le> length r" by (rule length_dropWhile_le)
  ultimately show "(t, s) \<in> measure length" by simp
qed simp

declare read_fields.simps [simp del]

lemma read_fields_shorter: "read_fields s = Some (vs, u) \<Longrightarrow> length u < length s"
proof (induction s arbitrary: vs u rule: read_fields.induct)
  case (1 s)
  obtain q r e d t where s: "s = q # r" "q = QUOTE" "dropWhile (\<lambda>c. c \<noteq> QUOTE) r = e # d # t"
    using 1(2) by (subst (asm) read_fields.simps) (auto split: list.splits if_splits)
  then have len: "length t < length s" using length_dropWhile_le [of "\<lambda>c. c \<noteq> QUOTE" r] by simp
  show ?case
  proof (cases "d = CHR '',''")
    case True
    with 1(2) s obtain ws where "read_fields t = Some (ws, u)" by (subst (asm) read_fields.simps) auto
    from 1(1) [OF s(1) _ s(3) _ _ this] s(2) True len show ?thesis by fastforce
  next
    case False
    with 1(2) s len show ?thesis by (subst (asm) read_fields.simps) (auto split: if_splits)
  qed
qed

function read_rows :: "string \<Rightarrow> string list list option" where
  "read_rows s =
    (case s of [] \<Rightarrow> None
     | p # r \<Rightarrow> if p \<noteq> CHR ''('' then None
        else (case read_fields r of None \<Rightarrow> None
           | Some (vs, u) \<Rightarrow> if u = '';'' then Some [vs]
               else (case u of [] \<Rightarrow> None | c # t \<Rightarrow> if c = CHR '','' then map_option (Cons vs) (read_rows t) else None)))"
  by pat_completeness auto
termination
  by (relation "measure length") (auto dest!: read_fields_shorter)

declare read_rows.simps [simp del]

definition read_insert :: "string \<Rightarrow> string list list option" where
  "read_insert s = (if take 25 s = ''INSERT INTO mytest values'' then read_rows (drop 25 s) else None)"

fun items :: "string list \<Rightarrow> string" where
  "items [] = []"
| "items [v] = QUOTE # v @ [QUOTE]"
| "items (v # w # vs) = QUOTE # v @ QUOTE # CHR '','' # items (w # vs)"

lemma read_fields_items:
  assumes "\<forall>v\<in>set vs. sql_plain v" "vs \<noteq> []"
  shows "read_fields (items vs @ CHR '')'' # u) = Some (vs, u)"
  using assms
proof (induction vs rule: items.induct)
  case (2 v)
  then have "\<forall>c\<in>set v. c \<noteq> QUOTE" by (auto simp: sql_plain_def)
  then show ?case by (subst read_fields.simps) simp
next
  case (3 v w vs)
  then have "\<forall>c\<in>set v. c \<noteq> QUOTE" by (auto simp: sql_plain_def)
  with 3 show ?case by (subst read_fields.simps) simp
qed simp

lemma read_rows_last:
  "\<forall>v\<in>set vs. sql_plain v \<Longrightarrow> vs \<noteq> [] \<Longrightarrow> read_rows (CHR ''('' # items vs @ '');'') = Some [vs]"
  using read_fields_items [of vs "'';''"] by (subst read_rows.simps) simp

lemma read_rows_more:
  assumes "\<forall>v\<in>set vs. sql_plain v" "vs \<noteq> []"
  shows "read_rows (CHR ''('' # items vs @ CHR '')'' # CHR '','' # t) = map_option (Cons vs) (read_rows t)"
  using read_fields_items [OF assms, of "CHR '','' # t"] by (subst read_rows.simps) simp

lemma insert_sql_items: "insert_sql a b c d e = ''INSERT INTO mytest values'' @ CHR ''('' # items [a, b, c, d, e] @ '');''"
  by (simp add: insert_sql_def)

lemma read_insert_values: "read_insert (''INSERT INTO mytest values'' @ s) = read_rows s"
  by (simp add: read_insert_def)

section \<open>Properties\<close>

text \<open>C31. The statement \<open>insert\<close> builds says what it should for texts without quotes and backslashes: read
  by the database it is one row with the five values, in order.\<close>
theorem insert_statement_roundtrip:
  assumes "sql_plain a" "sql_plain b" "sql_plain c" "sql_plain d" "sql_plain e"
  shows "read_insert (insert_sql a b c d e) = Some [[a, b, c, d, e]]"
  unfolding insert_sql_items read_insert_values using assms by (intro read_rows_last) auto

theorem insert_statement_roundtrip_witness:
  "read_insert (insert_sql ''abcd'' ''123456'' ''12:23:45'' ''12:34:67'' ''23'') =
     Some [[''abcd'', ''123456'', ''12:23:45'', ''12:34:67'', ''23'']]"
  by (rule insert_statement_roundtrip) (simp_all add: sql_plain_def)

text \<open>The values are pasted into the statement as they are: one value, the card number say, can close
  its own row and open another, so that whoever chooses it enters a row of his own beside the one the
  server meant to write.\<close>
theorem insert_statement_injection:
  assumes "\<forall>v\<in>set [a, b, c1, d1, e1, a2, b2, c, d, e]. sql_plain v"
  shows "read_insert (insert_sql a (b @ [QUOTE] @ '','' @ items [c1, d1, e1] @ ''),('' @ items [a2] @ '','' @ [QUOTE] @ b2) c d e) =
     Some [[a, b, c1, d1, e1], [a2, b2, c, d, e]]"
proof -
  have "insert_sql a (b @ [QUOTE] @ '','' @ items [c1, d1, e1] @ ''),('' @ items [a2] @ '','' @ [QUOTE] @ b2) c d e =
    ''INSERT INTO mytest values'' @ CHR ''('' # items [a, b, c1, d1, e1] @ CHR '')'' # CHR '','' #
      CHR ''('' # items [a2, b2, c, d, e] @ '');''"
    by (simp add: insert_sql_def)
  moreover have "read_rows (CHR ''('' # items [a, b, c1, d1, e1] @ CHR '')'' # CHR '','' #
      CHR ''('' # items [a2, b2, c, d, e] @ '');'') = Some [[a, b, c1, d1, e1], [a2, b2, c, d, e]]"
    using assms read_rows_more [of "[a, b, c1, d1, e1]" "CHR ''('' # items [a2, b2, c, d, e] @ '');''"]
      read_rows_last [of "[a2, b2, c, d, e]"] by (simp del: items.simps append.simps)
  ultimately show ?thesis by (simp only: read_insert_values)
qed

theorem insert_statement_injection_witness:
  "read_insert (insert_sql ''li'' (''7'' @ [QUOTE] @ '','' @ items [''a'', ''b'', ''c''] @ ''),('' @ items [''eve''] @ '','' @ [QUOTE] @ ''8'') ''d'' ''e'' ''f'') =
     Some [[''li'', ''7'', ''a'', ''b'', ''c''], [''eve'', ''8'', ''d'', ''e'', ''f'']]"
  by (rule insert_statement_injection) (simp add: sql_plain_def)

text \<open>C32. The page of the database shows the table when it has at most four columns and 1024 rows without
  \<open>NULL\<close>: the page has the names of the columns and every row in order, and behind it the handle is closed
  and the stored result is given to \<open>free\<close>, whatever that does.  A table with more columns, such as the one
  with five \<open>insert\<close> writes into, overruns the array of four column names, whatever its rows.\<close>
theorem db_page_shows_table:
  assumes "lib_init lib db0 = (True, db1)" "snd (lib_connect lib HOST_IP ''root'' ''root'' ''mytest'' 3306 db1) = db2"
    "lib_store lib (snd (lib_query lib ''SELECT * FROM mytest'' db2)) = (Some r, db3)"
    "r_rows r = map (map Some) rows" "length rows \<le> 1024" "\<forall>row\<in>set rows. length row = length (r_fields r)"
  shows "if length (r_fields r) \<le> ROW
    then db_show_main lib db0 =
      (page_start @ page_table (padded (r_fields r)) (map padded rows), lib_free lib r (lib_close lib db3))
    else db_show_main lib db0 = (page_start, Fail OutOfBounds)"
proof -
  obtain my where s0: "new_mysql lib HOST_IP ''root'' ''root'' ''mytest'' db0 = (my, db1)"
    "my_host my = HOST_IP" "my_user_name my = ''root''" "my_passwd my = ''root''" "my_user_db my = ''mytest''" "my_open my"
    using assms(1) by (simp add: new_mysql_def)
  have cs: "c_str HOST_IP = HOST_IP" "c_str ''root'' = ''root''" "c_str ''mytest'' = ''mytest''"
    by (simp_all add: HOST_IP_def c_str_def)
  obtain flag where link: "inter_link lib (my, db1) = (flag, my, db2)"
    using assms(2) s0 cs by (cases "lib_connect lib HOST_IP ''root'' ''root'' ''mytest'' 3306 db1") (auto simp: inter_link_def)
  have store: "lib_store lib (snd (lib_query lib ''SELECT * FROM mytest'' (snd (my, db2)))) = (Some r, db3)"
    using assms(3) by simp
  show ?thesis
  proof (cases "length (r_fields r) \<le> ROW")
    case True
    then have rows: "\<forall>row\<in>set rows. length row \<le> ROW" using assms(6) by simp
    have "bindR (delete_mysql lib (my\<lparr>my_res := Some r\<rparr>, db3)) (\<lambda>s. Ret (snd s)) = lib_free lib r (lib_close lib db3)"
      using s0(6) by (simp add: delete_mysql_def close_connect_def bindR_assoc bindR_Ret_right)
    with show_mysql_copies [OF store assms(4) True assms(5) rows] True s0(1) link show ?thesis
      by (simp add: db_show_main_def)
  next
    case False
    with show_mysql_wide [OF store] s0(1) link show ?thesis by (simp add: db_show_main_def)
  qed
qed

text \<open>A library on one table, whose results \<open>free\<close> cannot take.\<close>

definition demo_lib :: "result option mysql_lib" where
  "demo_lib = \<lparr>lib_init = (\<lambda>db. (True, db)), lib_connect = (\<lambda>h u p d k db. (True, db)), lib_query = (\<lambda>q db. (True, db)),
     lib_store = (\<lambda>db. (db, db)), lib_close = (\<lambda>db. None), lib_free = (\<lambda>r db. if db = None then Fail DoubleFree else Ret db)\<rparr>"

definition demo_table :: "string list \<Rightarrow> string list \<Rightarrow> result" where
  "demo_table names row = \<lparr>r_fields = names, r_rows = [map Some row]\<rparr>"

theorem db_page_shows_table_witness:
  "db_show_main demo_lib (Some (demo_table [''name'', ''id''] [''li'', ''7''])) =
     (page_start @ page_table [''name'', ''id'', [], []] [[''li'', ''7'', [], []]], Fail DoubleFree) \<and>
   db_show_main demo_lib (Some (demo_table [''a'', ''b'', ''c'', ''d'', ''e''] [''li'', ''7'', ''8:00'', ''9:00'', ''1h''])) =
     (page_start, Fail OutOfBounds)"
proof
  let ?r = "demo_table [''name'', ''id''] [''li'', ''7'']"
  show "db_show_main demo_lib (Some ?r) =
     (page_start @ page_table [''name'', ''id'', [], []] [[''li'', ''7'', [], []]], Fail DoubleFree)"
    using db_page_shows_table [of demo_lib "Some ?r" "Some ?r" "Some ?r" ?r "Some ?r" "[[''li'', ''7'']]"]
    by (simp add: demo_lib_def demo_table_def ROW_def padded_def numeral_eq_Suc)
  let ?q = "demo_table [''a'', ''b'', ''c'', ''d'', ''e''] [''li'', ''7'', ''8:00'', ''9:00'', ''1h'']"
  show "db_show_main demo_lib (Some ?q) = (page_start, Fail OutOfBounds)"
    using db_page_shows_table [of demo_lib "Some ?q" "Some ?q" "Some ?q" ?q "Some ?q" "[[''li'', ''7'', ''8:00'', ''9:00'', ''1h'']]"]
    by (simp add: demo_lib_def demo_table_def ROW_def)
qed

end
