(* ===== verification/Cgi_Programs.thy ===== *)
theory Cgi_Programs
  imports Cgi Query
begin

text \<open>
  The CGI program \<open>cgi_bin/show.cpp\<close>: the output of \<open>recv_str\<close> and \<open>main\<close>, which the server runs behind
  \<open>execl\<close>.  What the program had printed when it came to a fault has reached the client.
\<close>

section \<open>The standard output\<close>

text \<open>The text printed, and whether the stream has gone bad: printing a null \<open>char*\<close> makes it so, and
  nothing is printed after that.\<close>

type_synonym stream = "string \<times> bool"

definition emit :: "string \<Rightarrow> stream \<Rightarrow> stream" where
  "emit s o1 = (if snd o1 then o1 else (fst o1 @ s, False))"

definition emit_ptr :: "string option \<Rightarrow> stream \<Rightarrow> stream" where
  "emit_ptr p o1 = (case p of None \<Rightarrow> (fst o1, True) | Some s \<Rightarrow> emit s o1)"

definition recv_str :: "char list \<Rightarrow> stream \<Rightarrow> stream res" where
  "recv_str str o1 =
    bindR (recv_str_fields str) (\<lambda>(name, idn).
      Ret (emit [LF] (emit_ptr idn (emit ''<p> id   is :%s </p>''
             (emit [LF] (emit_ptr name (emit ''<p> name is :%s </p>'' o1)))))))"

section \<open>The program\<close>

text \<open>\<open>for(; i<content_len; ++i) read(0,&data_str[i],1)\<close>: at the end of the input \<open>read\<close> stores
  nothing.\<close>

fun read_data :: "nat \<Rightarrow> nat \<Rightarrow> string \<Rightarrow> char list \<Rightarrow> char list res" where
  "read_data 0 i inp data_str = Ret data_str"
| "read_data (Suc k) i [] data_str = Ret data_str"
| "read_data (Suc k) i (c # inp) data_str =
    bindR (wr data_str i c) (\<lambda>d. read_data k (Suc i) inp d)"

definition out_start :: string where
  "out_start = ''<html>'' @ [LF] @ ''<head> come on show world </head>'' @ [LF] @ ''<body>'' @ [LF]"

definition out_end :: string where
  "out_end = ''</body>'' @ [LF] @ ''</html>'' @ [LF]"

text \<open>The part of \<open>main\<close> between the two fixed parts of the page.  \<open>strcpy\<close> and \<open>atoi\<close> of a null pointer,
  which \<open>getenv\<close> returns for a variable that is not set, are faults.\<close>

definition show_request :: "environment \<Rightarrow> string \<Rightarrow> stream \<Rightarrow> stream res" where
  "show_request env inp o1 =
    (case env ''REQUEST_STRING'' of
       None \<Rightarrow> Fail NullDeref
     | Some m \<Rightarrow>
        bindR (strcpy (zeros SIZE) m) (\<lambda>mbuf. bindR (cstr mbuf) (\<lambda>mt.
        if strcaseeq mt ''GET'' then
          (case env ''QUERY_STRING'' of
             None \<Rightarrow> Fail NullDeref
           | Some q \<Rightarrow> bindR (strcpy (zeros SIZE) q) (\<lambda>query_str. recv_str query_str o1))
        else if strcaseeq mt ''POST'' then
          (case env ''CONTENT_LENGTH'' of
             None \<Rightarrow> Fail NullDeref
           | Some l \<Rightarrow>
               bindR (atoi l) (\<lambda>content_len.
               bindR (read_data (nat content_len) 0 inp (zeros SIZE)) (\<lambda>data_str.
               bindR (wr data_str (nat content_len) NUL) (\<lambda>data_str1. recv_str data_str1 o1))))
        else Ret (emit (''error'' @ [LF]) o1))))"

definition show_main :: "environment \<Rightarrow> string \<Rightarrow> string \<times> unit res" where
  "show_main env inp =
    (case show_request env inp (emit out_start ([], False)) of
       None \<Rightarrow> (out_start, Hang)
     | Some (Inl e) \<Rightarrow> (out_start, Fail e)
     | Some (Inr o1) \<Rightarrow> (fst (emit out_end o1), Ret ()))"

text \<open>As the program of a CGI environment.\<close>

definition show_program :: "string \<Rightarrow> environment \<Rightarrow> string \<Rightarrow> string option" where
  "show_program path env inp = Some (fst (show_main env inp))"

section \<open>What the program prints\<close>

lemma emit_simps [simp]: "emit s (t, False) = (t @ s, False)" "emit s (t, True) = (t, True)"
  "emit_ptr (Some s) (t, False) = (t @ s, False)" "emit_ptr None (t, b) = (t, True)" "emit_ptr (Some s) (t, True) = (t, True)"
  by (simp_all add: emit_def emit_ptr_def)

definition show_page :: "string \<Rightarrow> string \<Rightarrow> string" where
  "show_page name idn = out_start @ ''<p> name is :%s </p>'' @ name @ [LF] @ ''<p> id   is :%s </p>'' @ idn @ [LF] @ out_end"

lemma recv_str_query:
  assumes "query_fits k1 v1 k2 v2"
  shows "recv_str (cbuf SIZE (query_text k1 v1 k2 v2)) (t, False) =
    Ret (t @ ''<p> name is :%s </p>'' @ v1 @ [LF] @ ''<p> id   is :%s </p>'' @ v2 @ [LF], False)"
proof -
  have "cgi_parse (query_text k1 v1 k2 v2) = Ret (v1, v2)" using assms by (rule cgi_parse_query)
  then have "recv_str_fields (cbuf SIZE (query_text k1 v1 k2 v2)) = Ret (Some v1, Some v2)"
    by (auto simp: cgi_parse_def split: prod.splits option.splits)
  then show ?thesis by (simp add: recv_str_def)
qed

lemma length_query: "query_fits k1 v1 k2 v2 \<Longrightarrow> length (query_text k1 v1 k2 v2) < SIZE"
  by (simp add: query_fits_def size_defs)

lemma show_get:
  assumes "env ''REQUEST_STRING'' = Some ''GET''" "env ''QUERY_STRING'' = Some (query_text k1 v1 k2 v2)" "query_fits k1 v1 k2 v2"
  shows "show_main env inp = (show_page v1 v2, Ret ())"
proof -
  have "strcpy (zeros SIZE) (query_text k1 v1 k2 v2) = Ret (cbuf SIZE (query_text k1 v1 k2 v2))"
    using length_query [OF assms(3)] by (rule strcpy_zeros)
  moreover have "strcpy (zeros SIZE) ''GET'' = Ret (cbuf SIZE ''GET'')" "cstr (cbuf SIZE ''GET'') = Ret ''GET''"
    by (simp_all add: buf_simps size_defs)
  ultimately show ?thesis
    using assms recv_str_query [OF assms(3), of out_start]
    by (simp add: show_main_def show_request_def strcaseeq_def show_page_def)
qed

lemma read_data_all: "i + length d \<le> length buf \<Longrightarrow> read_data (length d) i (d @ r) buf = Ret (put buf i d)"
  by (induction d arbitrary: i buf) auto

lemma show_post:
  assumes "env ''REQUEST_STRING'' = Some ''POST''" "env ''CONTENT_LENGTH'' = Some (int_str (int (length (query_text k1 v1 k2 v2))))"
    "query_fits k1 v1 k2 v2"
  shows "show_main env (query_text k1 v1 k2 v2 @ rest) = (show_page v1 v2, Ret ())"
proof -
  let ?q = "query_text k1 v1 k2 v2"
  have len: "length ?q < SIZE" using assms(3) by (rule length_query)
  then have "read_data (length ?q) 0 (?q @ rest) (zeros SIZE) = Ret (put (zeros SIZE) 0 ?q)" by (intro read_data_all) simp
  moreover have "put (zeros SIZE) 0 ?q = cbuf SIZE ?q" using len by (rule put_zeros)
  ultimately have rd: "read_data (length ?q) 0 (?q @ rest) (zeros SIZE) = Ret (cbuf SIZE ?q)" by simp
  have "(cbuf SIZE ?q)[length ?q := NUL] = cbuf SIZE ?q" using cbuf_split [OF len] by simp
  then have wr: "wr (cbuf SIZE ?q) (length ?q) NUL = Ret (cbuf SIZE ?q)" using len by simp
  have "int (length ?q) \<le> INT_MAX" using len by (simp add: SIZE_def INT_MAX_def)
  then have at: "atoi (int_str (int (length ?q))) = Ret (int (length ?q))"
    by (intro atoi_int_str) (simp_all add: INT_MIN_def)
  have "strcpy (zeros SIZE) ''POST'' = Ret (cbuf SIZE ''POST'')" "cstr (cbuf SIZE ''POST'') = Ret ''POST''"
    by (simp_all add: buf_simps size_defs)
  moreover have "\<not> strcaseeq ''POST'' ''GET''" "strcaseeq ''POST'' ''POST''" by code_simp+
  ultimately show ?thesis
    using assms recv_str_query [OF assms(3), of out_start]
    by (simp add: show_main_def show_request_def show_page_def rd wr at)
qed

lemma show_no_method: "env ''REQUEST_STRING'' = None \<Longrightarrow> show_main env inp = (out_start, Fail NullDeref)"
  by (simp add: show_main_def show_request_def)

section \<open>Properties\<close>

text \<open>Given the variables it asks for, the CGI program prints the page with the name and the number of a
  well-formed query, from \<open>QUERY_STRING\<close> for a GET and from its standard input for a POST.\<close>
theorem show_program_page:
  assumes "query_fits k1 v1 k2 v2"
  shows "(env ''REQUEST_STRING'' = Some ''GET'' \<and> env ''QUERY_STRING'' = Some (query_text k1 v1 k2 v2) \<longrightarrow>
      show_main env inp = (show_page v1 v2, Ret ())) \<and>
    (env ''REQUEST_STRING'' = Some ''POST'' \<and> env ''CONTENT_LENGTH'' = Some (int_str (int (length (query_text k1 v1 k2 v2)))) \<longrightarrow>
      show_main env (query_text k1 v1 k2 v2 @ rest) = (show_page v1 v2, Ret ()))"
  using show_get [OF _ _ assms] show_post [OF _ _ assms] by blast

theorem show_program_page_witness:
  "show_main ((\<lambda>v. None)(''REQUEST_STRING'' := Some ''GET'', ''QUERY_STRING'' := Some (query_text ''a'' ''li'' ''b'' ''7''))) [] =
     (show_page ''li'' ''7'', Ret ())"
  using show_program_page [of "''a''" "''li''" "''b''" "''7''"
      "(\<lambda>v. None)(''REQUEST_STRING'' := Some ''GET'', ''QUERY_STRING'' := Some (query_text ''a'' ''li'' ''b'' ''7''))" "[]"]
  by (simp add: query_fits_def clean_def query_text_def size_defs)

text \<open>C29. Run by the server, the program never shows anything: it asks for \<open>REQUEST_STRING\<close>, which the
  server does not set, copies a null pointer and dies.  Whatever the query, the client receives the
  start of the page and nothing of the person.\<close>
theorem server_never_shows_person:
  assumes "fd_get w client = Some (Socket (header_block hs @ s) t None)"
    "\<forall>h\<in>set hs. good_header SIZE h" "4 \<le> free_count w" "\<not> fork_fails ce" "input_use ce \<noteq> ReadsToEnd"
    "no_nul q" "length q + 13 < QUERY_SIZE" "program ce = show_program" "server_env ce ''REQUEST_STRING'' = None"
  shows "exec_cgi junk ce client path ''GET'' q w =
     Ret (fd_set client (Some (Socket s (t @ cgi_head @ '' GET  query env :QUERY_STRING:'' @ q @ [LF] @ out_start) None)) w)"
proof -
  have "get_environment ce q ''REQUEST_STRING'' = server_env ce ''REQUEST_STRING''"
    using cgi_setup_keeps [OF cgi_setup_get [OF assms(6,7), of 0 "server_env ce"], of "''REQUEST_STRING''"]
    by (simp add: get_environment_def)
  then have "cgi_output ce path (get_environment ce q) [] = out_start"
    using assms(8,9) by (simp add: cgi_output_def show_program_def show_no_method)
  with exec_cgi_get [OF assms(1-7), of junk path] show ?thesis by simp
qed

theorem server_never_shows_person_witness:
  "exec_cgi CHR ''x'' (demo_cgi\<lparr>program := show_program\<rparr>) (Some 2) ''show'' ''GET'' ''a=li&b=7'' (cgi_world [''Host: x''] []) =
     Ret (fd_set (Some 2) (Some (Socket [] ([] @ cgi_head @ '' GET  query env :QUERY_STRING:'' @ ''a=li&b=7'' @ [LF] @ out_start) None))
       (cgi_world [''Host: x''] []))"
  by (rule server_never_shows_person [where hs = "[''Host: x'']"])
    (use cgi_world_simps [of "[''Host: x'']" "[]"] demo_header in \<open>simp_all add: demo_cgi_simps size_defs demo_cgi_def\<close>)

end
