(* ===== verification/PSI.thy ===== *)
theory PSI
  imports Prelude "HOL-Library.State_Monad" "HOL-Library.Monad_Syntax" "HOL-Library.Word"
begin

text \<open>
  Common ground of the instrumented calls of \<^verbatim>\<open>src/mysql/mysql_lib/include/mysql/psi\<close>: an inline
  wrapper asks the performance schema for a \<^emph>\<open>locker\<close>, performs the native call, and reports the
  outcome to the locker.

  The performance schema is a service behind a table of function pointers, and the native calls are
  those of the operating system or of the library; none of them is part of the repository.  The
  service is a function of the history of what happened so far (\<open>ask\<close>), the native calls are
  functions on an opaque state \<open>os\<close> (\<open>native\<close>).  Every call of the service and every native call is
  appended to \<open>trace\<close>, with the answer of the service.  \<open>mem\<close> is the part of the program's memory
  that the wrappers read and write themselves.  The \<open>PSI_..._locker_state\<close> object on the stack of
  a wrapper is scratch space of the service and does not appear.

  The theory also states the contract of a family of wrappers as a locale, \<open>instrumented\<close>, with what
  a program that uses such a family can rely on.
\<close>

section \<open>State, service and native calls\<close>

record ('o, 'm, 'e) psi_state =
  os :: 'o
  mem :: 'm
  trace :: "'e list"

type_synonym ('o, 'm, 'e, 'a) psi_prog = "(('o, 'm, 'e) psi_state, 'a) state"

type_synonym ptr = nat
type_synonym psi = nat          \<comment> \<open>the address of an instrument\<close>
type_synonym locker = nat       \<comment> \<open>the address of a locker\<close>
type_synonym size_t = "32 word"         \<comment> \<open>\<open>my_config.h\<close>: \<open>SIZEOF_CHARP\<close> and \<open>SIZEOF_LONG\<close> are 4\<close>
type_synonym ulong = "32 word"
type_synonym ulonglong = "64 word"
type_synonym loc = "string \<times> nat"   \<comment> \<open>\<open>src_file, src_line\<close>\<close>

definition NULL :: ptr where "NULL = 0"

definition tell :: "'e \<Rightarrow> ('o, 'm, 'e, unit) psi_prog" where
  "tell e = State (\<lambda>s. ((), s\<lparr>trace := trace s @ [e]\<rparr>))"

definition ask :: "('e list \<Rightarrow> 'a) \<Rightarrow> ('a \<Rightarrow> 'e) \<Rightarrow> ('o, 'm, 'e, 'a) psi_prog" where
  "ask svc ev = State (\<lambda>s. let a = svc (trace s) in (a, s\<lparr>trace := trace s @ [ev a]\<rparr>))"

definition native :: "'e \<Rightarrow> ('o \<Rightarrow> 'r \<times> 'o) \<Rightarrow> ('o, 'm, 'e, 'r) psi_prog" where
  "native e f = State (\<lambda>s. case f (os s) of (r, o') \<Rightarrow> (r, s\<lparr>os := o', trace := trace s @ [e]\<rparr>))"

definition when_some :: "'a option \<Rightarrow> ('a \<Rightarrow> ('s, unit) state) \<Rightarrow> ('s, unit) state" where
  "when_some x f = (case x of None \<Rightarrow> State_Monad.return () | Some a \<Rightarrow> f a)"

definition get_mem :: "('o, 'm, 'e, 'm) psi_prog" where
  "get_mem = State (\<lambda>s. (mem s, s))"

definition set_mem :: "('m \<Rightarrow> 'm) \<Rightarrow> ('o, 'm, 'e, unit) psi_prog" where
  "set_mem f = State (\<lambda>s. ((), s\<lparr>mem := f (mem s)\<rparr>))"

definition peek :: "('o \<Rightarrow> 'a) \<Rightarrow> ('o, 'm, 'e, 'a) psi_prog" where
  "peek f = State (\<lambda>s. (f (os s), s))"

named_theorems prog_simps \<open>running the steps of a wrapper\<close>

lemma run_tell [prog_simps]: "run_state (tell e) s = ((), s\<lparr>trace := trace s @ [e]\<rparr>)"
  by (simp add: tell_def)

lemma run_ask [prog_simps]:
  "run_state (ask svc ev) s = (svc (trace s), s\<lparr>trace := trace s @ [ev (svc (trace s))]\<rparr>)"
  by (simp add: ask_def Let_def)

lemma run_native [prog_simps]:
  "run_state (native e f) s = (fst (f (os s)), s\<lparr>os := snd (f (os s)), trace := trace s @ [e]\<rparr>)"
  by (simp add: native_def split: prod.split)

lemma run_peek [prog_simps]: "run_state (peek f) s = (f (os s), s)"
  by (simp add: peek_def)

lemma run_get_mem [prog_simps]: "run_state get_mem s = (mem s, s)"
  by (simp add: get_mem_def)

lemma run_set_mem [prog_simps]: "run_state (set_mem f) s = ((), s\<lparr>mem := f (mem s)\<rparr>)"
  by (simp add: set_mem_def)

lemma run_bind [prog_simps]:
  "run_state (State_Monad.bind x f) s = run_state (f (fst (run_state x s))) (snd (run_state x s))"
  by (simp add: State_Monad.bind_def Let_def split: prod.split)

declare case_prod_beta [prog_simps]

lemma run_return [prog_simps]: "run_state (State_Monad.return x) s = (x, s)"
  by (simp add: State_Monad.return_def)

lemma when_some_simps [simp, prog_simps]:
  "when_some None f = State_Monad.return ()" "when_some (Some a) f = f a"
  by (simp_all add: when_some_def)

section \<open>The operations that are instrumented\<close>

datatype PSI_mutex_operation = PSI_MUTEX_LOCK | PSI_MUTEX_TRYLOCK

datatype PSI_rwlock_operation =
    PSI_RWLOCK_READLOCK | PSI_RWLOCK_WRITELOCK | PSI_RWLOCK_TRYREADLOCK | PSI_RWLOCK_TRYWRITELOCK
  | PSI_RWLOCK_SHAREDLOCK | PSI_RWLOCK_SHAREDEXCLUSIVELOCK | PSI_RWLOCK_EXCLUSIVELOCK
  | PSI_RWLOCK_TRYSHAREDLOCK | PSI_RWLOCK_TRYSHAREDEXCLUSIVELOCK | PSI_RWLOCK_TRYEXCLUSIVELOCK

datatype PSI_cond_operation = PSI_COND_WAIT | PSI_COND_TIMEDWAIT

datatype PSI_file_operation =
    PSI_FILE_CREATE | PSI_FILE_CREATE_TMP | PSI_FILE_OPEN | PSI_FILE_STREAM_OPEN | PSI_FILE_CLOSE
  | PSI_FILE_STREAM_CLOSE | PSI_FILE_READ | PSI_FILE_WRITE | PSI_FILE_SEEK | PSI_FILE_TELL
  | PSI_FILE_FLUSH | PSI_FILE_STAT | PSI_FILE_FSTAT | PSI_FILE_CHSIZE | PSI_FILE_DELETE
  | PSI_FILE_RENAME | PSI_FILE_SYNC

datatype PSI_socket_state = PSI_SOCKET_STATE_IDLE | PSI_SOCKET_STATE_ACTIVE

datatype PSI_socket_operation =
    PSI_SOCKET_CREATE | PSI_SOCKET_CONNECT | PSI_SOCKET_BIND | PSI_SOCKET_CLOSE | PSI_SOCKET_SEND
  | PSI_SOCKET_RECV | PSI_SOCKET_SENDTO | PSI_SOCKET_RECVFROM | PSI_SOCKET_SENDMSG
  | PSI_SOCKET_RECVMSG | PSI_SOCKET_SEEK | PSI_SOCKET_OPT | PSI_SOCKET_STAT | PSI_SOCKET_SHUTDOWN
  | PSI_SOCKET_SELECT

section \<open>The discipline of the lockers\<close>

text \<open>
  A locker is granted, its wait is opened, at least one native call happens, and its wait is closed,
  in this order and without another locker in between.
\<close>

datatype mark = Grants locker | Opens locker | Native | Closes locker | Note

datatype phase = Idle | Granted locker | Waiting locker | Ran locker

fun phase_step :: "phase \<Rightarrow> mark \<Rightarrow> phase option" where
  "phase_step p Note = Some p"
| "phase_step Idle (Grants l) = Some (Granted l)"
| "phase_step Idle Native = Some Idle"
| "phase_step (Granted l) (Opens k) = (if k = l then Some (Waiting l) else None)"
| "phase_step (Waiting l) Native = Some (Ran l)"
| "phase_step (Ran l) Native = Some (Ran l)"
| "phase_step (Ran l) (Closes k) = (if k = l then Some Idle else None)"
| "phase_step p m = None"

fun phase_run :: "phase \<Rightarrow> mark list \<Rightarrow> phase option" where
  "phase_run p [] = Some p"
| "phase_run p (m # ms) = (case phase_step p m of None \<Rightarrow> None | Some q \<Rightarrow> phase_run q ms)"

definition disciplined :: "('e \<Rightarrow> mark list) \<Rightarrow> 'e list \<Rightarrow> bool" where
  "disciplined marks es \<longleftrightarrow> phase_run Idle (concat (map marks es)) = Some Idle"

lemma phase_run_append:
  "phase_run p (ms @ ns) = (case phase_run p ms of None \<Rightarrow> None | Some q \<Rightarrow> phase_run q ns)"
  by (induction ms arbitrary: p) (auto split: option.split)

lemma disciplined_Nil [simp]: "disciplined marks []"
  by (simp add: disciplined_def)

lemma disciplined_append:
  "disciplined marks es \<Longrightarrow> disciplined marks fs \<Longrightarrow> disciplined marks (es @ fs)"
  by (simp add: disciplined_def phase_run_append)

text \<open>The events that a step adds to the trace.\<close>

definition adds :: "('e list \<Rightarrow> bool) \<Rightarrow> ('o, 'm, 'e, 'a) psi_prog \<Rightarrow> bool" where
  "adds P x \<longleftrightarrow> (\<forall>s. \<exists>es. trace (snd (run_state x s)) = trace s @ es \<and> P es)"

lemma addsD: "adds P x \<Longrightarrow> \<exists>es. trace (snd (run_state x s)) = trace s @ es \<and> P es"
  by (simp add: adds_def)

section \<open>The contract of a family of instrumented calls\<close>

text \<open>
  A program is a strategy: from the results so far to the next call, or to its end; \<open>run_program\<close>
  takes at most \<open>n\<close> calls.  The contract promises that a wrapper gives the result of the native call on the
  calls that are \<open>fair\<close>, and the discipline of the lockers on all calls.
\<close>

fun run_program ::
  "('c \<Rightarrow> ('s, 'w) state) \<Rightarrow> nat \<Rightarrow> ('w list \<Rightarrow> 'c option) \<Rightarrow> 'w list \<Rightarrow> ('s, 'w list) state"
where
  "run_program call 0 p h = State_Monad.return h"
| "run_program call (Suc n) p h =
     (case p h of
        None \<Rightarrow> State_Monad.return h
      | Some c \<Rightarrow> do { w \<leftarrow> call c; run_program call n p (h @ [w]) })"

lemma run_program_numeral [prog_simps]:
  "run_program call (numeral k) p h =
     (case p h of
        None \<Rightarrow> State_Monad.return h
      | Some c \<Rightarrow> do { w \<leftarrow> call c; run_program call (pred_numeral k) p (h @ [w]) })"
  by (simp add: numeral_eq_Suc)

lemma run_program_invariant:
  assumes "\<And>c s. I s \<Longrightarrow> I (snd (run_state (call c) s))"
  shows "I s \<Longrightarrow> I (snd (run_state (run_program call n p h) s))"
proof (induction n arbitrary: h s)
  case (Suc n)
  then show ?case
    by (cases "p h") (simp_all add: prog_simps assms)
qed (simp add: prog_simps)

text \<open>What holds of every single result holds of all results of a program.\<close>

lemma run_program_all:
  assumes "\<And>c s. P (fst (run_state (call c) s))"
  shows "list_all P h \<Longrightarrow> list_all P (fst (run_state (run_program call n p h) s))"
proof (induction n arbitrary: h s)
  case (Suc n)
  show ?case
  proof (cases "p h")
    case (Some c)
    then show ?thesis
      using Suc.IH [of "h @ [fst (run_state (call c) s)]"] Suc.prems assms by (simp add: prog_simps)
  qed (use Suc.prems in \<open>simp add: prog_simps\<close>)
qed (simp add: prog_simps)

locale instrumented =
  fixes call :: "'c \<Rightarrow> ('o, 'm, 'e, 'w) psi_prog"
    and plain :: "'k \<Rightarrow> ('a, 'r) state"
    and abs :: "('o, 'm, 'e) psi_state \<Rightarrow> 'a"
    and erase_call :: "'c \<Rightarrow> 'k"
    and erase :: "'w \<Rightarrow> 'r"
    and marks :: "'e \<Rightarrow> mark list"
    and fair :: "'c \<Rightarrow> bool"
  assumes transparent: "fair c \<Longrightarrow>
      run_state (plain (erase_call c)) (abs s) =
         (erase (fst (run_state (call c) s)), abs (snd (run_state (call c) s)))"
    and call_disciplined: "adds (disciplined marks) (call c)"
begin

lemma program_transparent:
  assumes "\<And>h. q (map erase h) = map_option erase_call (p h)" "\<And>h c. p h = Some c \<Longrightarrow> fair c"
  shows "run_state (run_program plain n q (map erase h)) (abs s) =
           (map erase (fst (run_state (run_program call n p h) s)),
            abs (snd (run_state (run_program call n p h) s)))"
proof (induction n arbitrary: h s)
  case 0
  show ?case by (simp add: prog_simps)
next
  case (Suc n)
  show ?case
  proof (cases "p h")
    case None
    then show ?thesis using assms(1) [of h] by (simp add: prog_simps)
  next
    case (Some c)
    let ?w = "fst (run_state (call c) s)" and ?s = "snd (run_state (call c) s)"
    have "q (map erase h) = Some (erase_call c)"
      using assms(1) [of h] Some by simp
    then show ?thesis
      using Some Suc.IH [of "h @ [?w]" ?s] by (simp add: prog_simps transparent [OF assms(2) [OF Some]])
  qed
qed

lemma program_disciplined:
  "\<exists>es. trace (snd (run_state (run_program call n p h) s)) = trace s @ es \<and> disciplined marks es"
proof (induction n arbitrary: h s)
  case 0
  show ?case by (simp add: prog_simps)
next
  case (Suc n)
  show ?case
  proof (cases "p h")
    case None
    then show ?thesis by (simp add: prog_simps)
  next
    case (Some c)
    let ?w = "fst (run_state (call c) s)" and ?s = "snd (run_state (call c) s)"
    obtain es where "trace ?s = trace s @ es" and "disciplined marks es"
      using addsD [OF call_disciplined] by blast
    moreover obtain fs where "trace (snd (run_state (run_program call n p (h @ [?w])) ?s)) =
        trace ?s @ fs" and "disciplined marks fs"
      using Suc.IH by blast
    ultimately have "trace (snd (run_state (run_program call n p (h @ [?w])) ?s)) =
        trace s @ (es @ fs)" and "disciplined marks (es @ fs)"
      by (simp_all add: disciplined_append)
    then show ?thesis
      using Some by (auto simp: prog_simps)
  qed
qed

end

end
