(* ===== verification/PSI_Socket.thy ===== *)
theory PSI_Socket
  imports PSI
begin

text \<open>
  \<^verbatim>\<open>mysql/psi/mysql_socket.h\<close>: the wrappers of the socket calls, in the configuration of the
  repository (POSIX, the socket interface of the performance schema compiled in).  Buffers and
  addresses are passed on as pointers.  \<open>socklen_t *addr_len\<close> of \<open>accept\<close> is the value it points to, \<open>None\<close>
  for a null pointer, and the value it points to behind the call is part of the result: the kernel stores
  the length of the address there, the wrapper reads the value and stores nothing.
\<close>

unbundle bit_operations_syntax

section \<open>Instrumented sockets, the native calls, the service\<close>

type_synonym my_socket = int

record MYSQL_SOCKET =
  fd :: my_socket
  m_psi :: "psi option"

definition INVALID_SOCKET :: my_socket where "INVALID_SOCKET = - 1"

datatype sock_event =
    StartWait psi PSI_socket_operation size_t loc "locker option"
  | EndWait locker size_t
  | SetInfo psi "my_socket option" ptr nat
  | SetOwner psi
  | SetState psi PSI_socket_state
  | InitSocket nat my_socket ptr nat "psi option"
  | DestroySocket psi
  | RegisterSocket string ptr int
  | Sys string

record sock_service =
  start_socket_wait ::
    "psi \<Rightarrow> PSI_socket_operation \<Rightarrow> size_t \<Rightarrow> loc \<Rightarrow> sock_event list \<Rightarrow> locker option"
  init_socket :: "nat \<Rightarrow> my_socket \<Rightarrow> ptr \<Rightarrow> nat \<Rightarrow> sock_event list \<Rightarrow> psi option"

record 'o sock_api =
  sys_socket :: "int \<Rightarrow> int \<Rightarrow> int \<Rightarrow> 'o \<Rightarrow> int \<times> 'o"
  sys_bind :: "my_socket \<Rightarrow> ptr \<Rightarrow> nat \<Rightarrow> 'o \<Rightarrow> int \<times> 'o"
  sys_getsockname :: "my_socket \<Rightarrow> ptr \<Rightarrow> ptr \<Rightarrow> 'o \<Rightarrow> int \<times> 'o"
  sys_connect :: "my_socket \<Rightarrow> ptr \<Rightarrow> nat \<Rightarrow> 'o \<Rightarrow> int \<times> 'o"
  sys_getpeername :: "my_socket \<Rightarrow> ptr \<Rightarrow> ptr \<Rightarrow> 'o \<Rightarrow> int \<times> 'o"
  sys_send :: "my_socket \<Rightarrow> ptr \<Rightarrow> size_t \<Rightarrow> int \<Rightarrow> 'o \<Rightarrow> int \<times> 'o"
  sys_recv :: "my_socket \<Rightarrow> ptr \<Rightarrow> size_t \<Rightarrow> int \<Rightarrow> 'o \<Rightarrow> int \<times> 'o"
  sys_sendto :: "my_socket \<Rightarrow> ptr \<Rightarrow> size_t \<Rightarrow> int \<Rightarrow> ptr \<Rightarrow> nat \<Rightarrow> 'o \<Rightarrow> int \<times> 'o"
  sys_recvfrom :: "my_socket \<Rightarrow> ptr \<Rightarrow> size_t \<Rightarrow> int \<Rightarrow> ptr \<Rightarrow> ptr \<Rightarrow> 'o \<Rightarrow> int \<times> 'o"
  sys_getsockopt :: "my_socket \<Rightarrow> int \<Rightarrow> int \<Rightarrow> ptr \<Rightarrow> ptr \<Rightarrow> 'o \<Rightarrow> int \<times> 'o"
  sys_setsockopt :: "my_socket \<Rightarrow> int \<Rightarrow> int \<Rightarrow> ptr \<Rightarrow> nat \<Rightarrow> 'o \<Rightarrow> int \<times> 'o"
  sys_fcntl :: "my_socket \<Rightarrow> int \<Rightarrow> int \<Rightarrow> 'o \<Rightarrow> int \<times> 'o"
  sys_errno :: "'o \<Rightarrow> int"
  sys_listen :: "my_socket \<Rightarrow> int \<Rightarrow> 'o \<Rightarrow> int \<times> 'o"
  sys_accept :: "my_socket \<Rightarrow> ptr \<Rightarrow> nat option \<Rightarrow> 'o \<Rightarrow> (my_socket \<times> nat) \<times> 'o"
  sys_closesocket :: "my_socket \<Rightarrow> 'o \<Rightarrow> int \<times> 'o"
  sys_shutdown :: "my_socket \<Rightarrow> int \<Rightarrow> 'o \<Rightarrow> int \<times> 'o"

type_synonym ('o, 'm, 'a) sock_prog = "('o, 'm, sock_event, 'a) psi_prog"

definition F_GETFL :: int where "F_GETFL = 3"
definition F_SETFL :: int where "F_SETFL = 4"
definition O_NONBLOCK :: int where "O_NONBLOCK = 2048"

section \<open>The helpers\<close>

definition mysql_socket_invalid :: MYSQL_SOCKET where
  "mysql_socket_invalid = \<lparr>fd = INVALID_SOCKET, m_psi = None\<rparr>"

definition mysql_socket_set_address :: "MYSQL_SOCKET \<Rightarrow> ptr \<Rightarrow> nat \<Rightarrow> ('o, 'm, unit) sock_prog" where
  "mysql_socket_set_address socket addr addr_len =
     when_some (m_psi socket) (\<lambda>p. tell (SetInfo p None addr addr_len))"

definition mysql_socket_set_thread_owner :: "MYSQL_SOCKET \<Rightarrow> ('o, 'm, unit) sock_prog" where
  "mysql_socket_set_thread_owner socket = when_some (m_psi socket) (\<lambda>p. tell (SetOwner p))"

definition mysql_socket_getfd :: "MYSQL_SOCKET \<Rightarrow> my_socket" where
  "mysql_socket_getfd mysql_socket = fd mysql_socket"

text \<open>The argument is what the pointer points to; \<open>None\<close> is the null pointer.\<close>

definition mysql_socket_setfd :: "MYSQL_SOCKET option \<Rightarrow> my_socket \<Rightarrow> MYSQL_SOCKET option" where
  "mysql_socket_setfd mysql_socket f =
     (case mysql_socket of None \<Rightarrow> None | Some s \<Rightarrow> Some (s\<lparr>fd := f\<rparr>))"

definition call_start_socket_wait ::
  "sock_service \<Rightarrow> psi \<Rightarrow> PSI_socket_operation \<Rightarrow> size_t \<Rightarrow> loc \<Rightarrow> ('o, 'm, locker option) sock_prog"
where
  "call_start_socket_wait sv p op n src = ask (start_socket_wait sv p op n src) (StartWait p op n src)"

definition inline_mysql_start_socket_wait ::
  "sock_service \<Rightarrow> MYSQL_SOCKET \<Rightarrow> PSI_socket_operation \<Rightarrow> size_t \<Rightarrow> loc
     \<Rightarrow> ('o, 'm, locker option) sock_prog"
where
  "inline_mysql_start_socket_wait sv mysql_socket op byte_count src =
     (case m_psi mysql_socket of
        Some p \<Rightarrow> call_start_socket_wait sv p op byte_count src
      | None \<Rightarrow> State_Monad.return None)"

definition inline_mysql_end_socket_wait :: "locker option \<Rightarrow> size_t \<Rightarrow> ('o, 'm, unit) sock_prog" where
  "inline_mysql_end_socket_wait locker byte_count =
     when_some locker (\<lambda>l. tell (EndWait l byte_count))"

definition inline_mysql_socket_set_state ::
  "MYSQL_SOCKET \<Rightarrow> PSI_socket_state \<Rightarrow> ('o, 'm, unit) sock_prog"
where
  "inline_mysql_socket_set_state socket st = when_some (m_psi socket) (\<lambda>p. tell (SetState p st))"

definition inline_mysql_socket_register :: "string \<Rightarrow> ptr \<Rightarrow> int \<Rightarrow> ('o, 'm, unit) sock_prog" where
  "inline_mysql_socket_register category info cnt = tell (RegisterSocket category info cnt)"

section \<open>The wrappers\<close>

definition inline_mysql_socket_socket ::
  "sock_service \<Rightarrow> 'o sock_api \<Rightarrow> nat \<Rightarrow> int \<Rightarrow> int \<Rightarrow> int \<Rightarrow> ('o, 'm, MYSQL_SOCKET) sock_prog"
where
  "inline_mysql_socket_socket sv api key domain typ protocol = do {
     f \<leftarrow> native (Sys ''socket'') (sys_socket api domain typ protocol);
     let mysql_socket = mysql_socket_invalid\<lparr>fd := f\<rparr>;
     if fd mysql_socket \<noteq> INVALID_SOCKET
     then do {
       p \<leftarrow> ask (init_socket sv key f NULL 0) (InitSocket key f NULL 0);
       State_Monad.return (mysql_socket\<lparr>m_psi := p\<rparr>) }
     else State_Monad.return mysql_socket }"

definition inline_mysql_socket_bind ::
  "sock_service \<Rightarrow> 'o sock_api \<Rightarrow> loc \<Rightarrow> MYSQL_SOCKET \<Rightarrow> ptr \<Rightarrow> nat \<Rightarrow> ('o, 'm, int) sock_prog"
where
  "inline_mysql_socket_bind sv api src mysql_socket addr len =
     (case m_psi mysql_socket of
        Some p \<Rightarrow> do {
          locker \<leftarrow> call_start_socket_wait sv p PSI_SOCKET_BIND 0 src;
          result \<leftarrow> native (Sys ''bind'') (sys_bind api (fd mysql_socket) addr len);
          (if result = 0 then tell (SetInfo p None addr len) else State_Monad.return ());
          when_some locker (\<lambda>l. tell (EndWait l 0));
          State_Monad.return result }
      | None \<Rightarrow> native (Sys ''bind'') (sys_bind api (fd mysql_socket) addr len))"

definition inline_mysql_socket_getsockname ::
  "sock_service \<Rightarrow> 'o sock_api \<Rightarrow> loc \<Rightarrow> MYSQL_SOCKET \<Rightarrow> ptr \<Rightarrow> ptr
     \<Rightarrow> ('o, 'm, int) sock_prog"
where
  "inline_mysql_socket_getsockname sv api src mysql_socket addr len =
     (case m_psi mysql_socket of
        Some p \<Rightarrow> do {
          locker \<leftarrow> call_start_socket_wait sv p PSI_SOCKET_BIND 0 src;
          result \<leftarrow> native (Sys ''getsockname'') (sys_getsockname api (fd mysql_socket) addr len);
          when_some locker (\<lambda>l. tell (EndWait l 0));
          State_Monad.return result }
      | None \<Rightarrow> native (Sys ''getsockname'') (sys_getsockname api (fd mysql_socket) addr len))"

definition inline_mysql_socket_connect ::
  "sock_service \<Rightarrow> 'o sock_api \<Rightarrow> loc \<Rightarrow> MYSQL_SOCKET \<Rightarrow> ptr \<Rightarrow> nat
     \<Rightarrow> ('o, 'm, int) sock_prog"
where
  "inline_mysql_socket_connect sv api src mysql_socket addr len =
     (case m_psi mysql_socket of
        Some p \<Rightarrow> do {
          locker \<leftarrow> call_start_socket_wait sv p PSI_SOCKET_CONNECT 0 src;
          result \<leftarrow> native (Sys ''connect'') (sys_connect api (fd mysql_socket) addr len);
          when_some locker (\<lambda>l. tell (EndWait l 0));
          State_Monad.return result }
      | None \<Rightarrow> native (Sys ''connect'') (sys_connect api (fd mysql_socket) addr len))"

definition inline_mysql_socket_getpeername ::
  "sock_service \<Rightarrow> 'o sock_api \<Rightarrow> loc \<Rightarrow> MYSQL_SOCKET \<Rightarrow> ptr \<Rightarrow> ptr
     \<Rightarrow> ('o, 'm, int) sock_prog"
where
  "inline_mysql_socket_getpeername sv api src mysql_socket addr len =
     (case m_psi mysql_socket of
        Some p \<Rightarrow> do {
          locker \<leftarrow> call_start_socket_wait sv p PSI_SOCKET_BIND 0 src;
          result \<leftarrow> native (Sys ''getpeername'') (sys_getpeername api (fd mysql_socket) addr len);
          when_some locker (\<lambda>l. tell (EndWait l 0));
          State_Monad.return result }
      | None \<Rightarrow> native (Sys ''getpeername'') (sys_getpeername api (fd mysql_socket) addr len))"

definition inline_mysql_socket_send ::
  "sock_service \<Rightarrow> 'o sock_api \<Rightarrow> loc \<Rightarrow> MYSQL_SOCKET \<Rightarrow> ptr \<Rightarrow> size_t \<Rightarrow> int
     \<Rightarrow> ('o, 'm, int) sock_prog"
where
  "inline_mysql_socket_send sv api src mysql_socket buf n flags =
     (case m_psi mysql_socket of
        Some p \<Rightarrow> do {
          locker \<leftarrow> call_start_socket_wait sv p PSI_SOCKET_SEND n src;
          result \<leftarrow> native (Sys ''send'') (sys_send api (fd mysql_socket) buf n flags);
          let bytes_written = (if result > - 1 then word_of_int result else 0);
          when_some locker (\<lambda>l. tell (EndWait l bytes_written));
          State_Monad.return result }
      | None \<Rightarrow> native (Sys ''send'') (sys_send api (fd mysql_socket) buf n flags))"

definition inline_mysql_socket_recv ::
  "sock_service \<Rightarrow> 'o sock_api \<Rightarrow> loc \<Rightarrow> MYSQL_SOCKET \<Rightarrow> ptr \<Rightarrow> size_t \<Rightarrow> int
     \<Rightarrow> ('o, 'm, int) sock_prog"
where
  "inline_mysql_socket_recv sv api src mysql_socket buf n flags =
     (case m_psi mysql_socket of
        Some p \<Rightarrow> do {
          locker \<leftarrow> call_start_socket_wait sv p PSI_SOCKET_RECV 0 src;
          result \<leftarrow> native (Sys ''recv'') (sys_recv api (fd mysql_socket) buf n flags);
          let bytes_read = (if result > - 1 then word_of_int result else 0);
          when_some locker (\<lambda>l. tell (EndWait l bytes_read));
          State_Monad.return result }
      | None \<Rightarrow> native (Sys ''recv'') (sys_recv api (fd mysql_socket) buf n flags))"

definition inline_mysql_socket_sendto ::
  "sock_service \<Rightarrow> 'o sock_api \<Rightarrow> loc \<Rightarrow> MYSQL_SOCKET \<Rightarrow> ptr \<Rightarrow> size_t \<Rightarrow> int \<Rightarrow> ptr \<Rightarrow> nat
     \<Rightarrow> ('o, 'm, int) sock_prog"
where
  "inline_mysql_socket_sendto sv api src mysql_socket buf n flags addr addr_len =
     (case m_psi mysql_socket of
        Some p \<Rightarrow> do {
          locker \<leftarrow> call_start_socket_wait sv p PSI_SOCKET_SEND n src;
          result \<leftarrow> native (Sys ''sendto'') (sys_sendto api (fd mysql_socket) buf n flags addr addr_len);
          let bytes_written = (if result > - 1 then word_of_int result else 0);
          when_some locker (\<lambda>l. tell (EndWait l bytes_written));
          State_Monad.return result }
      | None \<Rightarrow> native (Sys ''sendto'') (sys_sendto api (fd mysql_socket) buf n flags addr addr_len))"

definition inline_mysql_socket_recvfrom ::
  "sock_service \<Rightarrow> 'o sock_api \<Rightarrow> loc \<Rightarrow> MYSQL_SOCKET \<Rightarrow> ptr \<Rightarrow> size_t \<Rightarrow> int \<Rightarrow> ptr \<Rightarrow> ptr
     \<Rightarrow> ('o, 'm, int) sock_prog"
where
  "inline_mysql_socket_recvfrom sv api src mysql_socket buf n flags addr addr_len =
     (case m_psi mysql_socket of
        Some p \<Rightarrow> do {
          locker \<leftarrow> call_start_socket_wait sv p PSI_SOCKET_RECV 0 src;
          result \<leftarrow> native (Sys ''recvfrom'') (sys_recvfrom api (fd mysql_socket) buf n flags addr addr_len);
          let bytes_read = (if result > - 1 then word_of_int result else 0);
          when_some locker (\<lambda>l. tell (EndWait l bytes_read));
          State_Monad.return result }
      | None \<Rightarrow> native (Sys ''recvfrom'') (sys_recvfrom api (fd mysql_socket) buf n flags addr addr_len))"

definition inline_mysql_socket_getsockopt ::
  "sock_service \<Rightarrow> 'o sock_api \<Rightarrow> loc \<Rightarrow> MYSQL_SOCKET \<Rightarrow> int \<Rightarrow> int \<Rightarrow> ptr \<Rightarrow> ptr
     \<Rightarrow> ('o, 'm, int) sock_prog"
where
  "inline_mysql_socket_getsockopt sv api src mysql_socket level optname optval optlen =
     (case m_psi mysql_socket of
        Some p \<Rightarrow> do {
          locker \<leftarrow> call_start_socket_wait sv p PSI_SOCKET_OPT 0 src;
          result \<leftarrow> native (Sys ''getsockopt'') (sys_getsockopt api (fd mysql_socket) level optname optval optlen);
          when_some locker (\<lambda>l. tell (EndWait l 0));
          State_Monad.return result }
      | None \<Rightarrow> native (Sys ''getsockopt'') (sys_getsockopt api (fd mysql_socket) level optname optval optlen))"

definition inline_mysql_socket_setsockopt ::
  "sock_service \<Rightarrow> 'o sock_api \<Rightarrow> loc \<Rightarrow> MYSQL_SOCKET \<Rightarrow> int \<Rightarrow> int \<Rightarrow> ptr \<Rightarrow> nat
     \<Rightarrow> ('o, 'm, int) sock_prog"
where
  "inline_mysql_socket_setsockopt sv api src mysql_socket level optname optval optlen =
     (case m_psi mysql_socket of
        Some p \<Rightarrow> do {
          locker \<leftarrow> call_start_socket_wait sv p PSI_SOCKET_OPT 0 src;
          result \<leftarrow> native (Sys ''setsockopt'') (sys_setsockopt api (fd mysql_socket) level optname optval optlen);
          when_some locker (\<lambda>l. tell (EndWait l 0));
          State_Monad.return result }
      | None \<Rightarrow> native (Sys ''setsockopt'') (sys_setsockopt api (fd mysql_socket) level optname optval optlen))"

definition set_socket_nonblock :: "'o sock_api \<Rightarrow> my_socket \<Rightarrow> ('o, 'm, int) sock_prog" where
  "set_socket_nonblock api f = do {
     fd_flags \<leftarrow> native (Sys ''fcntl'') (sys_fcntl api f F_GETFL 0);
     if fd_flags < 0 then native (Sys ''errno'') (\<lambda>w. (sys_errno api w, w))
     else do {
       r \<leftarrow> native (Sys ''fcntl'') (sys_fcntl api f F_SETFL (fd_flags OR O_NONBLOCK));
       if r = - 1 then native (Sys ''errno'') (\<lambda>w. (sys_errno api w, w))
       else State_Monad.return 0 } }"

definition inline_mysql_sock_set_nonblocking ::
  "sock_service \<Rightarrow> 'o sock_api \<Rightarrow> loc \<Rightarrow> MYSQL_SOCKET \<Rightarrow> ('o, 'm, int) sock_prog"
where
  "inline_mysql_sock_set_nonblocking sv api src mysql_socket =
     (case m_psi mysql_socket of
        Some p \<Rightarrow> do {
          locker \<leftarrow> call_start_socket_wait sv p PSI_SOCKET_OPT 0 src;
          result \<leftarrow> set_socket_nonblock api (fd mysql_socket);
          when_some locker (\<lambda>l. tell (EndWait l 0));
          State_Monad.return result }
      | None \<Rightarrow> set_socket_nonblock api (fd mysql_socket))"

definition inline_mysql_socket_listen ::
  "sock_service \<Rightarrow> 'o sock_api \<Rightarrow> loc \<Rightarrow> MYSQL_SOCKET \<Rightarrow> int
     \<Rightarrow> ('o, 'm, int) sock_prog"
where
  "inline_mysql_socket_listen sv api src mysql_socket backlog =
     (case m_psi mysql_socket of
        Some p \<Rightarrow> do {
          locker \<leftarrow> call_start_socket_wait sv p PSI_SOCKET_CONNECT 0 src;
          result \<leftarrow> native (Sys ''listen'') (sys_listen api (fd mysql_socket) backlog);
          when_some locker (\<lambda>l. tell (EndWait l 0));
          State_Monad.return result }
      | None \<Rightarrow> native (Sys ''listen'') (sys_listen api (fd mysql_socket) backlog))"

definition inline_mysql_socket_accept ::
  "sock_service \<Rightarrow> 'o sock_api \<Rightarrow> loc \<Rightarrow> nat \<Rightarrow> MYSQL_SOCKET \<Rightarrow> ptr \<Rightarrow> nat option
     \<Rightarrow> ('o, 'm, MYSQL_SOCKET) sock_prog"
where
  "inline_mysql_socket_accept sv api src key socket_listen addr addr_len = do {
     let addr_length = (case addr_len of None \<Rightarrow> 0 | Some v \<Rightarrow> v);
     (f, addr_length') \<leftarrow>
       (case m_psi socket_listen of
          Some p \<Rightarrow> do {
            locker \<leftarrow> call_start_socket_wait sv p PSI_SOCKET_CONNECT 0 src;
            r \<leftarrow> native (Sys ''accept'') (sys_accept api (fd socket_listen) addr (Some addr_length));
            when_some locker (\<lambda>l. tell (EndWait l 0));
            State_Monad.return r }
        | None \<Rightarrow> native (Sys ''accept'') (sys_accept api (fd socket_listen) addr (Some addr_length)));
     let socket_accept = mysql_socket_invalid\<lparr>fd := f\<rparr>;
     if f \<noteq> INVALID_SOCKET
     then do {
       q \<leftarrow> ask (init_socket sv key f addr addr_length') (InitSocket key f addr addr_length');
       State_Monad.return (socket_accept\<lparr>m_psi := q\<rparr>) }
     else State_Monad.return socket_accept }"

definition inline_mysql_socket_close ::
  "sock_service \<Rightarrow> 'o sock_api \<Rightarrow> loc \<Rightarrow> MYSQL_SOCKET \<Rightarrow> ('o, 'm, int) sock_prog"
where
  "inline_mysql_socket_close sv api src mysql_socket =
     (case m_psi mysql_socket of
        Some p \<Rightarrow> do {
          locker \<leftarrow> call_start_socket_wait sv p PSI_SOCKET_CLOSE 0 src;
          result \<leftarrow> native (Sys ''closesocket'') (sys_closesocket api (fd mysql_socket));
          when_some locker (\<lambda>l. tell (EndWait l 0));
          tell (DestroySocket p);
          State_Monad.return result }
      | None \<Rightarrow> native (Sys ''closesocket'') (sys_closesocket api (fd mysql_socket)))"

definition inline_mysql_socket_shutdown ::
  "sock_service \<Rightarrow> 'o sock_api \<Rightarrow> loc \<Rightarrow> MYSQL_SOCKET \<Rightarrow> int
     \<Rightarrow> ('o, 'm, int) sock_prog"
where
  "inline_mysql_socket_shutdown sv api src mysql_socket how =
     (case m_psi mysql_socket of
        Some p \<Rightarrow> do {
          locker \<leftarrow> call_start_socket_wait sv p PSI_SOCKET_SHUTDOWN 0 src;
          result \<leftarrow> native (Sys ''shutdown'') (sys_shutdown api (fd mysql_socket) how);
          when_some locker (\<lambda>l. tell (EndWait l 0));
          State_Monad.return result }
      | None \<Rightarrow> native (Sys ''shutdown'') (sys_shutdown api (fd mysql_socket) how))"

section \<open>Programs of socket calls\<close>

text \<open>
  \<open>'s\<close> is what the program holds for a socket: a \<open>MYSQL_SOCKET\<close> when it uses the wrappers, a
  descriptor when it uses the native calls.
\<close>

datatype 's sock_call =
    CSocket nat int int int
  | CBind loc 's ptr nat
  | CGetsockname loc 's ptr ptr
  | CConnect loc 's ptr nat
  | CGetpeername loc 's ptr ptr
  | CSend loc 's ptr size_t int
  | CRecv loc 's ptr size_t int
  | CSendto loc 's ptr size_t int ptr nat
  | CRecvfrom loc 's ptr size_t int ptr ptr
  | CGetsockopt loc 's int int ptr ptr
  | CSetsockopt loc 's int int ptr nat
  | CSetNonblocking loc 's
  | CListen loc 's int
  | CAccept loc nat 's ptr "nat option"
  | CClose loc 's
  | CShutdown loc 's int
  | CSetAddress 's ptr nat
  | CSetOwner 's
  | CSetState 's PSI_socket_state
  | CRegister string ptr int

text \<open>\<open>RAccept\<close> has the socket and what the length pointer points to.\<close>

datatype 's sock_result = RInt int | RSock 's | RAccept 's "nat option" | RUnit

primrec run_sock_call ::
  "sock_service \<Rightarrow> 'o sock_api \<Rightarrow> MYSQL_SOCKET sock_call \<Rightarrow> ('o, 'm, MYSQL_SOCKET sock_result) sock_prog"
where
  "run_sock_call sv api (CSocket key domain typ protocol) =
     do { r \<leftarrow> inline_mysql_socket_socket sv api key domain typ protocol; State_Monad.return (RSock r) }"
| "run_sock_call sv api (CBind src sk addr len) =
     do { r \<leftarrow> inline_mysql_socket_bind sv api src sk addr len; State_Monad.return (RInt r) }"
| "run_sock_call sv api (CGetsockname src sk addr lenp) =
     do { r \<leftarrow> inline_mysql_socket_getsockname sv api src sk addr lenp; State_Monad.return (RInt r) }"
| "run_sock_call sv api (CConnect src sk addr len) =
     do { r \<leftarrow> inline_mysql_socket_connect sv api src sk addr len; State_Monad.return (RInt r) }"
| "run_sock_call sv api (CGetpeername src sk addr lenp) =
     do { r \<leftarrow> inline_mysql_socket_getpeername sv api src sk addr lenp; State_Monad.return (RInt r) }"
| "run_sock_call sv api (CSend src sk buf n flags) =
     do { r \<leftarrow> inline_mysql_socket_send sv api src sk buf n flags; State_Monad.return (RInt r) }"
| "run_sock_call sv api (CRecv src sk buf n flags) =
     do { r \<leftarrow> inline_mysql_socket_recv sv api src sk buf n flags; State_Monad.return (RInt r) }"
| "run_sock_call sv api (CSendto src sk buf n flags addr len) =
     do { r \<leftarrow> inline_mysql_socket_sendto sv api src sk buf n flags addr len; State_Monad.return (RInt r) }"
| "run_sock_call sv api (CRecvfrom src sk buf n flags addr lenp) =
     do { r \<leftarrow> inline_mysql_socket_recvfrom sv api src sk buf n flags addr lenp; State_Monad.return (RInt r) }"
| "run_sock_call sv api (CGetsockopt src sk level optname optval lenp) =
     do { r \<leftarrow> inline_mysql_socket_getsockopt sv api src sk level optname optval lenp; State_Monad.return (RInt r) }"
| "run_sock_call sv api (CSetsockopt src sk level optname optval len) =
     do { r \<leftarrow> inline_mysql_socket_setsockopt sv api src sk level optname optval len; State_Monad.return (RInt r) }"
| "run_sock_call sv api (CSetNonblocking src sk) =
     do { r \<leftarrow> inline_mysql_sock_set_nonblocking sv api src sk; State_Monad.return (RInt r) }"
| "run_sock_call sv api (CListen src sk backlog) =
     do { r \<leftarrow> inline_mysql_socket_listen sv api src sk backlog; State_Monad.return (RInt r) }"
| "run_sock_call sv api (CAccept src key sk addr lenp) =
     do { r \<leftarrow> inline_mysql_socket_accept sv api src key sk addr lenp; State_Monad.return (RAccept r lenp) }"
| "run_sock_call sv api (CClose src sk) =
     do { r \<leftarrow> inline_mysql_socket_close sv api src sk; State_Monad.return (RInt r) }"
| "run_sock_call sv api (CShutdown src sk how) =
     do { r \<leftarrow> inline_mysql_socket_shutdown sv api src sk how; State_Monad.return (RInt r) }"
| "run_sock_call sv api (CSetAddress sk addr len) =
     do { mysql_socket_set_address sk addr len; State_Monad.return RUnit }"
| "run_sock_call sv api (CSetOwner sk) =
     do { mysql_socket_set_thread_owner sk; State_Monad.return RUnit }"
| "run_sock_call sv api (CSetState sk st) =
     do { inline_mysql_socket_set_state sk st; State_Monad.return RUnit }"
| "run_sock_call sv api (CRegister category info cnt) =
     do { inline_mysql_socket_register category info cnt; State_Monad.return RUnit }"

text \<open>The same program on the native calls.\<close>

definition plainly :: "('o \<Rightarrow> 'r \<times> 'o) \<Rightarrow> ('r \<Rightarrow> 'a) \<Rightarrow> ('o, 'a) state" where
  "plainly f g = State (\<lambda>w. (g (fst (f w)), snd (f w)))"

definition plain_nonblock :: "'o sock_api \<Rightarrow> my_socket \<Rightarrow> 'o \<Rightarrow> int \<times> 'o" where
  "plain_nonblock api f w =
     (let (fl, w1) = sys_fcntl api f F_GETFL 0 w in
      if fl < 0 then (sys_errno api w1, w1)
      else let (r, w2) = sys_fcntl api f F_SETFL (fl OR O_NONBLOCK) w1 in
        (if r = - 1 then sys_errno api w2 else 0, w2))"

primrec plain_sock_call :: "'o sock_api \<Rightarrow> my_socket sock_call \<Rightarrow> ('o, my_socket sock_result) state" where
  "plain_sock_call api (CSocket key domain typ protocol) =
     plainly (sys_socket api domain typ protocol) RSock"
| "plain_sock_call api (CBind src sk addr len) =
     plainly (sys_bind api sk addr len) RInt"
| "plain_sock_call api (CGetsockname src sk addr lenp) =
     plainly (sys_getsockname api sk addr lenp) RInt"
| "plain_sock_call api (CConnect src sk addr len) =
     plainly (sys_connect api sk addr len) RInt"
| "plain_sock_call api (CGetpeername src sk addr lenp) =
     plainly (sys_getpeername api sk addr lenp) RInt"
| "plain_sock_call api (CSend src sk buf n flags) =
     plainly (sys_send api sk buf n flags) RInt"
| "plain_sock_call api (CRecv src sk buf n flags) =
     plainly (sys_recv api sk buf n flags) RInt"
| "plain_sock_call api (CSendto src sk buf n flags addr len) =
     plainly (sys_sendto api sk buf n flags addr len) RInt"
| "plain_sock_call api (CRecvfrom src sk buf n flags addr lenp) =
     plainly (sys_recvfrom api sk buf n flags addr lenp) RInt"
| "plain_sock_call api (CGetsockopt src sk level optname optval lenp) =
     plainly (sys_getsockopt api sk level optname optval lenp) RInt"
| "plain_sock_call api (CSetsockopt src sk level optname optval len) =
     plainly (sys_setsockopt api sk level optname optval len) RInt"
| "plain_sock_call api (CSetNonblocking src sk) =
     plainly (plain_nonblock api sk) RInt"
| "plain_sock_call api (CListen src sk backlog) =
     plainly (sys_listen api sk backlog) RInt"
| "plain_sock_call api (CAccept src key sk addr lenp) =
     plainly (sys_accept api sk addr lenp) (\<lambda>(f, l). RAccept f (map_option (\<lambda>v. l) lenp))"
| "plain_sock_call api (CClose src sk) =
     plainly (sys_closesocket api sk) RInt"
| "plain_sock_call api (CShutdown src sk how) =
     plainly (sys_shutdown api sk how) RInt"
| "plain_sock_call api (CSetAddress sk addr len) =
     State_Monad.return RUnit"
| "plain_sock_call api (CSetOwner sk) =
     State_Monad.return RUnit"
| "plain_sock_call api (CSetState sk st) =
     State_Monad.return RUnit"
| "plain_sock_call api (CRegister category info cnt) =
     State_Monad.return RUnit"

fun sock_marks :: "sock_event \<Rightarrow> mark list" where
  "sock_marks (StartWait p op n src a) =
     (case a of None \<Rightarrow> [Note] | Some l \<Rightarrow> [Grants l, Opens l])"
| "sock_marks (EndWait l n) = [Closes l]"
| "sock_marks (Sys c) = [Native]"
| "sock_marks e = [Note]"

lemmas sock_defs =
  mysql_socket_set_address_def mysql_socket_set_thread_owner_def inline_mysql_socket_set_state_def
  inline_mysql_socket_register_def call_start_socket_wait_def mysql_socket_invalid_def
  inline_mysql_socket_socket_def inline_mysql_socket_bind_def inline_mysql_socket_getsockname_def
  inline_mysql_socket_connect_def inline_mysql_socket_getpeername_def inline_mysql_socket_send_def
  inline_mysql_socket_recv_def inline_mysql_socket_sendto_def inline_mysql_socket_recvfrom_def
  inline_mysql_socket_getsockopt_def inline_mysql_socket_setsockopt_def set_socket_nonblock_def
  inline_mysql_sock_set_nonblocking_def inline_mysql_socket_listen_def
  inline_mysql_socket_accept_def inline_mysql_socket_close_def inline_mysql_socket_shutdown_def

lemma run_plainly [prog_simps]: "run_state (plainly f g) w = (g (fst (f w)), snd (f w))"
  by (simp add: plainly_def)

text \<open>\<open>accept\<close> with a null address does not look at the length (POSIX).  With that, the wrapper does what the
  native call does when the program asks for no address; every other call is passed on as it is.\<close>

definition accept_ignores_length :: "'o sock_api \<Rightarrow> bool" where
  "accept_ignores_length api \<longleftrightarrow> (\<forall>f l w. fst (fst (sys_accept api f NULL l w)) = fst (fst (sys_accept api f NULL None w)) \<and>
     snd (sys_accept api f NULL l w) = snd (sys_accept api f NULL None w))"

fun asks_address :: "'s sock_call \<Rightarrow> bool" where
  "asks_address (CAccept src key sk addr lenp) \<longleftrightarrow> addr \<noteq> NULL \<or> lenp \<noteq> None"
| "asks_address c \<longleftrightarrow> False"

definition fair_call :: "'o sock_api \<Rightarrow> 's sock_call \<Rightarrow> bool" where
  "fair_call api c \<longleftrightarrow> accept_ignores_length api \<and> \<not> asks_address c"

lemma accept_no_address:
  assumes "accept_ignores_length api"
  shows "fst (fst (sys_accept api f NULL (Some 0) w)) = fst (fst (sys_accept api f NULL None w))"
    "snd (sys_accept api f NULL (Some 0) w) = snd (sys_accept api f NULL None w)"
  using assms unfolding accept_ignores_length_def by blast+

lemma sock_call_transparent:
  "fair_call api c \<Longrightarrow> run_state (plain_sock_call api (map_sock_call fd c)) (os s) =
     (map_sock_result fd (fst (run_state (run_sock_call sv api c) s)),
      os (snd (run_state (run_sock_call sv api c) s)))"
  by (cases c)
    (simp_all add: sock_defs prog_simps plain_nonblock_def when_some_def Let_def fair_call_def accept_no_address
      split: option.split)

text \<open>The wrapper of \<open>accept\<close> with a length pointer: the descriptor and the kernel are those of the native call,
  the length is not.\<close>

lemma accept_length_lost:
  "run_state (plain_sock_call api (CAccept src key (fd k) addr (Some v))) (os s) =
     (let r = sys_accept api (fd k) addr (Some v) (os s) in (RAccept (fst (fst r)) (Some (snd (fst r))), snd r))"
  "\<exists>k'. fd k' = fst (fst (sys_accept api (fd k) addr (Some v) (os s))) \<and>
     fst (run_state (run_sock_call sv api (CAccept src key k addr (Some v))) s) = RAccept k' (Some v) \<and>
     os (snd (run_state (run_sock_call sv api (CAccept src key k addr (Some v))) s)) =
       snd (sys_accept api (fd k) addr (Some v) (os s))"
  by (simp_all add: sock_defs prog_simps when_some_def Let_def split: option.split)

lemma sock_call_disciplined: "adds (disciplined sock_marks) (run_sock_call sv api c)"
  unfolding adds_def disciplined_def
  by (cases c) (auto simp: sock_defs prog_simps when_some_def Let_def split: option.split)

interpretation sock:
  instrumented "run_sock_call sv api" "plain_sock_call api" os "map_sock_call fd"
    "map_sock_result fd" sock_marks "fair_call api"
  for sv api
  by unfold_locales (erule sock_call_transparent, rule sock_call_disciplined)

text \<open>C33. A program that uses the wrappers, and the same program on the native calls, which holds the
  descriptors where the first holds instrumented sockets, get the same results and leave the operating
  system in the same state, whatever the performance schema answers: for every strategy that chooses its
  calls from the results so far and asks \<open>accept\<close> for no address, over any number of calls.  \<open>accept\<close> with a
  length pointer is the exception: the wrapper returns the same descriptor and leaves the pointer at the
  caller's value, the native call stores the length of the peer's address.\<close>
theorem sock_program_transparent:
  assumes "accept_ignores_length api"
    "\<And>h. q (map (map_sock_result fd) h) = map_option (map_sock_call fd) (p h)"
    "\<And>h c. p h = Some c \<Longrightarrow> \<not> asks_address c"
  shows "run_state (run_program (plain_sock_call api) n q []) (os s) =
           (map (map_sock_result fd) (fst (run_state (run_program (run_sock_call sv api) n p []) s)),
            os (snd (run_state (run_program (run_sock_call sv api) n p []) s))) \<and>
         (let native_result = run_state (plain_sock_call api (CAccept src key (fd k) addr (Some v))) (os s);
              wrapper_result = run_state (run_sock_call sv api (CAccept src key k addr (Some v))) s;
              r = sys_accept api (fd k) addr (Some v) (os s)
          in fst native_result = RAccept (fst (fst r)) (Some (snd (fst r))) \<and>
             (\<exists>k'. fd k' = fst (fst r) \<and> fst wrapper_result = RAccept k' (Some v)) \<and>
             snd native_result = os (snd wrapper_result))"
proof
  show "run_state (run_program (plain_sock_call api) n q []) (os s) =
           (map (map_sock_result fd) (fst (run_state (run_program (run_sock_call sv api) n p []) s)),
            os (snd (run_state (run_program (run_sock_call sv api) n p []) s)))"
    using sock.program_transparent [of q p api n "[]" s sv] assms by (simp add: fair_call_def)
next
  show "let native_result = run_state (plain_sock_call api (CAccept src key (fd k) addr (Some v))) (os s);
            wrapper_result = run_state (run_sock_call sv api (CAccept src key k addr (Some v))) s;
            r = sys_accept api (fd k) addr (Some v) (os s)
        in fst native_result = RAccept (fst (fst r)) (Some (snd (fst r))) \<and>
           (\<exists>k'. fd k' = fst (fst r) \<and> fst wrapper_result = RAccept k' (Some v)) \<and>
           snd native_result = os (snd wrapper_result)"
    using accept_length_lost(1) [of api src key k addr v s]
      accept_length_lost(2) [where api = api and src = src and key = key and k = k and addr = addr and v = v and s = s and sv = sv]
    by (auto simp: Let_def)
qed

text \<open>A program that opens a socket, listens, accepts a client without asking for its address, sends five bytes
  to it and closes it.\<close>

fun demo :: "'s sock_result list \<Rightarrow> 's sock_call option" where
  "demo [] = Some (CSocket 7 2 1 0)"
| "demo [RSock k] = Some (CListen (''demo.c'', 1) k 5)"
| "demo [RSock k, r] = Some (CAccept (''demo.c'', 2) 8 k NULL None)"
| "demo [RSock k, r, RAccept c l] = Some (CSend (''demo.c'', 3) c 8192 5 0)"
| "demo [RSock k, r, RAccept c l, q] = Some (CClose (''demo.c'', 4) c)"
| "demo h = None"

definition demo_service :: sock_service where
  "demo_service = \<lparr>start_socket_wait = (\<lambda>p op n src h. Some (length h)),
                   init_socket = (\<lambda>key f addr len h. Some 77)\<rparr>"

definition demo_api :: "int sock_api" where
  "demo_api = \<lparr>sys_socket = (\<lambda>d t p w. (w, w + 1)), sys_bind = (\<lambda>f a l w. (0, w)),
     sys_getsockname = (\<lambda>f a l w. (0, w)), sys_connect = (\<lambda>f a l w. (0, w + 10)),
     sys_getpeername = (\<lambda>f a l w. (0, w)), sys_send = (\<lambda>f b n g w. (uint n, w + 100)),
     sys_recv = (\<lambda>f b n g w. (0, w)), sys_sendto = (\<lambda>f b n g a l w. (uint n, w)),
     sys_recvfrom = (\<lambda>f b n g a l w. (0, w)), sys_getsockopt = (\<lambda>f l n v k w. (0, w)),
     sys_setsockopt = (\<lambda>f l n v k w. (0, w)), sys_fcntl = (\<lambda>f c a w. (0, w)),
     sys_errno = (\<lambda>w. 0), sys_listen = (\<lambda>f b w. (0, w)), sys_accept = (\<lambda>f a l w. ((w, 16), w + 1)),
     sys_closesocket = (\<lambda>f w. (0, w + 1000)), sys_shutdown = (\<lambda>f h w. (0, w))\<rparr>"

lemma demo_erases: "demo (map (map_sock_result fd) h) = map_option (map_sock_call fd) (demo h)"
  by (induction h rule: demo.induct) simp_all

definition demo_state :: "(int, unit, sock_event) psi_state" where
  "demo_state = \<lparr>os = 3, mem = (), trace = []\<rparr>"

lemma demo_fair: "accept_ignores_length demo_api" "demo h = Some c \<Longrightarrow> \<not> asks_address c"
  by (simp add: accept_ignores_length_def demo_api_def) (induction h rule: demo.induct; auto)

text \<open>The native program and the instrumented one; and an \<open>accept\<close> with room for 28 bytes of an address of 16.\<close>

theorem sock_program_transparent_witness:
  "run_state (run_program (plain_sock_call demo_api) 9 demo []) 3 =
     ([RSock 3, RInt 0, RAccept 4 None, RInt 5, RInt 0], 1105) \<and>
   fst (run_state (run_program (run_sock_call demo_service demo_api) 9 demo []) demo_state) =
     [RSock \<lparr>fd = 3, m_psi = Some 77\<rparr>, RInt 0, RAccept \<lparr>fd = 4, m_psi = Some 77\<rparr> None, RInt 5, RInt 0] \<and>
   fst (run_state (plain_sock_call demo_api (CAccept (''demo.c'', 2) 8 9 4096 (Some 28))) 3) = RAccept 3 (Some 16) \<and>
   (\<exists>k'. fd k' = 3 \<and> fst (run_state (run_sock_call demo_service demo_api
      (CAccept (''demo.c'', 2) 8 \<lparr>fd = 9, m_psi = Some 77\<rparr> 4096 (Some 28))) demo_state) = RAccept k' (Some 28))"
proof -
  have run: "fst (run_state (run_program (run_sock_call demo_service demo_api) 9 demo []) demo_state) =
       [RSock \<lparr>fd = 3, m_psi = Some 77\<rparr>, RInt 0, RAccept \<lparr>fd = 4, m_psi = Some 77\<rparr> None, RInt 5, RInt 0]"
    "os (snd (run_state (run_program (run_sock_call demo_service demo_api) 9 demo []) demo_state)) = 1105"
    by (simp_all add: sock_defs prog_simps demo_state_def demo_service_def demo_api_def INVALID_SOCKET_def)
  have "fst (fst (sys_accept demo_api f a l w)) = w" "snd (fst (sys_accept demo_api f a l w)) = 16" for f a l w
    by (simp_all add: demo_api_def)
  with sock_program_transparent [of demo_api demo demo 9 demo_state demo_service "(''demo.c'', 2)" 8
      "\<lparr>fd = 9, m_psi = Some 77\<rparr>" 4096 28, OF demo_fair(1) demo_erases demo_fair(2)] run
  show ?thesis by (simp add: Let_def demo_state_def)
qed

text \<open>
  Every locker that the performance schema grants to a program of socket calls is closed exactly
  once, after at least one native call, and no other locker is granted in between.
\<close>

theorem sock_program_disciplined:
  "\<exists>es. trace (snd (run_state (run_program (run_sock_call sv api) n p []) s)) = trace s @ es
      \<and> disciplined sock_marks es"
  by (rule sock.program_disciplined)

section \<open>What the lockers are told\<close>

definition reported :: "sock_event list \<Rightarrow> size_t list" where
  "reported es = [n. EndWait l n \<leftarrow> es]"

fun transfers :: "'s sock_call \<Rightarrow> bool" where
  "transfers (CSend src sk buf n flags) = True"
| "transfers (CRecv src sk buf n flags) = True"
| "transfers (CSendto src sk buf n flags addr len) = True"
| "transfers (CRecvfrom src sk buf n flags addr lenp) = True"
| "transfers c = False"

fun transferred :: "'s sock_call \<Rightarrow> 's sock_result \<Rightarrow> size_t" where
  "transferred c (RInt r) = (if transfers c \<and> 0 \<le> r then word_of_int r else 0)"
| "transferred c r = 0"

text \<open>
  A call tells its locker, if it was granted one, the number of bytes that it transferred: what a
  successful \<open>send\<close>, \<open>recv\<close>, \<open>sendto\<close> or \<open>recvfrom\<close> returned, and 0 for a failed transfer and for
  every other call.
\<close>

theorem sock_bytes_reported:
  "\<exists>es. trace (snd (run_state (run_sock_call sv api c) s)) = trace s @ es
      \<and> reported es =
          map (\<lambda>l. transferred c (fst (run_state (run_sock_call sv api c) s)))
            [l. StartWait p op n src (Some l) \<leftarrow> es]"
  by (cases c)
    (auto simp: sock_defs prog_simps reported_def when_some_def Let_def split: option.split)

section \<open>Well-formed sockets\<close>

definition sock_wf :: "MYSQL_SOCKET \<Rightarrow> bool" where
  "sock_wf k \<longleftrightarrow> m_psi k = None \<or> fd k \<noteq> INVALID_SOCKET"

fun result_wf :: "MYSQL_SOCKET sock_result \<Rightarrow> bool" where
  "result_wf (RSock k) = sock_wf k"
| "result_wf (RAccept k l) = sock_wf k"
| "result_wf r = True"

lemma sock_call_wf: "result_wf (fst (run_state (run_sock_call sv api c) s))"
  by (cases c) (simp_all add: sock_defs prog_simps sock_wf_def Let_def)

text \<open>C35.
  Every socket that a program ever gets from \<open>socket\<close> or \<open>accept\<close> is well formed: one that carries an
  instrument has a descriptor, so a failed call never registers an instrument.
\<close>
theorem sock_results_wf:
  "list_all result_wf (fst (run_state (run_program (run_sock_call sv api) n p []) s))"
  by (rule run_program_all) (simp_all add: sock_call_wf)

section \<open>The operation codes\<close>

text \<open>
  The codes \<open>PSI_SOCKET_SENDTO\<close> and \<open>PSI_SOCKET_RECVFROM\<close> that \<^verbatim>\<open>psi.h\<close> reserves for \<open>sendto\<close> and
  \<open>recvfrom\<close> are never used: those calls announce themselves as \<open>PSI_SOCKET_SEND\<close> and
  \<open>PSI_SOCKET_RECV\<close>.
\<close>

definition announced :: "sock_event list \<Rightarrow> PSI_socket_operation list" where
  "announced es = [op. StartWait p op n src l \<leftarrow> es]"

theorem sendto_announced_as_send:
  "\<exists>es. trace (snd (run_state (run_sock_call sv api c) s)) = trace s @ es
      \<and> PSI_SOCKET_SENDTO \<notin> set (announced es) \<and> PSI_SOCKET_RECVFROM \<notin> set (announced es)"
  by (cases c)
    (auto simp: sock_defs prog_simps announced_def when_some_def Let_def split: option.split)

end
