(* ===== verification/PSI_File.thy ===== *)
theory PSI_File
  imports PSI
begin

text \<open>
  \<^verbatim>\<open>mysql/psi/mysql_file.h\<close>: the wrappers of the file calls.  Character pointers, buffers, \<open>FILE *\<close>
  and \<open>va_list\<close> values are passed on as pointers; \<open>MYSQL_FILE\<close> blocks live in \<open>mem\<close>, which maps the
  address of a live block to its contents, because \<open>fopen\<close> allocates them and \<open>fclose\<close> frees them.
  A wrapper of a stream call gets the contents of the block; \<open>run_file_call\<close> reads them through the
  pointer and faults if there is no such block.
\<close>

unbundle bit_operations_syntax

section \<open>Instrumented files, the native calls, the service\<close>

type_synonym my_off_t = "64 word"

record MYSQL_FILE =
  m_file :: ptr
  m_file_psi :: "psi option"

datatype ident = ThisFile ptr | ThisLocker

datatype target =
    OfStream "psi option"
  | OfDescriptor int
  | OfName nat ptr ident

datatype file_event =
    GetLocker target PSI_file_operation "locker option"
  | FStart locker size_t loc
  | FEnd locker size_t
  | FStartOpen locker loc
  | FEndOpen locker ptr "psi option"
  | FEndOpenBind locker int
  | FStartClose locker loc
  | FEndClose locker int
  | FCreated nat ptr int
  | FRegister ptr ptr int
  | FSys string

record file_service =
  get_locker :: "target \<Rightarrow> PSI_file_operation \<Rightarrow> file_event list \<Rightarrow> locker option"
  end_file_open_wait :: "locker \<Rightarrow> ptr \<Rightarrow> file_event list \<Rightarrow> psi option"

record 'o stdio_api =
  lib_fgets :: "ptr \<Rightarrow> int \<Rightarrow> ptr \<Rightarrow> 'o \<Rightarrow> ptr \<times> 'o"
  lib_fgetc :: "ptr \<Rightarrow> 'o \<Rightarrow> int \<times> 'o"
  lib_fputs :: "ptr \<Rightarrow> ptr \<Rightarrow> 'o \<Rightarrow> int \<times> 'o"
  lib_fputc :: "int \<Rightarrow> ptr \<Rightarrow> 'o \<Rightarrow> int \<times> 'o"
  lib_vfprintf :: "ptr \<Rightarrow> ptr \<Rightarrow> ptr \<Rightarrow> 'o \<Rightarrow> int \<times> 'o"
  lib_fflush :: "ptr \<Rightarrow> 'o \<Rightarrow> int \<times> 'o"
  lib_feof :: "ptr \<Rightarrow> 'o \<Rightarrow> int \<times> 'o"
  lib_strlen :: "ptr \<Rightarrow> 'o \<Rightarrow> size_t"

record 'o streams_api =
  lib_my_malloc :: "size_t \<Rightarrow> int \<Rightarrow> 'o \<Rightarrow> ptr \<times> 'o"
  lib_my_free :: "ptr \<Rightarrow> 'o \<Rightarrow> unit \<times> 'o"
  lib_my_fopen :: "ptr \<Rightarrow> int \<Rightarrow> int \<Rightarrow> 'o \<Rightarrow> ptr \<times> 'o"
  lib_my_fclose :: "ptr \<Rightarrow> int \<Rightarrow> 'o \<Rightarrow> int \<times> 'o"
  lib_my_fread :: "ptr \<Rightarrow> ptr \<Rightarrow> size_t \<Rightarrow> int \<Rightarrow> 'o \<Rightarrow> size_t \<times> 'o"
  lib_my_fwrite :: "ptr \<Rightarrow> ptr \<Rightarrow> size_t \<Rightarrow> int \<Rightarrow> 'o \<Rightarrow> size_t \<times> 'o"
  lib_my_fseek :: "ptr \<Rightarrow> my_off_t \<Rightarrow> int \<Rightarrow> int \<Rightarrow> 'o \<Rightarrow> my_off_t \<times> 'o"
  lib_my_ftell :: "ptr \<Rightarrow> int \<Rightarrow> 'o \<Rightarrow> my_off_t \<times> 'o"

record 'o descriptors_api =
  lib_my_fstat :: "int \<Rightarrow> ptr \<Rightarrow> int \<Rightarrow> 'o \<Rightarrow> int \<times> 'o"
  lib_my_chsize :: "int \<Rightarrow> my_off_t \<Rightarrow> int \<Rightarrow> int \<Rightarrow> 'o \<Rightarrow> int \<times> 'o"
  lib_my_close :: "int \<Rightarrow> int \<Rightarrow> 'o \<Rightarrow> int \<times> 'o"
  lib_my_read :: "int \<Rightarrow> ptr \<Rightarrow> size_t \<Rightarrow> int \<Rightarrow> 'o \<Rightarrow> size_t \<times> 'o"
  lib_my_write :: "int \<Rightarrow> ptr \<Rightarrow> size_t \<Rightarrow> int \<Rightarrow> 'o \<Rightarrow> size_t \<times> 'o"
  lib_my_pread :: "int \<Rightarrow> ptr \<Rightarrow> size_t \<Rightarrow> my_off_t \<Rightarrow> int \<Rightarrow> 'o \<Rightarrow> size_t \<times> 'o"
  lib_my_pwrite :: "int \<Rightarrow> ptr \<Rightarrow> size_t \<Rightarrow> my_off_t \<Rightarrow> int \<Rightarrow> 'o \<Rightarrow> size_t \<times> 'o"
  lib_my_seek :: "int \<Rightarrow> my_off_t \<Rightarrow> int \<Rightarrow> int \<Rightarrow> 'o \<Rightarrow> my_off_t \<times> 'o"
  lib_my_tell :: "int \<Rightarrow> int \<Rightarrow> 'o \<Rightarrow> my_off_t \<times> 'o"
  lib_my_sync :: "int \<Rightarrow> int \<Rightarrow> 'o \<Rightarrow> int \<times> 'o"

record 'o names_api =
  lib_my_stat :: "ptr \<Rightarrow> ptr \<Rightarrow> int \<Rightarrow> 'o \<Rightarrow> ptr \<times> 'o"
  lib_my_create :: "ptr \<Rightarrow> int \<Rightarrow> int \<Rightarrow> int \<Rightarrow> 'o \<Rightarrow> int \<times> 'o"
  lib_create_temp_file :: "ptr \<Rightarrow> ptr \<Rightarrow> ptr \<Rightarrow> int \<Rightarrow> int \<Rightarrow> 'o \<Rightarrow> int \<times> 'o"
  lib_my_open :: "ptr \<Rightarrow> int \<Rightarrow> int \<Rightarrow> 'o \<Rightarrow> int \<times> 'o"
  lib_my_delete :: "ptr \<Rightarrow> int \<Rightarrow> 'o \<Rightarrow> int \<times> 'o"
  lib_my_rename :: "ptr \<Rightarrow> ptr \<Rightarrow> int \<Rightarrow> 'o \<Rightarrow> int \<times> 'o"
  lib_my_create_with_symlink :: "ptr \<Rightarrow> ptr \<Rightarrow> int \<Rightarrow> int \<Rightarrow> int \<Rightarrow> 'o \<Rightarrow> int \<times> 'o"
  lib_my_delete_with_symlink :: "ptr \<Rightarrow> int \<Rightarrow> 'o \<Rightarrow> int \<times> 'o"
  lib_my_rename_with_symlink :: "ptr \<Rightarrow> ptr \<Rightarrow> int \<Rightarrow> 'o \<Rightarrow> int \<times> 'o"

record 'o file_api =
  stdio :: "'o stdio_api"
  streams :: "'o streams_api"
  descriptors :: "'o descriptors_api"
  names :: "'o names_api"

type_synonym heap = "ptr \<Rightarrow> MYSQL_FILE option"
type_synonym ('o, 'a) file_prog = "('o, heap, file_event, 'a) psi_prog"

definition MY_FNABP :: int where "MY_FNABP = 2"
definition MY_NABP :: int where "MY_NABP = 4"
definition MY_WME :: int where "MY_WME = 16"
definition MY_FILE_ERROR :: size_t where "MY_FILE_ERROR = - 1"
definition sizeof_MYSQL_FILE :: size_t where "sizeof_MYSQL_FILE = 8"

definition get_thread_file_stream_locker ::
  "file_service \<Rightarrow> psi option \<Rightarrow> PSI_file_operation \<Rightarrow> ('o, locker option) file_prog"
where
  "get_thread_file_stream_locker sv p op =
     ask (get_locker sv (OfStream p) op) (GetLocker (OfStream p) op)"

definition get_thread_file_descriptor_locker ::
  "file_service \<Rightarrow> int \<Rightarrow> PSI_file_operation \<Rightarrow> ('o, locker option) file_prog"
where
  "get_thread_file_descriptor_locker sv f op =
     ask (get_locker sv (OfDescriptor f) op) (GetLocker (OfDescriptor f) op)"

definition get_thread_file_name_locker ::
  "file_service \<Rightarrow> nat \<Rightarrow> PSI_file_operation \<Rightarrow> ptr \<Rightarrow> ident \<Rightarrow> ('o, locker option) file_prog"
where
  "get_thread_file_name_locker sv key op name i =
     ask (get_locker sv (OfName key name i) op) (GetLocker (OfName key name i) op)"

section \<open>The wrappers\<close>

definition inline_mysql_file_register :: "ptr \<Rightarrow> ptr \<Rightarrow> int \<Rightarrow> ('o, unit) file_prog" where
  "inline_mysql_file_register category info cnt = tell (FRegister category info cnt)"

definition inline_mysql_file_fgets ::
  "file_service \<Rightarrow> 'o file_api \<Rightarrow> loc \<Rightarrow> ptr \<Rightarrow> int \<Rightarrow> MYSQL_FILE
     \<Rightarrow> ('o, ptr) file_prog"
where
  "inline_mysql_file_fgets sv api src str sz file = do {
     locker \<leftarrow> get_thread_file_stream_locker sv (m_file_psi file) PSI_FILE_READ;
     case locker of
       Some l \<Rightarrow> do {
         tell (FStart l (word_of_int sz) src);
         result \<leftarrow> native (FSys ''fgets'') (lib_fgets (stdio api) str sz (m_file file));
         n \<leftarrow> (if result \<noteq> NULL then peek (lib_strlen (stdio api) result) else State_Monad.return 0);
         tell (FEnd l n);
         State_Monad.return result }
     | None \<Rightarrow> native (FSys ''fgets'') (lib_fgets (stdio api) str sz (m_file file)) }"

definition inline_mysql_file_fgetc ::
  "file_service \<Rightarrow> 'o file_api \<Rightarrow> loc \<Rightarrow> MYSQL_FILE
     \<Rightarrow> ('o, int) file_prog"
where
  "inline_mysql_file_fgetc sv api src file = do {
     locker \<leftarrow> get_thread_file_stream_locker sv (m_file_psi file) PSI_FILE_READ;
     case locker of
       Some l \<Rightarrow> do {
         tell (FStart l 1 src);
         result \<leftarrow> native (FSys ''fgetc'') (lib_fgetc (stdio api) (m_file file));
         tell (FEnd l 1);
         State_Monad.return result }
     | None \<Rightarrow> native (FSys ''fgetc'') (lib_fgetc (stdio api) (m_file file)) }"

definition inline_mysql_file_fputs ::
  "file_service \<Rightarrow> 'o file_api \<Rightarrow> loc \<Rightarrow> ptr \<Rightarrow> MYSQL_FILE
     \<Rightarrow> ('o, int) file_prog"
where
  "inline_mysql_file_fputs sv api src str file = do {
     locker \<leftarrow> get_thread_file_stream_locker sv (m_file_psi file) PSI_FILE_WRITE;
     case locker of
       Some l \<Rightarrow> do {
         bytes \<leftarrow> (if str \<noteq> NULL then peek (lib_strlen (stdio api) str) else State_Monad.return 0);
         tell (FStart l bytes src);
         result \<leftarrow> native (FSys ''fputs'') (lib_fputs (stdio api) str (m_file file));
         tell (FEnd l bytes);
         State_Monad.return result }
     | None \<Rightarrow> native (FSys ''fputs'') (lib_fputs (stdio api) str (m_file file)) }"

definition inline_mysql_file_fputc ::
  "file_service \<Rightarrow> 'o file_api \<Rightarrow> loc \<Rightarrow> int \<Rightarrow> MYSQL_FILE
     \<Rightarrow> ('o, int) file_prog"
where
  "inline_mysql_file_fputc sv api src c file = do {
     locker \<leftarrow> get_thread_file_stream_locker sv (m_file_psi file) PSI_FILE_WRITE;
     case locker of
       Some l \<Rightarrow> do {
         tell (FStart l 1 src);
         result \<leftarrow> native (FSys ''fputc'') (lib_fputc (stdio api) c (m_file file));
         tell (FEnd l 1);
         State_Monad.return result }
     | None \<Rightarrow> native (FSys ''fputc'') (lib_fputc (stdio api) c (m_file file)) }"

text \<open>
  \<open>fprintf\<close> gives its variable arguments to \<open>vfprintf\<close>; the source location is that of the header
  itself.
\<close>

definition header_loc :: loc where "header_loc = (''mysql_file.h'', 650)"

definition inline_mysql_file_fprintf ::
  "file_service \<Rightarrow> 'o file_api \<Rightarrow> MYSQL_FILE \<Rightarrow> ptr \<Rightarrow> ptr
     \<Rightarrow> ('o, int) file_prog"
where
  "inline_mysql_file_fprintf sv api file format args = do {
     locker \<leftarrow> get_thread_file_stream_locker sv (m_file_psi file) PSI_FILE_WRITE;
     case locker of
       Some l \<Rightarrow> do {
         tell (FStart l 0 header_loc);
         result \<leftarrow> native (FSys ''vfprintf'') (lib_vfprintf (stdio api) (m_file file) format args);
         tell (FEnd l (word_of_int result));
         State_Monad.return result }
     | None \<Rightarrow> native (FSys ''vfprintf'') (lib_vfprintf (stdio api) (m_file file) format args) }"

definition inline_mysql_file_vfprintf ::
  "file_service \<Rightarrow> 'o file_api \<Rightarrow> loc \<Rightarrow> MYSQL_FILE \<Rightarrow> ptr \<Rightarrow> ptr
     \<Rightarrow> ('o, int) file_prog"
where
  "inline_mysql_file_vfprintf sv api src file format args = do {
     locker \<leftarrow> get_thread_file_stream_locker sv (m_file_psi file) PSI_FILE_WRITE;
     case locker of
       Some l \<Rightarrow> do {
         tell (FStart l 0 src);
         result \<leftarrow> native (FSys ''vfprintf'') (lib_vfprintf (stdio api) (m_file file) format args);
         tell (FEnd l (word_of_int result));
         State_Monad.return result }
     | None \<Rightarrow> native (FSys ''vfprintf'') (lib_vfprintf (stdio api) (m_file file) format args) }"

definition inline_mysql_file_fflush ::
  "file_service \<Rightarrow> 'o file_api \<Rightarrow> loc \<Rightarrow> MYSQL_FILE
     \<Rightarrow> ('o, int) file_prog"
where
  "inline_mysql_file_fflush sv api src file = do {
     locker \<leftarrow> get_thread_file_stream_locker sv (m_file_psi file) PSI_FILE_FLUSH;
     case locker of
       Some l \<Rightarrow> do {
         tell (FStart l 0 src);
         result \<leftarrow> native (FSys ''fflush'') (lib_fflush (stdio api) (m_file file));
         tell (FEnd l 0);
         State_Monad.return result }
     | None \<Rightarrow> native (FSys ''fflush'') (lib_fflush (stdio api) (m_file file)) }"

definition inline_mysql_file_feof :: "'o file_api \<Rightarrow> MYSQL_FILE \<Rightarrow> ('o, int) file_prog" where
  "inline_mysql_file_feof api file = native (FSys ''feof'') (lib_feof (stdio api) (m_file file))"

definition inline_mysql_file_fstat ::
  "file_service \<Rightarrow> 'o file_api \<Rightarrow> loc \<Rightarrow> int \<Rightarrow> ptr \<Rightarrow> int
     \<Rightarrow> ('o, int) file_prog"
where
  "inline_mysql_file_fstat sv api src file stat_area flags = do {
     locker \<leftarrow> get_thread_file_descriptor_locker sv file PSI_FILE_FSTAT;
     case locker of
       Some l \<Rightarrow> do {
         tell (FStart l 0 src);
         result \<leftarrow> native (FSys ''my_fstat'') (lib_my_fstat (descriptors api) file stat_area flags);
         tell (FEnd l 0);
         State_Monad.return result }
     | None \<Rightarrow> native (FSys ''my_fstat'') (lib_my_fstat (descriptors api) file stat_area flags) }"

definition inline_mysql_file_stat ::
  "file_service \<Rightarrow> 'o file_api \<Rightarrow> nat \<Rightarrow> loc \<Rightarrow> ptr \<Rightarrow> ptr \<Rightarrow> int
     \<Rightarrow> ('o, ptr) file_prog"
where
  "inline_mysql_file_stat sv api key src path stat_area flags = do {
     locker \<leftarrow> get_thread_file_name_locker sv key PSI_FILE_STAT path ThisLocker;
     case locker of
       Some l \<Rightarrow> do {
         tell (FStartOpen l src);
         result \<leftarrow> native (FSys ''my_stat'') (lib_my_stat (names api) path stat_area flags);
         ask (end_file_open_wait sv l result) (FEndOpen l result);
         State_Monad.return result }
     | None \<Rightarrow> native (FSys ''my_stat'') (lib_my_stat (names api) path stat_area flags) }"

definition inline_mysql_file_chsize ::
  "file_service \<Rightarrow> 'o file_api \<Rightarrow> loc \<Rightarrow> int \<Rightarrow> my_off_t \<Rightarrow> int \<Rightarrow> int
     \<Rightarrow> ('o, int) file_prog"
where
  "inline_mysql_file_chsize sv api src file newlength filler flags = do {
     locker \<leftarrow> get_thread_file_descriptor_locker sv file PSI_FILE_CHSIZE;
     case locker of
       Some l \<Rightarrow> do {
         tell (FStart l (ucast newlength) src);
         result \<leftarrow> native (FSys ''my_chsize'') (lib_my_chsize (descriptors api) file newlength filler flags);
         tell (FEnd l (ucast newlength));
         State_Monad.return result }
     | None \<Rightarrow> native (FSys ''my_chsize'') (lib_my_chsize (descriptors api) file newlength filler flags) }"

definition free_file :: "'o file_api \<Rightarrow> ptr \<Rightarrow> ('o, unit) file_prog" where
  "free_file api that = do {
     native (FSys ''my_free'') (lib_my_free (streams api) that);
     set_mem (\<lambda>h. h(that := None)) }"

definition inline_mysql_file_fopen ::
  "file_service \<Rightarrow> 'o file_api \<Rightarrow> nat \<Rightarrow> loc \<Rightarrow> ptr \<Rightarrow> int \<Rightarrow> int \<Rightarrow> ('o, ptr) file_prog"
where
  "inline_mysql_file_fopen sv api key src filename flags myFlags = do {
     that \<leftarrow> native (FSys ''my_malloc'') (lib_my_malloc (streams api) sizeof_MYSQL_FILE MY_WME);
     if that \<noteq> NULL then do {
       locker \<leftarrow> get_thread_file_name_locker sv key PSI_FILE_STREAM_OPEN filename (ThisFile that);
       case locker of
         Some l \<Rightarrow> do {
           tell (FStartOpen l src);
           m \<leftarrow> native (FSys ''my_fopen'') (lib_my_fopen (streams api) filename flags myFlags);
           p \<leftarrow> ask (end_file_open_wait sv l m) (FEndOpen l m);
           set_mem (\<lambda>h. h(that \<mapsto> \<lparr>m_file = m, m_file_psi = p\<rparr>));
           if m = NULL then do { free_file api that; State_Monad.return NULL }
           else State_Monad.return that }
       | None \<Rightarrow> do {
           m \<leftarrow> native (FSys ''my_fopen'') (lib_my_fopen (streams api) filename flags myFlags);
           set_mem (\<lambda>h. h(that \<mapsto> \<lparr>m_file = m, m_file_psi = None\<rparr>));
           if m = NULL then do { free_file api that; State_Monad.return NULL }
           else State_Monad.return that } }
     else State_Monad.return that }"

text \<open>The argument is the pointer with the block it points to; \<open>None\<close> is the null pointer.\<close>

definition inline_mysql_file_fclose ::
  "file_service \<Rightarrow> 'o file_api \<Rightarrow> loc \<Rightarrow> (ptr \<times> MYSQL_FILE) option \<Rightarrow> int \<Rightarrow> ('o, int) file_prog"
where
  "inline_mysql_file_fclose sv api src file flags =
     (case file of
        Some (that, f) \<Rightarrow> do {
          locker \<leftarrow> get_thread_file_stream_locker sv (m_file_psi f) PSI_FILE_STREAM_CLOSE;
          case locker of
            Some l \<Rightarrow> do {
              tell (FStartClose l src);
              result \<leftarrow> native (FSys ''my_fclose'') (lib_my_fclose (streams api) (m_file f) flags);
              tell (FEndClose l result);
              free_file api that;
              State_Monad.return result }
          | None \<Rightarrow> do {
              result \<leftarrow> native (FSys ''my_fclose'') (lib_my_fclose (streams api) (m_file f) flags);
              free_file api that;
              State_Monad.return result } }
      | None \<Rightarrow> State_Monad.return 0)"

definition inline_mysql_file_fread ::
  "file_service \<Rightarrow> 'o file_api \<Rightarrow> loc \<Rightarrow> MYSQL_FILE \<Rightarrow> ptr \<Rightarrow> size_t \<Rightarrow> int
     \<Rightarrow> ('o, size_t) file_prog"
where
  "inline_mysql_file_fread sv api src file buffer count flags = do {
     locker \<leftarrow> get_thread_file_stream_locker sv (m_file_psi file) PSI_FILE_READ;
     case locker of
       Some l \<Rightarrow> do {
         tell (FStart l count src);
         result \<leftarrow> native (FSys ''my_fread'') (lib_my_fread (streams api) (m_file file) buffer count flags);
         let bytes_read = (if flags AND (MY_NABP OR MY_FNABP) \<noteq> 0
           then (if result = 0 then count else 0)
           else (if result \<noteq> MY_FILE_ERROR then result else 0));
         tell (FEnd l bytes_read);
         State_Monad.return result }
     | None \<Rightarrow> native (FSys ''my_fread'') (lib_my_fread (streams api) (m_file file) buffer count flags) }"

definition inline_mysql_file_fwrite ::
  "file_service \<Rightarrow> 'o file_api \<Rightarrow> loc \<Rightarrow> MYSQL_FILE \<Rightarrow> ptr \<Rightarrow> size_t \<Rightarrow> int
     \<Rightarrow> ('o, size_t) file_prog"
where
  "inline_mysql_file_fwrite sv api src file buffer count flags = do {
     locker \<leftarrow> get_thread_file_stream_locker sv (m_file_psi file) PSI_FILE_WRITE;
     case locker of
       Some l \<Rightarrow> do {
         tell (FStart l count src);
         result \<leftarrow> native (FSys ''my_fwrite'') (lib_my_fwrite (streams api) (m_file file) buffer count flags);
         let bytes_written = (if flags AND (MY_NABP OR MY_FNABP) \<noteq> 0
           then (if result = 0 then count else 0)
           else (if result \<noteq> MY_FILE_ERROR then result else 0));
         tell (FEnd l bytes_written);
         State_Monad.return result }
     | None \<Rightarrow> native (FSys ''my_fwrite'') (lib_my_fwrite (streams api) (m_file file) buffer count flags) }"

definition inline_mysql_file_fseek ::
  "file_service \<Rightarrow> 'o file_api \<Rightarrow> loc \<Rightarrow> MYSQL_FILE \<Rightarrow> my_off_t \<Rightarrow> int \<Rightarrow> int
     \<Rightarrow> ('o, my_off_t) file_prog"
where
  "inline_mysql_file_fseek sv api src file pos whence flags = do {
     locker \<leftarrow> get_thread_file_stream_locker sv (m_file_psi file) PSI_FILE_SEEK;
     case locker of
       Some l \<Rightarrow> do {
         tell (FStart l 0 src);
         result \<leftarrow> native (FSys ''my_fseek'') (lib_my_fseek (streams api) (m_file file) pos whence flags);
         tell (FEnd l 0);
         State_Monad.return result }
     | None \<Rightarrow> native (FSys ''my_fseek'') (lib_my_fseek (streams api) (m_file file) pos whence flags) }"

definition inline_mysql_file_ftell ::
  "file_service \<Rightarrow> 'o file_api \<Rightarrow> loc \<Rightarrow> MYSQL_FILE \<Rightarrow> int
     \<Rightarrow> ('o, my_off_t) file_prog"
where
  "inline_mysql_file_ftell sv api src file flags = do {
     locker \<leftarrow> get_thread_file_stream_locker sv (m_file_psi file) PSI_FILE_TELL;
     case locker of
       Some l \<Rightarrow> do {
         tell (FStart l 0 src);
         result \<leftarrow> native (FSys ''my_ftell'') (lib_my_ftell (streams api) (m_file file) flags);
         tell (FEnd l 0);
         State_Monad.return result }
     | None \<Rightarrow> native (FSys ''my_ftell'') (lib_my_ftell (streams api) (m_file file) flags) }"

definition inline_mysql_file_create ::
  "file_service \<Rightarrow> 'o file_api \<Rightarrow> nat \<Rightarrow> loc \<Rightarrow> ptr \<Rightarrow> int \<Rightarrow> int \<Rightarrow> int
     \<Rightarrow> ('o, int) file_prog"
where
  "inline_mysql_file_create sv api key src filename create_flags access_flags myFlags = do {
     locker \<leftarrow> get_thread_file_name_locker sv key PSI_FILE_CREATE filename ThisLocker;
     case locker of
       Some l \<Rightarrow> do {
         tell (FStartOpen l src);
         result \<leftarrow> native (FSys ''my_create'') (lib_my_create (names api) filename create_flags access_flags myFlags);
         tell (FEndOpenBind l result);
         State_Monad.return result }
     | None \<Rightarrow> native (FSys ''my_create'') (lib_my_create (names api) filename create_flags access_flags myFlags) }"

definition inline_mysql_file_create_temp ::
  "'o file_api \<Rightarrow> nat \<Rightarrow> ptr \<Rightarrow> ptr \<Rightarrow> ptr \<Rightarrow> int \<Rightarrow> int \<Rightarrow> ('o, int) file_prog"
where
  "inline_mysql_file_create_temp api key to dir pfx mode myFlags = do {
     file \<leftarrow> native (FSys ''create_temp_file'') (lib_create_temp_file (names api) to dir pfx mode myFlags);
     tell (FCreated key to file);
     State_Monad.return file }"

definition inline_mysql_file_open ::
  "file_service \<Rightarrow> 'o file_api \<Rightarrow> nat \<Rightarrow> loc \<Rightarrow> ptr \<Rightarrow> int \<Rightarrow> int
     \<Rightarrow> ('o, int) file_prog"
where
  "inline_mysql_file_open sv api key src filename flags myFlags = do {
     locker \<leftarrow> get_thread_file_name_locker sv key PSI_FILE_OPEN filename ThisLocker;
     case locker of
       Some l \<Rightarrow> do {
         tell (FStartOpen l src);
         result \<leftarrow> native (FSys ''my_open'') (lib_my_open (names api) filename flags myFlags);
         tell (FEndOpenBind l result);
         State_Monad.return result }
     | None \<Rightarrow> native (FSys ''my_open'') (lib_my_open (names api) filename flags myFlags) }"

definition inline_mysql_file_close ::
  "file_service \<Rightarrow> 'o file_api \<Rightarrow> loc \<Rightarrow> int \<Rightarrow> int
     \<Rightarrow> ('o, int) file_prog"
where
  "inline_mysql_file_close sv api src file flags = do {
     locker \<leftarrow> get_thread_file_descriptor_locker sv file PSI_FILE_CLOSE;
     case locker of
       Some l \<Rightarrow> do {
         tell (FStartClose l src);
         result \<leftarrow> native (FSys ''my_close'') (lib_my_close (descriptors api) file flags);
         tell (FEndClose l result);
         State_Monad.return result }
     | None \<Rightarrow> native (FSys ''my_close'') (lib_my_close (descriptors api) file flags) }"

definition inline_mysql_file_read ::
  "file_service \<Rightarrow> 'o file_api \<Rightarrow> loc \<Rightarrow> int \<Rightarrow> ptr \<Rightarrow> size_t \<Rightarrow> int
     \<Rightarrow> ('o, size_t) file_prog"
where
  "inline_mysql_file_read sv api src file buffer count flags = do {
     locker \<leftarrow> get_thread_file_descriptor_locker sv file PSI_FILE_READ;
     case locker of
       Some l \<Rightarrow> do {
         tell (FStart l count src);
         result \<leftarrow> native (FSys ''my_read'') (lib_my_read (descriptors api) file buffer count flags);
         let bytes_read = (if flags AND (MY_NABP OR MY_FNABP) \<noteq> 0
           then (if result = 0 then count else 0)
           else (if result \<noteq> MY_FILE_ERROR then result else 0));
         tell (FEnd l bytes_read);
         State_Monad.return result }
     | None \<Rightarrow> native (FSys ''my_read'') (lib_my_read (descriptors api) file buffer count flags) }"

definition inline_mysql_file_write ::
  "file_service \<Rightarrow> 'o file_api \<Rightarrow> loc \<Rightarrow> int \<Rightarrow> ptr \<Rightarrow> size_t \<Rightarrow> int
     \<Rightarrow> ('o, size_t) file_prog"
where
  "inline_mysql_file_write sv api src file buffer count flags = do {
     locker \<leftarrow> get_thread_file_descriptor_locker sv file PSI_FILE_WRITE;
     case locker of
       Some l \<Rightarrow> do {
         tell (FStart l count src);
         result \<leftarrow> native (FSys ''my_write'') (lib_my_write (descriptors api) file buffer count flags);
         let bytes_written = (if flags AND (MY_NABP OR MY_FNABP) \<noteq> 0
           then (if result = 0 then count else 0)
           else (if result \<noteq> MY_FILE_ERROR then result else 0));
         tell (FEnd l bytes_written);
         State_Monad.return result }
     | None \<Rightarrow> native (FSys ''my_write'') (lib_my_write (descriptors api) file buffer count flags) }"

definition inline_mysql_file_pread ::
  "file_service \<Rightarrow> 'o file_api \<Rightarrow> loc \<Rightarrow> int \<Rightarrow> ptr \<Rightarrow> size_t \<Rightarrow> my_off_t \<Rightarrow> int
     \<Rightarrow> ('o, size_t) file_prog"
where
  "inline_mysql_file_pread sv api src file buffer count offset flags = do {
     locker \<leftarrow> get_thread_file_descriptor_locker sv file PSI_FILE_READ;
     case locker of
       Some l \<Rightarrow> do {
         tell (FStart l count src);
         result \<leftarrow> native (FSys ''my_pread'') (lib_my_pread (descriptors api) file buffer count offset flags);
         let bytes_read = (if flags AND (MY_NABP OR MY_FNABP) \<noteq> 0
           then (if result = 0 then count else 0)
           else (if result \<noteq> MY_FILE_ERROR then result else 0));
         tell (FEnd l bytes_read);
         State_Monad.return result }
     | None \<Rightarrow> native (FSys ''my_pread'') (lib_my_pread (descriptors api) file buffer count offset flags) }"

definition inline_mysql_file_pwrite ::
  "file_service \<Rightarrow> 'o file_api \<Rightarrow> loc \<Rightarrow> int \<Rightarrow> ptr \<Rightarrow> size_t \<Rightarrow> my_off_t \<Rightarrow> int
     \<Rightarrow> ('o, size_t) file_prog"
where
  "inline_mysql_file_pwrite sv api src file buffer count offset flags = do {
     locker \<leftarrow> get_thread_file_descriptor_locker sv file PSI_FILE_WRITE;
     case locker of
       Some l \<Rightarrow> do {
         tell (FStart l count src);
         result \<leftarrow> native (FSys ''my_pwrite'') (lib_my_pwrite (descriptors api) file buffer count offset flags);
         let bytes_written = (if flags AND (MY_NABP OR MY_FNABP) \<noteq> 0
           then (if result = 0 then count else 0)
           else (if result \<noteq> MY_FILE_ERROR then result else 0));
         tell (FEnd l bytes_written);
         State_Monad.return result }
     | None \<Rightarrow> native (FSys ''my_pwrite'') (lib_my_pwrite (descriptors api) file buffer count offset flags) }"

definition inline_mysql_file_seek ::
  "file_service \<Rightarrow> 'o file_api \<Rightarrow> loc \<Rightarrow> int \<Rightarrow> my_off_t \<Rightarrow> int \<Rightarrow> int
     \<Rightarrow> ('o, my_off_t) file_prog"
where
  "inline_mysql_file_seek sv api src file pos whence flags = do {
     locker \<leftarrow> get_thread_file_descriptor_locker sv file PSI_FILE_SEEK;
     case locker of
       Some l \<Rightarrow> do {
         tell (FStart l 0 src);
         result \<leftarrow> native (FSys ''my_seek'') (lib_my_seek (descriptors api) file pos whence flags);
         tell (FEnd l 0);
         State_Monad.return result }
     | None \<Rightarrow> native (FSys ''my_seek'') (lib_my_seek (descriptors api) file pos whence flags) }"

definition inline_mysql_file_tell ::
  "file_service \<Rightarrow> 'o file_api \<Rightarrow> loc \<Rightarrow> int \<Rightarrow> int
     \<Rightarrow> ('o, my_off_t) file_prog"
where
  "inline_mysql_file_tell sv api src file flags = do {
     locker \<leftarrow> get_thread_file_descriptor_locker sv file PSI_FILE_TELL;
     case locker of
       Some l \<Rightarrow> do {
         tell (FStart l 0 src);
         result \<leftarrow> native (FSys ''my_tell'') (lib_my_tell (descriptors api) file flags);
         tell (FEnd l 0);
         State_Monad.return result }
     | None \<Rightarrow> native (FSys ''my_tell'') (lib_my_tell (descriptors api) file flags) }"

definition inline_mysql_file_delete ::
  "file_service \<Rightarrow> 'o file_api \<Rightarrow> nat \<Rightarrow> loc \<Rightarrow> ptr \<Rightarrow> int
     \<Rightarrow> ('o, int) file_prog"
where
  "inline_mysql_file_delete sv api key src name flags = do {
     locker \<leftarrow> get_thread_file_name_locker sv key PSI_FILE_DELETE name ThisLocker;
     case locker of
       Some l \<Rightarrow> do {
         tell (FStartClose l src);
         result \<leftarrow> native (FSys ''my_delete'') (lib_my_delete (names api) name flags);
         tell (FEndClose l result);
         State_Monad.return result }
     | None \<Rightarrow> native (FSys ''my_delete'') (lib_my_delete (names api) name flags) }"

definition inline_mysql_file_rename ::
  "file_service \<Rightarrow> 'o file_api \<Rightarrow> nat \<Rightarrow> loc \<Rightarrow> ptr \<Rightarrow> ptr \<Rightarrow> int
     \<Rightarrow> ('o, int) file_prog"
where
  "inline_mysql_file_rename sv api key src old to flags = do {
     locker \<leftarrow> get_thread_file_name_locker sv key PSI_FILE_RENAME to ThisLocker;
     case locker of
       Some l \<Rightarrow> do {
         tell (FStart l 0 src);
         result \<leftarrow> native (FSys ''my_rename'') (lib_my_rename (names api) old to flags);
         tell (FEnd l 0);
         State_Monad.return result }
     | None \<Rightarrow> native (FSys ''my_rename'') (lib_my_rename (names api) old to flags) }"

definition inline_mysql_file_create_with_symlink ::
  "file_service \<Rightarrow> 'o file_api \<Rightarrow> nat \<Rightarrow> loc \<Rightarrow> ptr \<Rightarrow> ptr \<Rightarrow> int \<Rightarrow> int \<Rightarrow> int
     \<Rightarrow> ('o, int) file_prog"
where
  "inline_mysql_file_create_with_symlink sv api key src linkname filename create_flags access_flags flags = do {
     locker \<leftarrow> get_thread_file_name_locker sv key PSI_FILE_CREATE filename ThisLocker;
     case locker of
       Some l \<Rightarrow> do {
         tell (FStartOpen l src);
         result \<leftarrow> native (FSys ''my_create_with_symlink'') (lib_my_create_with_symlink (names api) linkname filename create_flags access_flags flags);
         tell (FEndOpenBind l result);
         State_Monad.return result }
     | None \<Rightarrow> native (FSys ''my_create_with_symlink'') (lib_my_create_with_symlink (names api) linkname filename create_flags access_flags flags) }"

definition inline_mysql_file_delete_with_symlink ::
  "file_service \<Rightarrow> 'o file_api \<Rightarrow> nat \<Rightarrow> loc \<Rightarrow> ptr \<Rightarrow> int
     \<Rightarrow> ('o, int) file_prog"
where
  "inline_mysql_file_delete_with_symlink sv api key src name flags = do {
     locker \<leftarrow> get_thread_file_name_locker sv key PSI_FILE_DELETE name ThisLocker;
     case locker of
       Some l \<Rightarrow> do {
         tell (FStartClose l src);
         result \<leftarrow> native (FSys ''my_delete_with_symlink'') (lib_my_delete_with_symlink (names api) name flags);
         tell (FEndClose l result);
         State_Monad.return result }
     | None \<Rightarrow> native (FSys ''my_delete_with_symlink'') (lib_my_delete_with_symlink (names api) name flags) }"

definition inline_mysql_file_rename_with_symlink ::
  "file_service \<Rightarrow> 'o file_api \<Rightarrow> nat \<Rightarrow> loc \<Rightarrow> ptr \<Rightarrow> ptr \<Rightarrow> int
     \<Rightarrow> ('o, int) file_prog"
where
  "inline_mysql_file_rename_with_symlink sv api key src old to flags = do {
     locker \<leftarrow> get_thread_file_name_locker sv key PSI_FILE_RENAME to ThisLocker;
     case locker of
       Some l \<Rightarrow> do {
         tell (FStart l 0 src);
         result \<leftarrow> native (FSys ''my_rename_with_symlink'') (lib_my_rename_with_symlink (names api) old to flags);
         tell (FEnd l 0);
         State_Monad.return result }
     | None \<Rightarrow> native (FSys ''my_rename_with_symlink'') (lib_my_rename_with_symlink (names api) old to flags) }"

definition inline_mysql_file_sync ::
  "file_service \<Rightarrow> 'o file_api \<Rightarrow> loc \<Rightarrow> int \<Rightarrow> int
     \<Rightarrow> ('o, int) file_prog"
where
  "inline_mysql_file_sync sv api src file flags = do {
     locker \<leftarrow> get_thread_file_descriptor_locker sv file PSI_FILE_SYNC;
     case locker of
       Some l \<Rightarrow> do {
         tell (FStart l 0 src);
         result \<leftarrow> native (FSys ''my_sync'') (lib_my_sync (descriptors api) file flags);
         tell (FEnd l 0);
         State_Monad.return result }
     | None \<Rightarrow> native (FSys ''my_sync'') (lib_my_sync (descriptors api) file flags) }"

section \<open>Programs of file calls\<close>

text \<open>
  The calls on a stream, which is a pointer to a \<open>MYSQL_FILE\<close> block, on a descriptor, and on a name
  with the key of its instrument.
\<close>

datatype stream_op =
    FFgets loc ptr int
  | FFgetc loc
  | FFputs loc ptr
  | FFputc loc int
  | FFprintf ptr ptr
  | FVfprintf loc ptr ptr
  | FFflush loc
  | FFread loc ptr size_t int
  | FFwrite loc ptr size_t int
  | FFseek loc my_off_t int int
  | FFtell loc int
  | FFeof

datatype desc_op =
    FFstat loc ptr int
  | FChsize loc my_off_t int int
  | FClose loc int
  | FRead loc ptr size_t int
  | FWrite loc ptr size_t int
  | FPread loc ptr size_t my_off_t int
  | FPwrite loc ptr size_t my_off_t int
  | FSeek loc my_off_t int int
  | FTell loc int
  | FSync loc int

datatype name_op =
    FStat loc ptr ptr int
  | FCreate loc ptr int int int
  | FOpen loc ptr int int
  | FDelete loc ptr int
  | FRename loc ptr ptr int
  | FCreateWithSymlink loc ptr ptr int int int
  | FDeleteWithSymlink loc ptr int
  | FRenameWithSymlink loc ptr ptr int
  | FCreateTemp ptr ptr ptr int int
  | FFopen loc ptr int int

datatype file_call =
    OnStream ptr stream_op
  | OnFile int desc_op
  | OnName nat name_op
  | Fclose loc ptr int
  | FRegisterFile ptr ptr int

datatype file_result = FInt int | FSize size_t | FOff my_off_t | FPtr ptr | FFault

definition with_file :: "ptr \<Rightarrow> (MYSQL_FILE \<Rightarrow> ('o, file_result) file_prog) \<Rightarrow> ('o, file_result) file_prog" where
  "with_file that k = do {
     h \<leftarrow> get_mem;
     case h that of None \<Rightarrow> State_Monad.return FFault | Some f \<Rightarrow> k f }"

primrec run_stream_op ::
  "file_service \<Rightarrow> 'o file_api \<Rightarrow> MYSQL_FILE \<Rightarrow> stream_op \<Rightarrow> ('o, file_result) file_prog"
where
  "run_stream_op sv api file (FFgets src str sz) =
     do { r \<leftarrow> inline_mysql_file_fgets sv api src str sz file; State_Monad.return (FPtr r) }"
| "run_stream_op sv api file (FFgetc src) =
     do { r \<leftarrow> inline_mysql_file_fgetc sv api src file; State_Monad.return (FInt r) }"
| "run_stream_op sv api file (FFputs src str) =
     do { r \<leftarrow> inline_mysql_file_fputs sv api src str file; State_Monad.return (FInt r) }"
| "run_stream_op sv api file (FFputc src c) =
     do { r \<leftarrow> inline_mysql_file_fputc sv api src c file; State_Monad.return (FInt r) }"
| "run_stream_op sv api file (FFprintf format args) =
     do { r \<leftarrow> inline_mysql_file_fprintf sv api file format args; State_Monad.return (FInt r) }"
| "run_stream_op sv api file (FVfprintf src format args) =
     do { r \<leftarrow> inline_mysql_file_vfprintf sv api src file format args; State_Monad.return (FInt r) }"
| "run_stream_op sv api file (FFflush src) =
     do { r \<leftarrow> inline_mysql_file_fflush sv api src file; State_Monad.return (FInt r) }"
| "run_stream_op sv api file (FFread src buffer count flags) =
     do { r \<leftarrow> inline_mysql_file_fread sv api src file buffer count flags; State_Monad.return (FSize r) }"
| "run_stream_op sv api file (FFwrite src buffer count flags) =
     do { r \<leftarrow> inline_mysql_file_fwrite sv api src file buffer count flags; State_Monad.return (FSize r) }"
| "run_stream_op sv api file (FFseek src pos whence flags) =
     do { r \<leftarrow> inline_mysql_file_fseek sv api src file pos whence flags; State_Monad.return (FOff r) }"
| "run_stream_op sv api file (FFtell src flags) =
     do { r \<leftarrow> inline_mysql_file_ftell sv api src file flags; State_Monad.return (FOff r) }"
| "run_stream_op sv api file FFeof =
     do { r \<leftarrow> inline_mysql_file_feof api file; State_Monad.return (FInt r) }"

primrec run_desc_op ::
  "file_service \<Rightarrow> 'o file_api \<Rightarrow> int \<Rightarrow> desc_op \<Rightarrow> ('o, file_result) file_prog"
where
  "run_desc_op sv api file (FFstat src stat_area flags) =
     do { r \<leftarrow> inline_mysql_file_fstat sv api src file stat_area flags; State_Monad.return (FInt r) }"
| "run_desc_op sv api file (FChsize src newlength filler flags) =
     do { r \<leftarrow> inline_mysql_file_chsize sv api src file newlength filler flags; State_Monad.return (FInt r) }"
| "run_desc_op sv api file (FClose src flags) =
     do { r \<leftarrow> inline_mysql_file_close sv api src file flags; State_Monad.return (FInt r) }"
| "run_desc_op sv api file (FRead src buffer count flags) =
     do { r \<leftarrow> inline_mysql_file_read sv api src file buffer count flags; State_Monad.return (FSize r) }"
| "run_desc_op sv api file (FWrite src buffer count flags) =
     do { r \<leftarrow> inline_mysql_file_write sv api src file buffer count flags; State_Monad.return (FSize r) }"
| "run_desc_op sv api file (FPread src buffer count offset flags) =
     do { r \<leftarrow> inline_mysql_file_pread sv api src file buffer count offset flags; State_Monad.return (FSize r) }"
| "run_desc_op sv api file (FPwrite src buffer count offset flags) =
     do { r \<leftarrow> inline_mysql_file_pwrite sv api src file buffer count offset flags; State_Monad.return (FSize r) }"
| "run_desc_op sv api file (FSeek src pos whence flags) =
     do { r \<leftarrow> inline_mysql_file_seek sv api src file pos whence flags; State_Monad.return (FOff r) }"
| "run_desc_op sv api file (FTell src flags) =
     do { r \<leftarrow> inline_mysql_file_tell sv api src file flags; State_Monad.return (FOff r) }"
| "run_desc_op sv api file (FSync src flags) =
     do { r \<leftarrow> inline_mysql_file_sync sv api src file flags; State_Monad.return (FInt r) }"

primrec run_name_op ::
  "file_service \<Rightarrow> 'o file_api \<Rightarrow> nat \<Rightarrow> name_op \<Rightarrow> ('o, file_result) file_prog"
where
  "run_name_op sv api key (FStat src path stat_area flags) =
     do { r \<leftarrow> inline_mysql_file_stat sv api key src path stat_area flags; State_Monad.return (FPtr r) }"
| "run_name_op sv api key (FCreate src filename create_flags access_flags myFlags) =
     do { r \<leftarrow> inline_mysql_file_create sv api key src filename create_flags access_flags myFlags; State_Monad.return (FInt r) }"
| "run_name_op sv api key (FOpen src filename flags myFlags) =
     do { r \<leftarrow> inline_mysql_file_open sv api key src filename flags myFlags; State_Monad.return (FInt r) }"
| "run_name_op sv api key (FDelete src name flags) =
     do { r \<leftarrow> inline_mysql_file_delete sv api key src name flags; State_Monad.return (FInt r) }"
| "run_name_op sv api key (FRename src old to flags) =
     do { r \<leftarrow> inline_mysql_file_rename sv api key src old to flags; State_Monad.return (FInt r) }"
| "run_name_op sv api key (FCreateWithSymlink src linkname filename create_flags access_flags flags) =
     do { r \<leftarrow> inline_mysql_file_create_with_symlink sv api key src linkname filename create_flags access_flags flags; State_Monad.return (FInt r) }"
| "run_name_op sv api key (FDeleteWithSymlink src name flags) =
     do { r \<leftarrow> inline_mysql_file_delete_with_symlink sv api key src name flags; State_Monad.return (FInt r) }"
| "run_name_op sv api key (FRenameWithSymlink src old to flags) =
     do { r \<leftarrow> inline_mysql_file_rename_with_symlink sv api key src old to flags; State_Monad.return (FInt r) }"
| "run_name_op sv api key (FCreateTemp to dir pfx mode myFlags) =
     do { r \<leftarrow> inline_mysql_file_create_temp api key to dir pfx mode myFlags; State_Monad.return (FInt r) }"
| "run_name_op sv api key (FFopen src filename flags myFlags) =
     do { r \<leftarrow> inline_mysql_file_fopen sv api key src filename flags myFlags; State_Monad.return (FPtr r) }"

primrec run_file_call ::
  "file_service \<Rightarrow> 'o file_api \<Rightarrow> file_call \<Rightarrow> ('o, file_result) file_prog"
where
  "run_file_call sv api (OnStream that op) = with_file that (\<lambda>file. run_stream_op sv api file op)"
| "run_file_call sv api (OnFile file op) = run_desc_op sv api file op"
| "run_file_call sv api (OnName key op) = run_name_op sv api key op"
| "run_file_call sv api (Fclose src that flags) =
     (if that = NULL
      then do { r \<leftarrow> inline_mysql_file_fclose sv api src None flags; State_Monad.return (FInt r) }
      else with_file that (\<lambda>file. do {
        r \<leftarrow> inline_mysql_file_fclose sv api src (Some (that, file)) flags;
        State_Monad.return (FInt r) }))"
| "run_file_call sv api (FRegisterFile category info cnt) =
     do { inline_mysql_file_register category info cnt; State_Monad.return (FInt 0) }"

text \<open>
  The same calls when the interface of the performance schema is not compiled in: a block holds the
  native stream only.
\<close>

type_synonym 'o plain_world = "'o \<times> (ptr \<Rightarrow> ptr option)"

definition plain_native :: "('o \<Rightarrow> 'r \<times> 'o) \<Rightarrow> ('r \<Rightarrow> file_result) \<Rightarrow> ('o plain_world, file_result) state" where
  "plain_native f g = State (\<lambda>(w, h). (g (fst (f w)), snd (f w), h))"

definition with_handle ::
  "ptr \<Rightarrow> (ptr \<Rightarrow> ('o plain_world, file_result) state) \<Rightarrow> ('o plain_world, file_result) state"
where
  "with_handle that k = State (\<lambda>(w, h).
     case h that of None \<Rightarrow> (FFault, w, h) | Some m \<Rightarrow> run_state (k m) (w, h))"

definition plain_fopen ::
  "'o file_api \<Rightarrow> ptr \<Rightarrow> int \<Rightarrow> int \<Rightarrow> ('o plain_world, file_result) state"
where
  "plain_fopen api filename flags myFlags = State (\<lambda>(w, h).
     let (that, w1) = lib_my_malloc (streams api) sizeof_MYSQL_FILE MY_WME w in
     if that = NULL then (FPtr NULL, w1, h)
     else let (m, w2) = lib_my_fopen (streams api) filename flags myFlags w1 in
       if m = NULL then (FPtr NULL, snd (lib_my_free (streams api) that w2), h(that := None))
       else (FPtr that, w2, h(that \<mapsto> m)))"

definition plain_fclose :: "'o file_api \<Rightarrow> ptr \<Rightarrow> int \<Rightarrow> ('o plain_world, file_result) state" where
  "plain_fclose api that flags = State (\<lambda>(w, h).
     if that = NULL then (FInt 0, w, h)
     else case h that of
       None \<Rightarrow> (FFault, w, h)
     | Some m \<Rightarrow> let (r, w1) = lib_my_fclose (streams api) m flags w in
         (FInt r, snd (lib_my_free (streams api) that w1), h(that := None)))"

primrec plain_stream_op ::
  "'o file_api \<Rightarrow> ptr \<Rightarrow> stream_op \<Rightarrow> ('o plain_world, file_result) state"
where
  "plain_stream_op api m (FFgets src str sz) =
     plain_native (lib_fgets (stdio api) str sz m) FPtr"
| "plain_stream_op api m (FFgetc src) =
     plain_native (lib_fgetc (stdio api) m) FInt"
| "plain_stream_op api m (FFputs src str) =
     plain_native (lib_fputs (stdio api) str m) FInt"
| "plain_stream_op api m (FFputc src c) =
     plain_native (lib_fputc (stdio api) c m) FInt"
| "plain_stream_op api m (FFprintf format args) =
     plain_native (lib_vfprintf (stdio api) m format args) FInt"
| "plain_stream_op api m (FVfprintf src format args) =
     plain_native (lib_vfprintf (stdio api) m format args) FInt"
| "plain_stream_op api m (FFflush src) =
     plain_native (lib_fflush (stdio api) m) FInt"
| "plain_stream_op api m (FFread src buffer count flags) =
     plain_native (lib_my_fread (streams api) m buffer count flags) FSize"
| "plain_stream_op api m (FFwrite src buffer count flags) =
     plain_native (lib_my_fwrite (streams api) m buffer count flags) FSize"
| "plain_stream_op api m (FFseek src pos whence flags) =
     plain_native (lib_my_fseek (streams api) m pos whence flags) FOff"
| "plain_stream_op api m (FFtell src flags) =
     plain_native (lib_my_ftell (streams api) m flags) FOff"
| "plain_stream_op api m FFeof =
     plain_native (lib_feof (stdio api) m) FInt"

primrec plain_desc_op ::
  "'o file_api \<Rightarrow> int \<Rightarrow> desc_op \<Rightarrow> ('o plain_world, file_result) state"
where
  "plain_desc_op api file (FFstat src stat_area flags) =
     plain_native (lib_my_fstat (descriptors api) file stat_area flags) FInt"
| "plain_desc_op api file (FChsize src newlength filler flags) =
     plain_native (lib_my_chsize (descriptors api) file newlength filler flags) FInt"
| "plain_desc_op api file (FClose src flags) =
     plain_native (lib_my_close (descriptors api) file flags) FInt"
| "plain_desc_op api file (FRead src buffer count flags) =
     plain_native (lib_my_read (descriptors api) file buffer count flags) FSize"
| "plain_desc_op api file (FWrite src buffer count flags) =
     plain_native (lib_my_write (descriptors api) file buffer count flags) FSize"
| "plain_desc_op api file (FPread src buffer count offset flags) =
     plain_native (lib_my_pread (descriptors api) file buffer count offset flags) FSize"
| "plain_desc_op api file (FPwrite src buffer count offset flags) =
     plain_native (lib_my_pwrite (descriptors api) file buffer count offset flags) FSize"
| "plain_desc_op api file (FSeek src pos whence flags) =
     plain_native (lib_my_seek (descriptors api) file pos whence flags) FOff"
| "plain_desc_op api file (FTell src flags) =
     plain_native (lib_my_tell (descriptors api) file flags) FOff"
| "plain_desc_op api file (FSync src flags) =
     plain_native (lib_my_sync (descriptors api) file flags) FInt"

primrec plain_name_op ::
  "'o file_api \<Rightarrow> name_op \<Rightarrow> ('o plain_world, file_result) state"
where
  "plain_name_op api (FStat src path stat_area flags) =
     plain_native (lib_my_stat (names api) path stat_area flags) FPtr"
| "plain_name_op api (FCreate src filename create_flags access_flags myFlags) =
     plain_native (lib_my_create (names api) filename create_flags access_flags myFlags) FInt"
| "plain_name_op api (FOpen src filename flags myFlags) =
     plain_native (lib_my_open (names api) filename flags myFlags) FInt"
| "plain_name_op api (FDelete src name flags) =
     plain_native (lib_my_delete (names api) name flags) FInt"
| "plain_name_op api (FRename src old to flags) =
     plain_native (lib_my_rename (names api) old to flags) FInt"
| "plain_name_op api (FCreateWithSymlink src linkname filename create_flags access_flags flags) =
     plain_native (lib_my_create_with_symlink (names api) linkname filename create_flags access_flags flags) FInt"
| "plain_name_op api (FDeleteWithSymlink src name flags) =
     plain_native (lib_my_delete_with_symlink (names api) name flags) FInt"
| "plain_name_op api (FRenameWithSymlink src old to flags) =
     plain_native (lib_my_rename_with_symlink (names api) old to flags) FInt"
| "plain_name_op api (FCreateTemp to dir pfx mode myFlags) =
     plain_native (lib_create_temp_file (names api) to dir pfx mode myFlags) FInt"
| "plain_name_op api (FFopen src filename flags myFlags) =
     plain_fopen api filename flags myFlags"

primrec plain_file_call :: "'o file_api \<Rightarrow> file_call \<Rightarrow> ('o plain_world, file_result) state" where
  "plain_file_call api (OnStream that op) = with_handle that (\<lambda>m. plain_stream_op api m op)"
| "plain_file_call api (OnFile file op) = plain_desc_op api file op"
| "plain_file_call api (OnName key op) = plain_name_op api op"
| "plain_file_call api (Fclose src that flags) = plain_fclose api that flags"
| "plain_file_call api (FRegisterFile category info cnt) = State_Monad.return (FInt 0)"

definition file_abs :: "('o, heap, file_event) psi_state \<Rightarrow> 'o plain_world" where
  "file_abs s = (os s, map_option m_file \<circ> mem s)"

fun file_marks :: "file_event \<Rightarrow> mark list" where
  "file_marks (GetLocker t op a) = (case a of None \<Rightarrow> [Note] | Some l \<Rightarrow> [Grants l])"
| "file_marks (FStart l n src) = [Opens l]"
| "file_marks (FEnd l n) = [Closes l]"
| "file_marks (FStartOpen l src) = [Opens l]"
| "file_marks (FEndOpen l r p) = [Closes l]"
| "file_marks (FEndOpenBind l f) = [Closes l]"
| "file_marks (FStartClose l src) = [Opens l]"
| "file_marks (FEndClose l r) = [Closes l]"
| "file_marks (FSys c) = [Native]"
| "file_marks e = [Note]"

lemmas file_locker_defs =
  get_thread_file_stream_locker_def get_thread_file_descriptor_locker_def
  get_thread_file_name_locker_def

lemmas file_defs = file_locker_defs free_file_def
  inline_mysql_file_fgets_def inline_mysql_file_fgetc_def inline_mysql_file_fputs_def
  inline_mysql_file_fputc_def inline_mysql_file_fprintf_def inline_mysql_file_vfprintf_def
  inline_mysql_file_fflush_def inline_mysql_file_fstat_def inline_mysql_file_stat_def
  inline_mysql_file_chsize_def inline_mysql_file_fread_def inline_mysql_file_fwrite_def
  inline_mysql_file_fseek_def inline_mysql_file_ftell_def inline_mysql_file_create_def
  inline_mysql_file_open_def inline_mysql_file_close_def inline_mysql_file_read_def
  inline_mysql_file_write_def inline_mysql_file_pread_def inline_mysql_file_pwrite_def
  inline_mysql_file_seek_def inline_mysql_file_tell_def inline_mysql_file_delete_def
  inline_mysql_file_rename_def inline_mysql_file_create_with_symlink_def
  inline_mysql_file_delete_with_symlink_def inline_mysql_file_rename_with_symlink_def
  inline_mysql_file_sync_def inline_mysql_file_feof_def inline_mysql_file_create_temp_def
  inline_mysql_file_register_def inline_mysql_file_fopen_def inline_mysql_file_fclose_def

lemma run_plain_native [prog_simps]: "run_state (plain_native f g) (w, h) = (g (fst (f w)), snd (f w), h)"
  by (simp add: plain_native_def)

lemma run_with_handle [prog_simps]:
  "run_state (with_handle that k) (w, h) =
     (case h that of None \<Rightarrow> (FFault, w, h) | Some m \<Rightarrow> run_state (k m) (w, h))"
  by (simp add: with_handle_def)

lemma run_with_file [prog_simps]:
  "run_state (with_file that k) s =
     (case mem s that of None \<Rightarrow> (FFault, s) | Some f \<Rightarrow> run_state (k f) s)"
  by (simp add: with_file_def prog_simps split: option.split)

lemma stream_op_transparent:
  "run_state (plain_stream_op api (m_file f) op) (file_abs s) =
     (fst (run_state (run_stream_op sv api f op) s), file_abs (snd (run_state (run_stream_op sv api f op) s)))"
  by (cases op) (auto simp: file_defs prog_simps file_abs_def Let_def split: option.split)

lemma desc_op_transparent:
  "run_state (plain_desc_op api file op) (file_abs s) =
     (fst (run_state (run_desc_op sv api file op) s), file_abs (snd (run_state (run_desc_op sv api file op) s)))"
  by (cases op) (auto simp: file_defs prog_simps file_abs_def Let_def split: option.split)

lemma name_op_transparent:
  "run_state (plain_name_op api op) (file_abs s) =
     (fst (run_state (run_name_op sv api key op) s), file_abs (snd (run_state (run_name_op sv api key op) s)))"
  by (cases op)
    (auto simp: file_defs prog_simps file_abs_def plain_fopen_def Let_def fun_eq_iff split: option.split)

lemma file_call_transparent:
  "run_state (plain_file_call api c) (file_abs s) =
     (fst (run_state (run_file_call sv api c) s), file_abs (snd (run_state (run_file_call sv api c) s)))"
proof (cases c)
  case (OnStream that op)
  then show ?thesis
    using stream_op_transparent [of api _ op s sv]
    by (auto simp: prog_simps file_abs_def split: option.split)
next
  case (Fclose src that flags)
  then show ?thesis
    by (auto simp: file_defs prog_simps file_abs_def plain_fclose_def Let_def fun_eq_iff
        split: option.split)
next
  case (FRegisterFile category info cnt)
  then show ?thesis by (simp add: file_defs prog_simps file_abs_def)
qed (simp_all add: desc_op_transparent name_op_transparent)

lemma op_disciplined:
  "adds (disciplined file_marks) (run_stream_op sv api f op1)"
  "adds (disciplined file_marks) (run_desc_op sv api file op2)"
  "adds (disciplined file_marks) (run_name_op sv api key op3)"
  unfolding adds_def disciplined_def
  by (cases op1, auto simp: file_defs prog_simps Let_def split: option.split)
    (cases op2, auto simp: file_defs prog_simps Let_def split: option.split,
     cases op3, auto simp: file_defs prog_simps Let_def split: option.split)

lemma adds_with_file:
  "(\<And>f. adds P (k f)) \<Longrightarrow> P [] \<Longrightarrow> adds P (with_file that k)"
  by (auto simp: adds_def prog_simps split: option.split)

lemma file_call_disciplined: "adds (disciplined file_marks) (run_file_call sv api c)"
proof (cases c)
  case (OnStream that op)
  then show ?thesis
    by (simp add: adds_with_file op_disciplined)
next
  case (Fclose src that flags)
  then show ?thesis
    by (auto simp: adds_def disciplined_def file_defs prog_simps split: option.split)
qed (auto simp: op_disciplined, auto simp: adds_def disciplined_def file_defs prog_simps)

interpretation file_calls:
  instrumented "run_file_call sv api" "plain_file_call api" file_abs "\<lambda>c. c" "\<lambda>r. r" file_marks "\<lambda>c. True"
  for sv api
  by unfold_locales (simp_all add: file_call_transparent file_call_disciplined)

text \<open>
  A program of file calls gets the same results, block addresses included, and leaves the operating
  system and the streams in the same state whether the interface of the performance schema is
  compiled in or not, whatever the performance schema answers.
\<close>
theorem file_program_transparent:
  "run_state (run_program (plain_file_call api) n p []) (file_abs s) =
     (fst (run_state (run_program (run_file_call sv api) n p []) s),
      file_abs (snd (run_state (run_program (run_file_call sv api) n p []) s)))"
  using file_calls.program_transparent [of p p api n "[]" s sv] by (simp add: option.map_ident)

text \<open>
  Every locker that the performance schema grants to a program of file calls is opened, used for at
  least one native call and closed, once and in this order.
\<close>
theorem file_program_disciplined:
  "\<exists>es. trace (snd (run_state (run_program (run_file_call sv api) n p []) s)) = trace s @ es
      \<and> disciplined file_marks es"
  by (rule file_calls.program_disciplined)

section \<open>The blocks of open streams\<close>

text \<open>A live block is not at the null address and holds an open stream.\<close>

definition heap_ok :: "('o, heap, file_event) psi_state \<Rightarrow> bool" where
  "heap_ok s \<longleftrightarrow> (\<forall>p f. mem s p = Some f \<longrightarrow> p \<noteq> NULL \<and> m_file f \<noteq> NULL)"

lemma op_keeps_mem:
  "mem (snd (run_state (run_stream_op sv api f op1) s)) = mem s"
  "mem (snd (run_state (run_desc_op sv api file op2) s)) = mem s"
  by (cases op1, simp_all add: file_defs prog_simps Let_def split: option.split)
    (cases op2, simp_all add: file_defs prog_simps Let_def split: option.split)

lemma fopen_heap_ok:
  "heap_ok s \<Longrightarrow> heap_ok (snd (run_state (inline_mysql_file_fopen sv api key src name flags mf) s))"
  by (auto simp: file_defs prog_simps heap_ok_def split: option.splits if_splits)

lemma name_op_heap_ok:
  "heap_ok s \<Longrightarrow> heap_ok (snd (run_state (run_name_op sv api key op) s))"
proof (cases op)
  case (FFopen src name flags mf)
  then show "heap_ok s \<Longrightarrow> ?thesis"
    by (simp add: prog_simps fopen_heap_ok)
qed (simp_all add: file_defs prog_simps heap_ok_def split: option.split)

lemma file_call_heap_ok:
  assumes "heap_ok s"
  shows "heap_ok (snd (run_state (run_file_call sv api c) s))"
proof (cases c)
  case (OnStream that op)
  then show ?thesis
    using assms by (simp add: prog_simps heap_ok_def op_keeps_mem split: option.split)
next
  case (OnFile fl op)
  then show ?thesis
    using assms by (simp add: prog_simps heap_ok_def op_keeps_mem)
next
  case (OnName key op)
  then show ?thesis
    using assms by (simp add: name_op_heap_ok)
next
  case (Fclose src that flags)
  then show ?thesis
    using assms by (auto simp: file_defs prog_simps heap_ok_def split: option.splits)
next
  case (FRegisterFile category info cnt)
  then show ?thesis
    using assms by (simp add: file_defs prog_simps heap_ok_def)
qed

text \<open>
  No program of file calls ever leaves a block behind whose stream failed to open: starting from no
  blocks, every live block holds an open stream.
\<close>

theorem file_blocks_open:
  "mem s = Map.empty \<Longrightarrow>
     heap_ok (snd (run_state (run_program (run_file_call sv api) n p []) s))"
  by (rule run_program_invariant [where I = heap_ok], rule file_call_heap_ok)
    (simp_all add: heap_ok_def)

lemma fopen_mem:
  assumes "fst (lib_my_malloc (streams api) sizeof_MYSQL_FILE MY_WME (os s)) \<notin> dom (mem s)"
    and "run_state (inline_mysql_file_fopen sv api key src name flags mf) s = (that, s1)"
  shows "if that = NULL then mem s1 = mem s
         else \<exists>f. mem s1 = (mem s)(that \<mapsto> f) \<and> m_file f \<noteq> NULL"
  using assms
  by (auto simp: file_defs prog_simps fun_upd_idem_iff dom_def split: option.splits if_splits)

lemma fclose_mem:
  assumes "mem s that = Some f" and "that \<noteq> NULL"
  shows "mem (snd (run_state (run_file_call sv api (Fclose src that flags)) s)) = (mem s)(that := None)"
  using assms by (simp add: file_defs prog_simps split: option.split)

text \<open>
  Opening a stream allocates one block, and closing it frees that block: afterwards exactly the
  blocks from before are live.  A stream that does not open leaves none behind.
\<close>
theorem fopen_fclose_roundtrip:
  assumes fresh: "fst (lib_my_malloc (streams api) sizeof_MYSQL_FILE MY_WME (os s)) \<notin> dom (mem s)"
    and opened: "run_state (inline_mysql_file_fopen sv api key src name flags mf) s = (that, s1)"
  shows "if that = NULL then mem s1 = mem s
         else that \<in> dom (mem s1) - dom (mem s) \<and>
              mem (snd (run_state (run_file_call sv api (Fclose src' that flags')) s1)) = mem s"
proof (cases "that = NULL")
  case True
  then show ?thesis
    using fopen_mem [OF fresh opened] by simp
next
  case False
  then obtain f where f: "mem s1 = (mem s)(that \<mapsto> f)"
    using fopen_mem [OF fresh opened] by auto
  moreover have "that \<notin> dom (mem s)"
    using fresh opened False by (auto simp: file_defs prog_simps split: option.splits if_splits)
  ultimately show ?thesis
    using False fclose_mem [of s1 that f] by (auto simp: fun_upd_idem_iff)
qed

text \<open>A small operating system: a counter that hands out addresses, and calls that succeed.\<close>

definition demo_file_api :: "nat file_api" where
  "demo_file_api = \<lparr>
     stdio = \<lparr>lib_fgets = (\<lambda>b n f w. (b, w)), lib_fgetc = (\<lambda>f w. (65, w)), lib_fputs = (\<lambda>b f w. (1, w)),
       lib_fputc = (\<lambda>c f w. (c, w)), lib_vfprintf = (\<lambda>f b a w. (- 1, w)), lib_fflush = (\<lambda>f w. (0, w)),
       lib_feof = (\<lambda>f w. (0, w)), lib_strlen = (\<lambda>b w. 5)\<rparr>,
     streams = \<lparr>lib_my_malloc = (\<lambda>n g w. (w, w + 8)), lib_my_free = (\<lambda>p w. ((), w)),
       lib_my_fopen = (\<lambda>n g m w. (w, w + 1)), lib_my_fclose = (\<lambda>f g w. (0, w)),
       lib_my_fread = (\<lambda>f b n g w. (n, w)), lib_my_fwrite = (\<lambda>f b n g w. (n, w)),
       lib_my_fseek = (\<lambda>f p h g w. (p, w)), lib_my_ftell = (\<lambda>f g w. (0, w))\<rparr>,
     descriptors = \<lparr>lib_my_fstat = (\<lambda>f a g w. (0, w)), lib_my_chsize = (\<lambda>f n c g w. (0, w)),
       lib_my_close = (\<lambda>f g w. (0, w)), lib_my_read = (\<lambda>f b n g w. (n, w)),
       lib_my_write = (\<lambda>f b n g w. (n, w)), lib_my_pread = (\<lambda>f b n p g w. (n, w)),
       lib_my_pwrite = (\<lambda>f b n p g w. (n, w)), lib_my_seek = (\<lambda>f p h g w. (p, w)),
       lib_my_tell = (\<lambda>f g w. (0, w)), lib_my_sync = (\<lambda>f g w. (0, w))\<rparr>,
     names = \<lparr>lib_my_stat = (\<lambda>p a g w. (a, w)), lib_my_create = (\<lambda>n c a g w. (3, w)),
       lib_create_temp_file = (\<lambda>t d p m g w. (4, w)), lib_my_open = (\<lambda>n g m w. (5, w)),
       lib_my_delete = (\<lambda>n g w. (0, w)), lib_my_rename = (\<lambda>a b g w. (0, w)),
       lib_my_create_with_symlink = (\<lambda>l n c a g w. (6, w)),
       lib_my_delete_with_symlink = (\<lambda>n g w. (0, w)), lib_my_rename_with_symlink = (\<lambda>a b g w. (0, w))\<rparr>\<rparr>"

definition demo_file_service :: file_service where
  "demo_file_service = \<lparr>get_locker = (\<lambda>t op h. Some (length h)), end_file_open_wait = (\<lambda>l r h. Some 9)\<rparr>"

definition demo_file_state :: "(nat, heap, file_event) psi_state" where
  "demo_file_state = \<lparr>os = 100, mem = Map.empty, trace = []\<rparr>"

fun demo_files :: "file_result list \<Rightarrow> file_call option" where
  "demo_files [] = Some (OnName 1 (FFopen (''demo.c'', 1) 4096 0 0))"
| "demo_files [FPtr f] = Some (OnStream f (FFprintf 8192 0))"
| "demo_files h = None"

theorem file_blocks_open_witness:
  "heap_ok (snd (run_state (run_program (run_file_call demo_file_service demo_file_api) 5 demo_files [])
      demo_file_state))
   \<and> fst (run_state (run_program (run_file_call demo_file_service demo_file_api) 5 demo_files [])
      demo_file_state) = [FPtr 100, FInt (- 1)]"
proof
  show "heap_ok (snd (run_state (run_program (run_file_call demo_file_service demo_file_api) 5 demo_files [])
      demo_file_state))"
    by (rule file_blocks_open) (simp add: demo_file_state_def)
  show "fst (run_state (run_program (run_file_call demo_file_service demo_file_api) 5 demo_files [])
      demo_file_state) = [FPtr 100, FInt (- 1)]"
    by (simp add: file_defs prog_simps demo_file_state_def demo_file_api_def demo_file_service_def
        NULL_def)
qed

lemma demo_fopen:
  "run_state (inline_mysql_file_fopen demo_file_service demo_file_api 1 (''demo.c'', 1) 4096 0 0) demo_file_state =
     (100, snd (run_state (inline_mysql_file_fopen demo_file_service demo_file_api 1 (''demo.c'', 1) 4096 0 0) demo_file_state))"
  by (simp add: file_defs prog_simps demo_file_api_def demo_file_service_def demo_file_state_def NULL_def)

theorem fopen_fclose_roundtrip_witness:
  "mem (snd (run_state (run_file_call demo_file_service demo_file_api (Fclose (''demo.c'', 2) 100 0))
     (snd (run_state (inline_mysql_file_fopen demo_file_service demo_file_api 1 (''demo.c'', 1) 4096 0 0)
       demo_file_state)))) = Map.empty"
  using fopen_fclose_roundtrip [OF _ demo_fopen, of "(''demo.c'', 2)" 0]
  by (simp add: demo_file_state_def NULL_def)

text \<open>
  A failed \<open>fprintf\<close> is reported to its locker as $2^{32} - 1$ written bytes: the wrapper converts the
  negative result to \<open>size_t\<close> without looking at its sign.
\<close>

theorem fprintf_failure_reported:
  assumes "get_locker sv (OfStream (m_file_psi file)) PSI_FILE_WRITE (trace s) = Some l"
    and "fst (lib_vfprintf (stdio api) (m_file file) format args (os s)) = - 1"
  shows "last (trace (snd (run_state (inline_mysql_file_fprintf sv api file format args) s))) =
           FEnd l (2 ^ 32 - 1)"
  using assms by (simp add: file_defs prog_simps)

end
