(* ===== verification/PSI_Thread.thy ===== *)
theory PSI_Thread
  imports PSI
begin

text \<open>
  \<^verbatim>\<open>mysql/psi/mysql_thread.h\<close>: the wrappers of mutexes, read-write locks, reader-preferring locks,
  condition variables and threads, without \<open>SAFE_MUTEX\<close>, as the repository configures them.  An object is its
  address; \<open>mem\<close> holds the \<open>m_psi\<close> hook of every object, the native part of an object belongs to the
  state of the native calls.
\<close>

section \<open>Hooks, the native calls, the service\<close>

datatype thread_event =
    InitMutex nat ptr "psi option"
  | DestroyMutex psi
  | StartMutexWait psi PSI_mutex_operation loc "locker option"
  | EndMutexWait locker int
  | UnlockMutex psi
  | InitRwlock nat ptr "psi option"
  | DestroyRwlock psi
  | StartRwlockRdwait psi PSI_rwlock_operation loc "locker option"
  | EndRwlockRdwait locker int
  | StartRwlockWrwait psi PSI_rwlock_operation loc "locker option"
  | EndRwlockWrwait locker int
  | UnlockRwlock psi
  | InitCond nat ptr "psi option"
  | DestroyCond psi
  | StartCondWait psi "psi option" PSI_cond_operation loc "locker option"
  | EndCondWait locker int
  | SignalCond psi
  | BroadcastCond psi
  | ThreadService thread_service_call
  | TSys string
and thread_service_call =
    RegisterMutex ptr ptr int
  | RegisterRwlock ptr ptr int
  | RegisterCond ptr ptr int
  | RegisterThread ptr ptr int
  | SpawnThread nat ptr ptr ptr ptr int
  | GetThread "psi option"
  | SetThreadId "psi option" nat
  | SetThreadTHD "psi option" ptr

type_synonym history = "thread_event list"

record thread_service =
  init_mutex :: "nat \<Rightarrow> ptr \<Rightarrow> history \<Rightarrow> psi option"
  start_mutex_wait :: "psi \<Rightarrow> PSI_mutex_operation \<Rightarrow> loc \<Rightarrow> history \<Rightarrow> locker option"
  init_rwlock :: "nat \<Rightarrow> ptr \<Rightarrow> history \<Rightarrow> psi option"
  start_rwlock_rdwait :: "psi \<Rightarrow> PSI_rwlock_operation \<Rightarrow> loc \<Rightarrow> history \<Rightarrow> locker option"
  start_rwlock_wrwait :: "psi \<Rightarrow> PSI_rwlock_operation \<Rightarrow> loc \<Rightarrow> history \<Rightarrow> locker option"
  init_cond :: "nat \<Rightarrow> ptr \<Rightarrow> history \<Rightarrow> psi option"
  start_cond_wait ::
    "psi \<Rightarrow> psi option \<Rightarrow> PSI_cond_operation \<Rightarrow> loc \<Rightarrow> history \<Rightarrow> locker option"
  spawn_thread :: "nat \<Rightarrow> ptr \<Rightarrow> ptr \<Rightarrow> ptr \<Rightarrow> ptr \<Rightarrow> history \<Rightarrow> int"
  get_thread :: "history \<Rightarrow> psi option"

record 'o mutexes_api =
  nat_my_mutex_init :: "ptr \<Rightarrow> ptr \<Rightarrow> 'o \<Rightarrow> int \<times> 'o"
  nat_my_mutex_destroy :: "ptr \<Rightarrow> 'o \<Rightarrow> int \<times> 'o"
  nat_my_mutex_lock :: "ptr \<Rightarrow> 'o \<Rightarrow> int \<times> 'o"
  nat_my_mutex_trylock :: "ptr \<Rightarrow> 'o \<Rightarrow> int \<times> 'o"
  nat_my_mutex_unlock :: "ptr \<Rightarrow> 'o \<Rightarrow> int \<times> 'o"

record 'o rwlocks_api =
  nat_native_rw_init :: "ptr \<Rightarrow> 'o \<Rightarrow> int \<times> 'o"
  nat_native_rw_destroy :: "ptr \<Rightarrow> 'o \<Rightarrow> int \<times> 'o"
  nat_native_rw_rdlock :: "ptr \<Rightarrow> 'o \<Rightarrow> int \<times> 'o"
  nat_native_rw_wrlock :: "ptr \<Rightarrow> 'o \<Rightarrow> int \<times> 'o"
  nat_native_rw_tryrdlock :: "ptr \<Rightarrow> 'o \<Rightarrow> int \<times> 'o"
  nat_native_rw_trywrlock :: "ptr \<Rightarrow> 'o \<Rightarrow> int \<times> 'o"
  nat_native_rw_unlock :: "ptr \<Rightarrow> 'o \<Rightarrow> int \<times> 'o"

record 'o prlocks_api =
  nat_rw_pr_init :: "ptr \<Rightarrow> 'o \<Rightarrow> int \<times> 'o"
  nat_rw_pr_destroy :: "ptr \<Rightarrow> 'o \<Rightarrow> int \<times> 'o"
  nat_rw_pr_rdlock :: "ptr \<Rightarrow> 'o \<Rightarrow> int \<times> 'o"
  nat_rw_pr_wrlock :: "ptr \<Rightarrow> 'o \<Rightarrow> int \<times> 'o"
  nat_rw_pr_unlock :: "ptr \<Rightarrow> 'o \<Rightarrow> int \<times> 'o"

record 'o conds_api =
  nat_native_cond_init :: "ptr \<Rightarrow> 'o \<Rightarrow> int \<times> 'o"
  nat_native_cond_destroy :: "ptr \<Rightarrow> 'o \<Rightarrow> int \<times> 'o"
  nat_my_cond_wait :: "ptr \<Rightarrow> ptr \<Rightarrow> 'o \<Rightarrow> int \<times> 'o"
  nat_my_cond_timedwait :: "ptr \<Rightarrow> ptr \<Rightarrow> ptr \<Rightarrow> 'o \<Rightarrow> int \<times> 'o"
  nat_native_cond_signal :: "ptr \<Rightarrow> 'o \<Rightarrow> int \<times> 'o"
  nat_native_cond_broadcast :: "ptr \<Rightarrow> 'o \<Rightarrow> int \<times> 'o"

record 'o thread_api =
  mutexes :: "'o mutexes_api"
  rwlocks :: "'o rwlocks_api"
  prlocks :: "'o prlocks_api"
  conds :: "'o conds_api"

type_synonym hooks = "ptr \<Rightarrow> psi option"
type_synonym ('o, 'a) thread_prog = "('o, hooks, thread_event, 'a) psi_prog"

text \<open>\<open>that->m_psi\<close>, read and written.\<close>

definition m_psi_of :: "ptr \<Rightarrow> ('o, psi option) thread_prog" where
  "m_psi_of that = do { h \<leftarrow> get_mem; State_Monad.return (h that) }"

definition set_m_psi :: "ptr \<Rightarrow> psi option \<Rightarrow> ('o, unit) thread_prog" where
  "set_m_psi that p = set_mem (\<lambda>h. h(that := p))"

section \<open>The wrappers\<close>

definition inline_mysql_mutex_register :: "ptr \<Rightarrow> ptr \<Rightarrow> int \<Rightarrow> ('o, unit) thread_prog" where
  "inline_mysql_mutex_register category info cnt =
     tell (ThreadService (RegisterMutex category info cnt))"

definition inline_mysql_mutex_init ::
  "thread_service \<Rightarrow> 'o thread_api \<Rightarrow> nat \<Rightarrow> ptr \<Rightarrow> ptr \<Rightarrow> ('o, int) thread_prog"
where
  "inline_mysql_mutex_init sv api key that attr = do {
     p \<leftarrow> ask (init_mutex sv key that) (InitMutex key that);
     set_m_psi that p;
     native (TSys ''my_mutex_init'') (nat_my_mutex_init (mutexes api) that attr) }"

definition inline_mysql_mutex_destroy :: "'o thread_api \<Rightarrow> ptr \<Rightarrow> ('o, int) thread_prog" where
  "inline_mysql_mutex_destroy api that = do {
     p \<leftarrow> m_psi_of that;
     when_some p (\<lambda>q. do { tell (DestroyMutex q); set_m_psi that None });
     native (TSys ''my_mutex_destroy'') (nat_my_mutex_destroy (mutexes api) that) }"

definition inline_mysql_mutex_lock ::
  "thread_service \<Rightarrow> 'o thread_api \<Rightarrow> loc \<Rightarrow> ptr \<Rightarrow> ('o, int) thread_prog"
where
  "inline_mysql_mutex_lock sv api src that = do {
     hook \<leftarrow> m_psi_of that;
     case hook of
       Some p \<Rightarrow> do {
         locker \<leftarrow> ask (start_mutex_wait sv p PSI_MUTEX_LOCK src) (StartMutexWait p PSI_MUTEX_LOCK src);
         result \<leftarrow> native (TSys ''my_mutex_lock'') (nat_my_mutex_lock (mutexes api) that);
         when_some locker (\<lambda>l. tell (EndMutexWait l result));
         State_Monad.return result }
     | None \<Rightarrow> native (TSys ''my_mutex_lock'') (nat_my_mutex_lock (mutexes api) that) }"

definition inline_mysql_mutex_trylock ::
  "thread_service \<Rightarrow> 'o thread_api \<Rightarrow> loc \<Rightarrow> ptr \<Rightarrow> ('o, int) thread_prog"
where
  "inline_mysql_mutex_trylock sv api src that = do {
     hook \<leftarrow> m_psi_of that;
     case hook of
       Some p \<Rightarrow> do {
         locker \<leftarrow> ask (start_mutex_wait sv p PSI_MUTEX_TRYLOCK src) (StartMutexWait p PSI_MUTEX_TRYLOCK src);
         result \<leftarrow> native (TSys ''my_mutex_trylock'') (nat_my_mutex_trylock (mutexes api) that);
         when_some locker (\<lambda>l. tell (EndMutexWait l result));
         State_Monad.return result }
     | None \<Rightarrow> native (TSys ''my_mutex_trylock'') (nat_my_mutex_trylock (mutexes api) that) }"

definition inline_mysql_mutex_unlock :: "'o thread_api \<Rightarrow> ptr \<Rightarrow> ('o, int) thread_prog" where
  "inline_mysql_mutex_unlock api that = do {
     p \<leftarrow> m_psi_of that;
     when_some p (\<lambda>q. tell (UnlockMutex q));
     native (TSys ''my_mutex_unlock'') (nat_my_mutex_unlock (mutexes api) that) }"

definition inline_mysql_rwlock_register :: "ptr \<Rightarrow> ptr \<Rightarrow> int \<Rightarrow> ('o, unit) thread_prog" where
  "inline_mysql_rwlock_register category info cnt =
     tell (ThreadService (RegisterRwlock category info cnt))"

definition inline_mysql_rwlock_init ::
  "thread_service \<Rightarrow> 'o thread_api \<Rightarrow> nat \<Rightarrow> ptr \<Rightarrow> ('o, int) thread_prog"
where
  "inline_mysql_rwlock_init sv api key that = do {
     p \<leftarrow> ask (init_rwlock sv key that) (InitRwlock key that);
     set_m_psi that p;
     native (TSys ''native_rw_init'') (nat_native_rw_init (rwlocks api) that) }"

definition inline_mysql_prlock_init ::
  "thread_service \<Rightarrow> 'o thread_api \<Rightarrow> nat \<Rightarrow> ptr \<Rightarrow> ('o, int) thread_prog"
where
  "inline_mysql_prlock_init sv api key that = do {
     p \<leftarrow> ask (init_rwlock sv key that) (InitRwlock key that);
     set_m_psi that p;
     native (TSys ''rw_pr_init'') (nat_rw_pr_init (prlocks api) that) }"

definition inline_mysql_rwlock_destroy :: "'o thread_api \<Rightarrow> ptr \<Rightarrow> ('o, int) thread_prog" where
  "inline_mysql_rwlock_destroy api that = do {
     p \<leftarrow> m_psi_of that;
     when_some p (\<lambda>q. do { tell (DestroyRwlock q); set_m_psi that None });
     native (TSys ''native_rw_destroy'') (nat_native_rw_destroy (rwlocks api) that) }"

definition inline_mysql_prlock_destroy :: "'o thread_api \<Rightarrow> ptr \<Rightarrow> ('o, int) thread_prog" where
  "inline_mysql_prlock_destroy api that = do {
     p \<leftarrow> m_psi_of that;
     when_some p (\<lambda>q. do { tell (DestroyRwlock q); set_m_psi that None });
     native (TSys ''rw_pr_destroy'') (nat_rw_pr_destroy (prlocks api) that) }"

definition inline_mysql_rwlock_rdlock ::
  "thread_service \<Rightarrow> 'o thread_api \<Rightarrow> loc \<Rightarrow> ptr \<Rightarrow> ('o, int) thread_prog"
where
  "inline_mysql_rwlock_rdlock sv api src that = do {
     hook \<leftarrow> m_psi_of that;
     case hook of
       Some p \<Rightarrow> do {
         locker \<leftarrow> ask (start_rwlock_rdwait sv p PSI_RWLOCK_READLOCK src) (StartRwlockRdwait p PSI_RWLOCK_READLOCK src);
         result \<leftarrow> native (TSys ''native_rw_rdlock'') (nat_native_rw_rdlock (rwlocks api) that);
         when_some locker (\<lambda>l. tell (EndRwlockRdwait l result));
         State_Monad.return result }
     | None \<Rightarrow> native (TSys ''native_rw_rdlock'') (nat_native_rw_rdlock (rwlocks api) that) }"

definition inline_mysql_prlock_rdlock ::
  "thread_service \<Rightarrow> 'o thread_api \<Rightarrow> loc \<Rightarrow> ptr \<Rightarrow> ('o, int) thread_prog"
where
  "inline_mysql_prlock_rdlock sv api src that = do {
     hook \<leftarrow> m_psi_of that;
     case hook of
       Some p \<Rightarrow> do {
         locker \<leftarrow> ask (start_rwlock_rdwait sv p PSI_RWLOCK_READLOCK src) (StartRwlockRdwait p PSI_RWLOCK_READLOCK src);
         result \<leftarrow> native (TSys ''rw_pr_rdlock'') (nat_rw_pr_rdlock (prlocks api) that);
         when_some locker (\<lambda>l. tell (EndRwlockRdwait l result));
         State_Monad.return result }
     | None \<Rightarrow> native (TSys ''rw_pr_rdlock'') (nat_rw_pr_rdlock (prlocks api) that) }"

definition inline_mysql_rwlock_wrlock ::
  "thread_service \<Rightarrow> 'o thread_api \<Rightarrow> loc \<Rightarrow> ptr \<Rightarrow> ('o, int) thread_prog"
where
  "inline_mysql_rwlock_wrlock sv api src that = do {
     hook \<leftarrow> m_psi_of that;
     case hook of
       Some p \<Rightarrow> do {
         locker \<leftarrow> ask (start_rwlock_wrwait sv p PSI_RWLOCK_WRITELOCK src) (StartRwlockWrwait p PSI_RWLOCK_WRITELOCK src);
         result \<leftarrow> native (TSys ''native_rw_wrlock'') (nat_native_rw_wrlock (rwlocks api) that);
         when_some locker (\<lambda>l. tell (EndRwlockWrwait l result));
         State_Monad.return result }
     | None \<Rightarrow> native (TSys ''native_rw_wrlock'') (nat_native_rw_wrlock (rwlocks api) that) }"

definition inline_mysql_prlock_wrlock ::
  "thread_service \<Rightarrow> 'o thread_api \<Rightarrow> loc \<Rightarrow> ptr \<Rightarrow> ('o, int) thread_prog"
where
  "inline_mysql_prlock_wrlock sv api src that = do {
     hook \<leftarrow> m_psi_of that;
     case hook of
       Some p \<Rightarrow> do {
         locker \<leftarrow> ask (start_rwlock_wrwait sv p PSI_RWLOCK_WRITELOCK src) (StartRwlockWrwait p PSI_RWLOCK_WRITELOCK src);
         result \<leftarrow> native (TSys ''rw_pr_wrlock'') (nat_rw_pr_wrlock (prlocks api) that);
         when_some locker (\<lambda>l. tell (EndRwlockWrwait l result));
         State_Monad.return result }
     | None \<Rightarrow> native (TSys ''rw_pr_wrlock'') (nat_rw_pr_wrlock (prlocks api) that) }"

definition inline_mysql_rwlock_tryrdlock ::
  "thread_service \<Rightarrow> 'o thread_api \<Rightarrow> loc \<Rightarrow> ptr \<Rightarrow> ('o, int) thread_prog"
where
  "inline_mysql_rwlock_tryrdlock sv api src that = do {
     hook \<leftarrow> m_psi_of that;
     case hook of
       Some p \<Rightarrow> do {
         locker \<leftarrow> ask (start_rwlock_rdwait sv p PSI_RWLOCK_TRYREADLOCK src) (StartRwlockRdwait p PSI_RWLOCK_TRYREADLOCK src);
         result \<leftarrow> native (TSys ''native_rw_tryrdlock'') (nat_native_rw_tryrdlock (rwlocks api) that);
         when_some locker (\<lambda>l. tell (EndRwlockRdwait l result));
         State_Monad.return result }
     | None \<Rightarrow> native (TSys ''native_rw_tryrdlock'') (nat_native_rw_tryrdlock (rwlocks api) that) }"

definition inline_mysql_rwlock_trywrlock ::
  "thread_service \<Rightarrow> 'o thread_api \<Rightarrow> loc \<Rightarrow> ptr \<Rightarrow> ('o, int) thread_prog"
where
  "inline_mysql_rwlock_trywrlock sv api src that = do {
     hook \<leftarrow> m_psi_of that;
     case hook of
       Some p \<Rightarrow> do {
         locker \<leftarrow> ask (start_rwlock_wrwait sv p PSI_RWLOCK_TRYWRITELOCK src) (StartRwlockWrwait p PSI_RWLOCK_TRYWRITELOCK src);
         result \<leftarrow> native (TSys ''native_rw_trywrlock'') (nat_native_rw_trywrlock (rwlocks api) that);
         when_some locker (\<lambda>l. tell (EndRwlockWrwait l result));
         State_Monad.return result }
     | None \<Rightarrow> native (TSys ''native_rw_trywrlock'') (nat_native_rw_trywrlock (rwlocks api) that) }"

definition inline_mysql_rwlock_unlock :: "'o thread_api \<Rightarrow> ptr \<Rightarrow> ('o, int) thread_prog" where
  "inline_mysql_rwlock_unlock api that = do {
     p \<leftarrow> m_psi_of that;
     when_some p (\<lambda>q. tell (UnlockRwlock q));
     native (TSys ''native_rw_unlock'') (nat_native_rw_unlock (rwlocks api) that) }"

definition inline_mysql_prlock_unlock :: "'o thread_api \<Rightarrow> ptr \<Rightarrow> ('o, int) thread_prog" where
  "inline_mysql_prlock_unlock api that = do {
     p \<leftarrow> m_psi_of that;
     when_some p (\<lambda>q. tell (UnlockRwlock q));
     native (TSys ''rw_pr_unlock'') (nat_rw_pr_unlock (prlocks api) that) }"

definition inline_mysql_cond_register :: "ptr \<Rightarrow> ptr \<Rightarrow> int \<Rightarrow> ('o, unit) thread_prog" where
  "inline_mysql_cond_register category info cnt =
     tell (ThreadService (RegisterCond category info cnt))"

definition inline_mysql_cond_init ::
  "thread_service \<Rightarrow> 'o thread_api \<Rightarrow> nat \<Rightarrow> ptr \<Rightarrow> ('o, int) thread_prog"
where
  "inline_mysql_cond_init sv api key that = do {
     p \<leftarrow> ask (init_cond sv key that) (InitCond key that);
     set_m_psi that p;
     native (TSys ''native_cond_init'') (nat_native_cond_init (conds api) that) }"

definition inline_mysql_cond_destroy :: "'o thread_api \<Rightarrow> ptr \<Rightarrow> ('o, int) thread_prog" where
  "inline_mysql_cond_destroy api that = do {
     p \<leftarrow> m_psi_of that;
     when_some p (\<lambda>q. do { tell (DestroyCond q); set_m_psi that None });
     native (TSys ''native_cond_destroy'') (nat_native_cond_destroy (conds api) that) }"

definition inline_mysql_cond_wait ::
  "thread_service \<Rightarrow> 'o thread_api \<Rightarrow> loc \<Rightarrow> ptr \<Rightarrow> ptr \<Rightarrow> ('o, int) thread_prog"
where
  "inline_mysql_cond_wait sv api src that mutex = do {
     hook \<leftarrow> m_psi_of that;
     case hook of
       Some p \<Rightarrow> do {
         mp \<leftarrow> m_psi_of mutex;
         locker \<leftarrow> ask (start_cond_wait sv p mp PSI_COND_WAIT src) (StartCondWait p mp PSI_COND_WAIT src);
         result \<leftarrow> native (TSys ''my_cond_wait'') (nat_my_cond_wait (conds api) that mutex);
         when_some locker (\<lambda>l. tell (EndCondWait l result));
         State_Monad.return result }
     | None \<Rightarrow> native (TSys ''my_cond_wait'') (nat_my_cond_wait (conds api) that mutex) }"

definition inline_mysql_cond_timedwait ::
  "thread_service \<Rightarrow> 'o thread_api \<Rightarrow> loc \<Rightarrow> ptr \<Rightarrow> ptr \<Rightarrow> ptr \<Rightarrow> ('o, int) thread_prog"
where
  "inline_mysql_cond_timedwait sv api src that mutex abstime = do {
     hook \<leftarrow> m_psi_of that;
     case hook of
       Some p \<Rightarrow> do {
         mp \<leftarrow> m_psi_of mutex;
         locker \<leftarrow> ask (start_cond_wait sv p mp PSI_COND_TIMEDWAIT src) (StartCondWait p mp PSI_COND_TIMEDWAIT src);
         result \<leftarrow> native (TSys ''my_cond_timedwait'') (nat_my_cond_timedwait (conds api) that mutex abstime);
         when_some locker (\<lambda>l. tell (EndCondWait l result));
         State_Monad.return result }
     | None \<Rightarrow> native (TSys ''my_cond_timedwait'') (nat_my_cond_timedwait (conds api) that mutex abstime) }"

definition inline_mysql_cond_signal :: "'o thread_api \<Rightarrow> ptr \<Rightarrow> ('o, int) thread_prog" where
  "inline_mysql_cond_signal api that = do {
     p \<leftarrow> m_psi_of that;
     when_some p (\<lambda>q. tell (SignalCond q));
     native (TSys ''native_cond_signal'') (nat_native_cond_signal (conds api) that) }"

definition inline_mysql_cond_broadcast :: "'o thread_api \<Rightarrow> ptr \<Rightarrow> ('o, int) thread_prog" where
  "inline_mysql_cond_broadcast api that = do {
     p \<leftarrow> m_psi_of that;
     when_some p (\<lambda>q. tell (BroadcastCond q));
     native (TSys ''native_cond_broadcast'') (nat_native_cond_broadcast (conds api) that) }"

definition inline_mysql_thread_register :: "ptr \<Rightarrow> ptr \<Rightarrow> int \<Rightarrow> ('o, unit) thread_prog" where
  "inline_mysql_thread_register category info cnt =
     tell (ThreadService (RegisterThread category info cnt))"

text \<open>The performance schema creates the thread itself.\<close>

definition inline_mysql_thread_create ::
  "thread_service \<Rightarrow> nat \<Rightarrow> ptr \<Rightarrow> ptr \<Rightarrow> ptr \<Rightarrow> ptr \<Rightarrow> ('o, int) thread_prog"
where
  "inline_mysql_thread_create sv key thread attr start_routine arg =
     ask (spawn_thread sv key thread attr start_routine arg)
       (\<lambda>r. ThreadService (SpawnThread key thread attr start_routine arg r))"

definition inline_mysql_thread_set_psi_id :: "thread_service \<Rightarrow> nat \<Rightarrow> ('o, unit) thread_prog" where
  "inline_mysql_thread_set_psi_id sv i = do {
     p \<leftarrow> ask (get_thread sv) (\<lambda>q. ThreadService (GetThread q));
     tell (ThreadService (SetThreadId p i)) }"

definition inline_mysql_thread_set_psi_THD :: "thread_service \<Rightarrow> ptr \<Rightarrow> ('o, unit) thread_prog" where
  "inline_mysql_thread_set_psi_THD sv thd = do {
     p \<leftarrow> ask (get_thread sv) (\<lambda>q. ThreadService (GetThread q));
     tell (ThreadService (SetThreadTHD p thd)) }"

section \<open>Programs of synchronisation calls\<close>

datatype mutex_op =
    MInit nat ptr
  | MDestroy
  | MLock loc
  | MTrylock loc
  | MUnlock

datatype rwlock_op =
    RInit nat
  | RDestroy
  | RRdlock loc
  | RWrlock loc
  | RTryrdlock loc
  | RTrywrlock loc
  | RUnlock

datatype prlock_op =
    PInit nat
  | PDestroy
  | PRdlock loc
  | PWrlock loc
  | PUnlock

datatype cond_op =
    CInit nat
  | CDestroy
  | CWait loc ptr
  | CTimedwait loc ptr ptr
  | CSignal
  | CBroadcast

datatype sync_call =
    OnMutex ptr mutex_op
  | OnRwlock ptr rwlock_op
  | OnPrlock ptr prlock_op
  | OnCond ptr cond_op

primrec run_mutex_op ::
  "thread_service \<Rightarrow> 'o thread_api \<Rightarrow> ptr \<Rightarrow> mutex_op \<Rightarrow> ('o, int) thread_prog"
where
  "run_mutex_op sv api that (MInit key attr) = inline_mysql_mutex_init sv api key that attr"
| "run_mutex_op sv api that MDestroy = inline_mysql_mutex_destroy api that"
| "run_mutex_op sv api that (MLock src) = inline_mysql_mutex_lock sv api src that"
| "run_mutex_op sv api that (MTrylock src) = inline_mysql_mutex_trylock sv api src that"
| "run_mutex_op sv api that MUnlock = inline_mysql_mutex_unlock api that"

primrec run_rwlock_op ::
  "thread_service \<Rightarrow> 'o thread_api \<Rightarrow> ptr \<Rightarrow> rwlock_op \<Rightarrow> ('o, int) thread_prog"
where
  "run_rwlock_op sv api that (RInit key) = inline_mysql_rwlock_init sv api key that"
| "run_rwlock_op sv api that RDestroy = inline_mysql_rwlock_destroy api that"
| "run_rwlock_op sv api that (RRdlock src) = inline_mysql_rwlock_rdlock sv api src that"
| "run_rwlock_op sv api that (RWrlock src) = inline_mysql_rwlock_wrlock sv api src that"
| "run_rwlock_op sv api that (RTryrdlock src) = inline_mysql_rwlock_tryrdlock sv api src that"
| "run_rwlock_op sv api that (RTrywrlock src) = inline_mysql_rwlock_trywrlock sv api src that"
| "run_rwlock_op sv api that RUnlock = inline_mysql_rwlock_unlock api that"

primrec run_prlock_op ::
  "thread_service \<Rightarrow> 'o thread_api \<Rightarrow> ptr \<Rightarrow> prlock_op \<Rightarrow> ('o, int) thread_prog"
where
  "run_prlock_op sv api that (PInit key) = inline_mysql_prlock_init sv api key that"
| "run_prlock_op sv api that PDestroy = inline_mysql_prlock_destroy api that"
| "run_prlock_op sv api that (PRdlock src) = inline_mysql_prlock_rdlock sv api src that"
| "run_prlock_op sv api that (PWrlock src) = inline_mysql_prlock_wrlock sv api src that"
| "run_prlock_op sv api that PUnlock = inline_mysql_prlock_unlock api that"

primrec run_cond_op ::
  "thread_service \<Rightarrow> 'o thread_api \<Rightarrow> ptr \<Rightarrow> cond_op \<Rightarrow> ('o, int) thread_prog"
where
  "run_cond_op sv api that (CInit key) = inline_mysql_cond_init sv api key that"
| "run_cond_op sv api that CDestroy = inline_mysql_cond_destroy api that"
| "run_cond_op sv api that (CWait src mutex) = inline_mysql_cond_wait sv api src that mutex"
| "run_cond_op sv api that (CTimedwait src mutex abstime) = inline_mysql_cond_timedwait sv api src that mutex abstime"
| "run_cond_op sv api that CSignal = inline_mysql_cond_signal api that"
| "run_cond_op sv api that CBroadcast = inline_mysql_cond_broadcast api that"

primrec run_sync_call ::
  "thread_service \<Rightarrow> 'o thread_api \<Rightarrow> sync_call \<Rightarrow> ('o, int) thread_prog"
where
  "run_sync_call sv api (OnMutex that op) = run_mutex_op sv api that op"
| "run_sync_call sv api (OnRwlock that op) = run_rwlock_op sv api that op"
| "run_sync_call sv api (OnPrlock that op) = run_prlock_op sv api that op"
| "run_sync_call sv api (OnCond that op) = run_cond_op sv api that op"

text \<open>The same calls without the interface of the performance schema.\<close>

primrec plain_mutex_op :: "'o thread_api \<Rightarrow> ptr \<Rightarrow> mutex_op \<Rightarrow> ('o, int) state" where
  "plain_mutex_op api that (MInit key attr) = State (nat_my_mutex_init (mutexes api) that attr)"
| "plain_mutex_op api that MDestroy = State (nat_my_mutex_destroy (mutexes api) that)"
| "plain_mutex_op api that (MLock src) = State (nat_my_mutex_lock (mutexes api) that)"
| "plain_mutex_op api that (MTrylock src) = State (nat_my_mutex_trylock (mutexes api) that)"
| "plain_mutex_op api that MUnlock = State (nat_my_mutex_unlock (mutexes api) that)"

primrec plain_rwlock_op :: "'o thread_api \<Rightarrow> ptr \<Rightarrow> rwlock_op \<Rightarrow> ('o, int) state" where
  "plain_rwlock_op api that (RInit key) = State (nat_native_rw_init (rwlocks api) that)"
| "plain_rwlock_op api that RDestroy = State (nat_native_rw_destroy (rwlocks api) that)"
| "plain_rwlock_op api that (RRdlock src) = State (nat_native_rw_rdlock (rwlocks api) that)"
| "plain_rwlock_op api that (RWrlock src) = State (nat_native_rw_wrlock (rwlocks api) that)"
| "plain_rwlock_op api that (RTryrdlock src) = State (nat_native_rw_tryrdlock (rwlocks api) that)"
| "plain_rwlock_op api that (RTrywrlock src) = State (nat_native_rw_trywrlock (rwlocks api) that)"
| "plain_rwlock_op api that RUnlock = State (nat_native_rw_unlock (rwlocks api) that)"

primrec plain_prlock_op :: "'o thread_api \<Rightarrow> ptr \<Rightarrow> prlock_op \<Rightarrow> ('o, int) state" where
  "plain_prlock_op api that (PInit key) = State (nat_rw_pr_init (prlocks api) that)"
| "plain_prlock_op api that PDestroy = State (nat_rw_pr_destroy (prlocks api) that)"
| "plain_prlock_op api that (PRdlock src) = State (nat_rw_pr_rdlock (prlocks api) that)"
| "plain_prlock_op api that (PWrlock src) = State (nat_rw_pr_wrlock (prlocks api) that)"
| "plain_prlock_op api that PUnlock = State (nat_rw_pr_unlock (prlocks api) that)"

primrec plain_cond_op :: "'o thread_api \<Rightarrow> ptr \<Rightarrow> cond_op \<Rightarrow> ('o, int) state" where
  "plain_cond_op api that (CInit key) = State (nat_native_cond_init (conds api) that)"
| "plain_cond_op api that CDestroy = State (nat_native_cond_destroy (conds api) that)"
| "plain_cond_op api that (CWait src mutex) = State (nat_my_cond_wait (conds api) that mutex)"
| "plain_cond_op api that (CTimedwait src mutex abstime) = State (nat_my_cond_timedwait (conds api) that mutex abstime)"
| "plain_cond_op api that CSignal = State (nat_native_cond_signal (conds api) that)"
| "plain_cond_op api that CBroadcast = State (nat_native_cond_broadcast (conds api) that)"

primrec plain_sync_call :: "'o thread_api \<Rightarrow> sync_call \<Rightarrow> ('o, int) state" where
  "plain_sync_call api (OnMutex that op) = plain_mutex_op api that op"
| "plain_sync_call api (OnRwlock that op) = plain_rwlock_op api that op"
| "plain_sync_call api (OnPrlock that op) = plain_prlock_op api that op"
| "plain_sync_call api (OnCond that op) = plain_cond_op api that op"

fun wait_marks :: "locker option \<Rightarrow> mark list" where
  "wait_marks None = [Note]"
| "wait_marks (Some l) = [Grants l, Opens l]"

fun thread_marks :: "thread_event \<Rightarrow> mark list" where
  "thread_marks (StartMutexWait p op src a) = wait_marks a"
| "thread_marks (EndMutexWait l r) = [Closes l]"
| "thread_marks (StartRwlockRdwait p op src a) = wait_marks a"
| "thread_marks (EndRwlockRdwait l r) = [Closes l]"
| "thread_marks (StartRwlockWrwait p op src a) = wait_marks a"
| "thread_marks (EndRwlockWrwait l r) = [Closes l]"
| "thread_marks (StartCondWait p m op src a) = wait_marks a"
| "thread_marks (EndCondWait l r) = [Closes l]"
| "thread_marks (TSys c) = [Native]"
| "thread_marks e = [Note]"

lemmas thread_defs =
  m_psi_of_def set_m_psi_def
  inline_mysql_mutex_register_def inline_mysql_mutex_init_def inline_mysql_mutex_destroy_def
  inline_mysql_mutex_lock_def inline_mysql_mutex_trylock_def inline_mysql_mutex_unlock_def
  inline_mysql_rwlock_register_def inline_mysql_rwlock_init_def inline_mysql_prlock_init_def
  inline_mysql_rwlock_destroy_def inline_mysql_prlock_destroy_def inline_mysql_rwlock_rdlock_def
  inline_mysql_prlock_rdlock_def inline_mysql_rwlock_wrlock_def inline_mysql_prlock_wrlock_def
  inline_mysql_rwlock_tryrdlock_def inline_mysql_rwlock_trywrlock_def
  inline_mysql_rwlock_unlock_def inline_mysql_prlock_unlock_def inline_mysql_cond_register_def
  inline_mysql_cond_init_def inline_mysql_cond_destroy_def inline_mysql_cond_wait_def
  inline_mysql_cond_timedwait_def inline_mysql_cond_signal_def inline_mysql_cond_broadcast_def
  inline_mysql_thread_register_def inline_mysql_thread_create_def
  inline_mysql_thread_set_psi_id_def inline_mysql_thread_set_psi_THD_def

lemma mutex_op_transparent:
  "run_state (plain_mutex_op api that op) (os s) =
     (fst (run_state (run_mutex_op sv api that op) s), os (snd (run_state (run_mutex_op sv api that op) s)))"
  by (cases op) (simp_all add: thread_defs prog_simps when_some_def split: option.split)

lemma rwlock_op_transparent:
  "run_state (plain_rwlock_op api that op) (os s) =
     (fst (run_state (run_rwlock_op sv api that op) s), os (snd (run_state (run_rwlock_op sv api that op) s)))"
  by (cases op) (simp_all add: thread_defs prog_simps when_some_def split: option.split)

lemma prlock_op_transparent:
  "run_state (plain_prlock_op api that op) (os s) =
     (fst (run_state (run_prlock_op sv api that op) s), os (snd (run_state (run_prlock_op sv api that op) s)))"
  by (cases op) (simp_all add: thread_defs prog_simps when_some_def split: option.split)

lemma cond_op_transparent:
  "run_state (plain_cond_op api that op) (os s) =
     (fst (run_state (run_cond_op sv api that op) s), os (snd (run_state (run_cond_op sv api that op) s)))"
  by (cases op) (simp_all add: thread_defs prog_simps when_some_def split: option.split)

lemma sync_call_transparent:
  "run_state (plain_sync_call api c) (os s) =
     (fst (run_state (run_sync_call sv api c) s), os (snd (run_state (run_sync_call sv api c) s)))"
  by (cases c)
    (simp_all add: mutex_op_transparent rwlock_op_transparent prlock_op_transparent cond_op_transparent)

lemma mutex_op_disciplined: "adds (disciplined thread_marks) (run_mutex_op sv api that op)"
  unfolding adds_def disciplined_def
  by (cases op) (auto simp: thread_defs prog_simps when_some_def split: option.split)

lemma rwlock_op_disciplined: "adds (disciplined thread_marks) (run_rwlock_op sv api that op)"
  unfolding adds_def disciplined_def
  by (cases op) (auto simp: thread_defs prog_simps when_some_def split: option.split)

lemma prlock_op_disciplined: "adds (disciplined thread_marks) (run_prlock_op sv api that op)"
  unfolding adds_def disciplined_def
  by (cases op) (auto simp: thread_defs prog_simps when_some_def split: option.split)

lemma cond_op_disciplined: "adds (disciplined thread_marks) (run_cond_op sv api that op)"
  unfolding adds_def disciplined_def
  by (cases op) (auto simp: thread_defs prog_simps when_some_def split: option.split)

lemma sync_call_disciplined: "adds (disciplined thread_marks) (run_sync_call sv api c)"
  by (cases c)
    (simp_all add: mutex_op_disciplined rwlock_op_disciplined prlock_op_disciplined cond_op_disciplined)

interpretation sync:
  instrumented "run_sync_call sv api" "plain_sync_call api" os "\<lambda>c. c" "\<lambda>r. r" thread_marks "\<lambda>c. True"
  for sv api
  by unfold_locales (simp_all add: sync_call_transparent sync_call_disciplined)

text \<open>
  A program of mutex, read-write lock and condition calls gets the same results and drives the
  native objects in the same way through the wrappers as through the native calls.
\<close>

theorem sync_program_transparent:
  "run_state (run_program (plain_sync_call api) n p []) (os s) =
     (fst (run_state (run_program (run_sync_call sv api) n p []) s),
      os (snd (run_state (run_program (run_sync_call sv api) n p []) s)))"
  using sync.program_transparent [of p p api n "[]" s sv] by (simp add: option.map_ident)

text \<open>
  Every locker granted for a wait is closed exactly once, after the native call that may wait.
\<close>

theorem sync_program_disciplined:
  "\<exists>es. trace (snd (run_state (run_program (run_sync_call sv api) n p []) s)) = trace s @ es
      \<and> disciplined thread_marks es"
  by (rule sync.program_disciplined)

section \<open>The instruments that the service is asked about\<close>

text \<open>
  An instrument lives from the call that creates it to the call that destroys it.
\<close>

fun born :: "thread_event \<Rightarrow> psi list" where
  "born (InitMutex k p (Some q)) = [q]"
| "born (InitRwlock k p (Some q)) = [q]"
| "born (InitCond k p (Some q)) = [q]"
| "born e = []"

fun gone :: "thread_event \<Rightarrow> psi list" where
  "gone (DestroyMutex q) = [q]"
| "gone (DestroyRwlock q) = [q]"
| "gone (DestroyCond q) = [q]"
| "gone e = []"

text \<open>The instruments that an event names.\<close>

fun named :: "thread_event \<Rightarrow> psi list" where
  "named (StartMutexWait q op src a) = [q]"
| "named (StartRwlockRdwait q op src a) = [q]"
| "named (StartRwlockWrwait q op src a) = [q]"
| "named (StartCondWait q m op src a) = q # (case m of None \<Rightarrow> [] | Some k \<Rightarrow> [k])"
| "named (UnlockMutex q) = [q]"
| "named (UnlockRwlock q) = [q]"
| "named (SignalCond q) = [q]"
| "named (BroadcastCond q) = [q]"
| "named e = gone e"

definition live_step :: "psi set \<Rightarrow> thread_event \<Rightarrow> psi set" where
  "live_step L e = (L - set (gone e)) \<union> set (born e)"

definition live :: "history \<Rightarrow> psi set" where
  "live es = foldl live_step {} es"

fun names_live :: "psi set \<Rightarrow> history \<Rightarrow> bool" where
  "names_live L [] = True"
| "names_live L (e # es) = (set (named e) \<subseteq> L \<and> names_live (live_step L e) es)"

lemma live_Nil [simp]: "live [] = {}"
  by (simp add: live_def)

lemma live_snoc [simp]: "live (es @ [e]) = live_step (live es) e"
  by (simp add: live_def)

lemma names_live_snoc':
  "names_live L (es @ [e]) \<longleftrightarrow> names_live L es \<and> set (named e) \<subseteq> foldl live_step L es"
  by (induction es arbitrary: L) auto

lemma names_live_snoc [simp]:
  "names_live {} (es @ [e]) \<longleftrightarrow> names_live {} es \<and> set (named e) \<subseteq> live es"
  by (simp add: names_live_snoc' live_def)

text \<open>
  A service never hands out an instrument that is still alive.
\<close>

definition fresh_service :: "thread_service \<Rightarrow> bool" where
  "fresh_service sv \<longleftrightarrow>
     (\<forall>k p h q. init_mutex sv k p h = Some q \<longrightarrow> q \<notin> live h) \<and>
     (\<forall>k p h q. init_rwlock sv k p h = Some q \<longrightarrow> q \<notin> live h) \<and>
     (\<forall>k p h q. init_cond sv k p h = Some q \<longrightarrow> q \<notin> live h)"

text \<open>
  Every hook is a live instrument, no two objects share one, and the service was only ever asked
  about live instruments.
\<close>

definition hooks_ok :: "('o, hooks, thread_event) psi_state \<Rightarrow> bool" where
  "hooks_ok s \<longleftrightarrow> names_live {} (trace s)
     \<and> (\<forall>p q. mem s p = Some q \<longrightarrow> q \<in> live (trace s))
     \<and> (\<forall>p p' q. mem s p = Some q \<longrightarrow> mem s p' = Some q \<longrightarrow> p = p')"

text \<open>Three kinds of steps: no hook changes, a hook is set, a hook is cleared.\<close>

definition harmless :: "psi set \<Rightarrow> thread_event \<Rightarrow> bool" where
  "harmless L e \<longleftrightarrow> set (named e) \<subseteq> L \<and> gone e = [] \<and> born e = []"

lemma harmless_run:
  "list_all (harmless (live h)) es \<Longrightarrow>
     live (h @ es) = live h \<and> (names_live {} (h @ es) \<longleftrightarrow> names_live {} h)"
proof (induction es rule: rev_induct)
  case (snoc e es)
  then show ?case
    by (simp add: append_assoc [symmetric] harmless_def live_step_def del: append_assoc)
qed simp

lemma hooks_ok_kept:
  assumes "hooks_ok s" and "mem t = mem s"
    and "\<exists>es. trace t = trace s @ es \<and> list_all (harmless (live (trace s))) es"
  shows "hooks_ok t"
  using assms harmless_run by (auto simp: hooks_ok_def)

lemma hooks_ok_init:
  assumes "hooks_ok s" and "mem t = (mem s)(that := a)" and "\<And>q. a = Some q \<Longrightarrow> q \<notin> live (trace s)"
    and "trace t = trace s @ [e, TSys c]"
    and "e = InitMutex k that a \<or> e = InitRwlock k that a \<or> e = InitCond k that a"
  shows "hooks_ok t"
proof -
  have e: "named e = []" "gone e = []" "born e = (case a of None \<Rightarrow> [] | Some q \<Rightarrow> [q])"
    using assms(5) by (auto split: option.split)
  have t: "trace t = (trace s @ [e]) @ [TSys c]"
    using assms(4) by simp
  show ?thesis
    using assms(1-3) e unfolding hooks_ok_def live_step_def live_snoc names_live_snoc t
    by (auto simp: live_step_def split: option.splits if_splits)
qed

lemma hooks_ok_destroy:
  assumes "hooks_ok s" and "mem s that = Some q" and "mem t = (mem s)(that := None)"
    and "trace t = trace s @ [e, TSys c]"
    and "e = DestroyMutex q \<or> e = DestroyRwlock q \<or> e = DestroyCond q"
  shows "hooks_ok t"
proof -
  have e: "named e = [q]" "gone e = [q]" "born e = []"
    using assms(5) by auto
  have t: "trace t = (trace s @ [e]) @ [TSys c]"
    using assms(4) by simp
  show ?thesis
    using assms(1-3) e unfolding hooks_ok_def live_step_def live_snoc names_live_snoc t
    by (auto simp: live_step_def split: if_splits)
qed

lemma hooks_live: "hooks_ok s \<Longrightarrow> mem s p = Some q \<Longrightarrow> q \<in> live (trace s)"
  by (auto simp: hooks_ok_def)

lemma fresh_serviceD:
  assumes "fresh_service sv"
  shows "init_mutex sv k p h = Some q \<Longrightarrow> q \<notin> live h"
    and "init_rwlock sv k p h = Some q \<Longrightarrow> q \<notin> live h"
    and "init_cond sv k p h = Some q \<Longrightarrow> q \<notin> live h"
  using assms by (auto simp: fresh_service_def)

lemmas hook_simps = thread_defs prog_simps when_some_def harmless_def hooks_live

lemma mutex_init_hooks_ok:
  assumes "fresh_service sv" and "hooks_ok s"
  shows "hooks_ok (snd (run_state (inline_mysql_mutex_init sv api key that attr) s))"
  by (rule hooks_ok_init [OF assms(2), where that = that and a = "init_mutex sv key that (trace s)"
        and e = "InitMutex key that (init_mutex sv key that (trace s))" and k = key])
    (simp_all add: thread_defs prog_simps fresh_serviceD [OF assms(1)])

lemma mutex_destroy_hooks_ok:
  assumes "hooks_ok s"
  shows "hooks_ok (snd (run_state (inline_mysql_mutex_destroy api that) s))"
proof (cases "mem s that")
  case None
  show ?thesis
    by (rule hooks_ok_kept [OF assms]) (simp_all add: hook_simps None)
next
  case (Some q)
  show ?thesis
    by (rule hooks_ok_destroy [OF assms Some, where e = "DestroyMutex q"]) (simp_all add: hook_simps Some)
qed

lemma rwlock_init_hooks_ok:
  assumes "fresh_service sv" and "hooks_ok s"
  shows "hooks_ok (snd (run_state (inline_mysql_rwlock_init sv api key that) s))"
  by (rule hooks_ok_init [OF assms(2), where that = that and a = "init_rwlock sv key that (trace s)"
        and e = "InitRwlock key that (init_rwlock sv key that (trace s))" and k = key])
    (simp_all add: thread_defs prog_simps fresh_serviceD [OF assms(1)])

lemma rwlock_destroy_hooks_ok:
  assumes "hooks_ok s"
  shows "hooks_ok (snd (run_state (inline_mysql_rwlock_destroy api that) s))"
proof (cases "mem s that")
  case None
  show ?thesis
    by (rule hooks_ok_kept [OF assms]) (simp_all add: hook_simps None)
next
  case (Some q)
  show ?thesis
    by (rule hooks_ok_destroy [OF assms Some, where e = "DestroyRwlock q"]) (simp_all add: hook_simps Some)
qed

lemma prlock_init_hooks_ok:
  assumes "fresh_service sv" and "hooks_ok s"
  shows "hooks_ok (snd (run_state (inline_mysql_prlock_init sv api key that) s))"
  by (rule hooks_ok_init [OF assms(2), where that = that and a = "init_rwlock sv key that (trace s)"
        and e = "InitRwlock key that (init_rwlock sv key that (trace s))" and k = key])
    (simp_all add: thread_defs prog_simps fresh_serviceD [OF assms(1)])

lemma prlock_destroy_hooks_ok:
  assumes "hooks_ok s"
  shows "hooks_ok (snd (run_state (inline_mysql_prlock_destroy api that) s))"
proof (cases "mem s that")
  case None
  show ?thesis
    by (rule hooks_ok_kept [OF assms]) (simp_all add: hook_simps None)
next
  case (Some q)
  show ?thesis
    by (rule hooks_ok_destroy [OF assms Some, where e = "DestroyRwlock q"]) (simp_all add: hook_simps Some)
qed

lemma cond_init_hooks_ok:
  assumes "fresh_service sv" and "hooks_ok s"
  shows "hooks_ok (snd (run_state (inline_mysql_cond_init sv api key that) s))"
  by (rule hooks_ok_init [OF assms(2), where that = that and a = "init_cond sv key that (trace s)"
        and e = "InitCond key that (init_cond sv key that (trace s))" and k = key])
    (simp_all add: thread_defs prog_simps fresh_serviceD [OF assms(1)])

lemma cond_destroy_hooks_ok:
  assumes "hooks_ok s"
  shows "hooks_ok (snd (run_state (inline_mysql_cond_destroy api that) s))"
proof (cases "mem s that")
  case None
  show ?thesis
    by (rule hooks_ok_kept [OF assms]) (simp_all add: hook_simps None)
next
  case (Some q)
  show ?thesis
    by (rule hooks_ok_destroy [OF assms Some, where e = "DestroyCond q"]) (simp_all add: hook_simps Some)
qed

lemma mutex_op_hooks_ok:
  assumes "fresh_service sv" and "hooks_ok s"
  shows "hooks_ok (snd (run_state (run_mutex_op sv api that op) s))"
proof (cases op)
  case (MInit key attr)
  then show ?thesis by (simp add: mutex_init_hooks_ok [OF assms])
next
  case MDestroy
  then show ?thesis by (simp add: mutex_destroy_hooks_ok [OF assms(2)])
qed (rule hooks_ok_kept [OF assms(2)];
     use hooks_live [OF assms(2)] in \<open>auto simp: hook_simps split: option.split\<close>)+

lemma rwlock_op_hooks_ok:
  assumes "fresh_service sv" and "hooks_ok s"
  shows "hooks_ok (snd (run_state (run_rwlock_op sv api that op) s))"
proof (cases op)
  case (RInit key)
  then show ?thesis by (simp add: rwlock_init_hooks_ok [OF assms])
next
  case RDestroy
  then show ?thesis by (simp add: rwlock_destroy_hooks_ok [OF assms(2)])
qed (rule hooks_ok_kept [OF assms(2)];
     use hooks_live [OF assms(2)] in \<open>auto simp: hook_simps split: option.split\<close>)+

lemma prlock_op_hooks_ok:
  assumes "fresh_service sv" and "hooks_ok s"
  shows "hooks_ok (snd (run_state (run_prlock_op sv api that op) s))"
proof (cases op)
  case (PInit key)
  then show ?thesis by (simp add: prlock_init_hooks_ok [OF assms])
next
  case PDestroy
  then show ?thesis by (simp add: prlock_destroy_hooks_ok [OF assms(2)])
qed (rule hooks_ok_kept [OF assms(2)];
     use hooks_live [OF assms(2)] in \<open>auto simp: hook_simps split: option.split\<close>)+

lemma cond_op_hooks_ok:
  assumes "fresh_service sv" and "hooks_ok s"
  shows "hooks_ok (snd (run_state (run_cond_op sv api that op) s))"
proof (cases op)
  case (CInit key)
  then show ?thesis by (simp add: cond_init_hooks_ok [OF assms])
next
  case CDestroy
  then show ?thesis by (simp add: cond_destroy_hooks_ok [OF assms(2)])
qed (rule hooks_ok_kept [OF assms(2)];
     use hooks_live [OF assms(2)] in \<open>auto simp: hook_simps split: option.split\<close>)+

lemma sync_call_hooks_ok:
  assumes "fresh_service sv" and "hooks_ok s"
  shows "hooks_ok (snd (run_state (run_sync_call sv api c) s))"
  by (cases c)
    (simp_all add: mutex_op_hooks_ok rwlock_op_hooks_ok prlock_op_hooks_ok cond_op_hooks_ok assms)

text \<open>C34. In every program of synchronisation calls that starts with all hooks null, in whatever order it
  initialises, uses and destroys its objects, the service is only ever asked about instruments that are alive, every hook is a live
  instrument, and no two objects share one, provided that the service does not hand out an
  instrument twice.
\<close>
theorem sync_hooks_live:
  assumes "fresh_service sv" and "trace s = []" and "mem s = Map.empty"
  shows "hooks_ok (snd (run_state (run_program (run_sync_call sv api) n p []) s))"
  by (rule run_program_invariant [where I = hooks_ok], rule sync_call_hooks_ok [OF assms(1)])
    (simp_all add: hooks_ok_def assms)

text \<open>A service that hands out the length of its history, unless that instrument is alive.\<close>

definition hand_out :: "history \<Rightarrow> psi option" where
  "hand_out h = (if length h \<in> live h then None else Some (length h))"

definition demo_threads :: thread_service where
  "demo_threads = \<lparr>init_mutex = (\<lambda>k p h. hand_out h), start_mutex_wait = (\<lambda>p op src h. Some 5),
     init_rwlock = (\<lambda>k p h. hand_out h), start_rwlock_rdwait = (\<lambda>p op src h. Some 6),
     start_rwlock_wrwait = (\<lambda>p op src h. None), init_cond = (\<lambda>k p h. hand_out h),
     start_cond_wait = (\<lambda>p m op src h. Some 7), spawn_thread = (\<lambda>k t a f x h. 0),
     get_thread = (\<lambda>h. Some 1)\<rparr>"

lemma demo_threads_fresh: "fresh_service demo_threads"
  by (auto simp: fresh_service_def demo_threads_def hand_out_def split: if_splits)

definition demo_thread_api :: "nat thread_api" where
  "demo_thread_api = \<lparr>
     mutexes = \<lparr>nat_my_mutex_init = (\<lambda>p a w. (0, w)), nat_my_mutex_destroy = (\<lambda>p w. (0, w)),
       nat_my_mutex_lock = (\<lambda>p w. (0, w + 1)), nat_my_mutex_trylock = (\<lambda>p w. (16, w)),
       nat_my_mutex_unlock = (\<lambda>p w. (0, w - 1))\<rparr>,
     rwlocks = \<lparr>nat_native_rw_init = (\<lambda>p w. (0, w)), nat_native_rw_destroy = (\<lambda>p w. (0, w)),
       nat_native_rw_rdlock = (\<lambda>p w. (0, w)), nat_native_rw_wrlock = (\<lambda>p w. (0, w)),
       nat_native_rw_tryrdlock = (\<lambda>p w. (0, w)), nat_native_rw_trywrlock = (\<lambda>p w. (0, w)),
       nat_native_rw_unlock = (\<lambda>p w. (0, w))\<rparr>,
     prlocks = \<lparr>nat_rw_pr_init = (\<lambda>p w. (0, w)), nat_rw_pr_destroy = (\<lambda>p w. (0, w)),
       nat_rw_pr_rdlock = (\<lambda>p w. (0, w)), nat_rw_pr_wrlock = (\<lambda>p w. (0, w)),
       nat_rw_pr_unlock = (\<lambda>p w. (0, w))\<rparr>,
     conds = \<lparr>nat_native_cond_init = (\<lambda>p w. (0, w)), nat_native_cond_destroy = (\<lambda>p w. (0, w)),
       nat_my_cond_wait = (\<lambda>c m w. (0, w)), nat_my_cond_timedwait = (\<lambda>c m t w. (110, w)),
       nat_native_cond_signal = (\<lambda>c w. (0, w)), nat_native_cond_broadcast = (\<lambda>c w. (0, w))\<rparr>\<rparr>"

definition demo_sync :: "int list \<Rightarrow> sync_call option" where
  "demo_sync h = (if length h = 0 then Some (OnMutex 64 (MInit 1 0))
     else if length h = 1 then Some (OnMutex 64 (MLock (''demo.c'', 1)))
     else if length h = 2 then Some (OnMutex 64 MUnlock)
     else if length h = 3 then Some (OnMutex 64 MDestroy)
     else None)"

definition demo_thread_state :: "(nat, hooks, thread_event) psi_state" where
  "demo_thread_state = \<lparr>os = 0, mem = Map.empty, trace = []\<rparr>"

theorem sync_hooks_live_witness:
  "hooks_ok (snd (run_state (run_program (run_sync_call demo_threads demo_thread_api) 9 demo_sync [])
      demo_thread_state))
   \<and> trace (snd (run_state (run_program (run_sync_call demo_threads demo_thread_api) 9 demo_sync [])
      demo_thread_state)) =
       [InitMutex 1 64 (Some 0), TSys ''my_mutex_init'',
        StartMutexWait 0 PSI_MUTEX_LOCK (''demo.c'', 1) (Some 5), TSys ''my_mutex_lock'',
        EndMutexWait 5 0, UnlockMutex 0, TSys ''my_mutex_unlock'',
        DestroyMutex 0, TSys ''my_mutex_destroy'']"
proof
  show "hooks_ok (snd (run_state (run_program (run_sync_call demo_threads demo_thread_api) 9 demo_sync [])
      demo_thread_state))"
    by (rule sync_hooks_live [OF demo_threads_fresh]) (simp_all add: demo_thread_state_def)
  show "trace (snd (run_state (run_program (run_sync_call demo_threads demo_thread_api) 9 demo_sync [])
      demo_thread_state)) =
       [InitMutex 1 64 (Some 0), TSys ''my_mutex_init'',
        StartMutexWait 0 PSI_MUTEX_LOCK (''demo.c'', 1) (Some 5), TSys ''my_mutex_lock'',
        EndMutexWait 5 0, UnlockMutex 0, TSys ''my_mutex_unlock'',
        DestroyMutex 0, TSys ''my_mutex_destroy'']"
    by (simp add: hook_simps demo_thread_state_def demo_sync_def demo_threads_def demo_thread_api_def
        hand_out_def)
qed

end
