(* ===== verification/PSI_Statement.thy ===== *)
theory PSI_Statement
  imports PSI "HOL-Library.Multiset"
begin

text \<open>
  \<^verbatim>\<open>mysql/psi/mysql_statement.h\<close>, \<^verbatim>\<open>mysql_transaction.h\<close>, \<^verbatim>\<open>mysql_stage.h\<close>, \<^verbatim>\<open>mysql_table.h\<close>,
  \<^verbatim>\<open>mysql_idle.h\<close>, \<^verbatim>\<open>mysql_mdl.h\<close>, \<^verbatim>\<open>mysql_sp.h\<close>, \<^verbatim>\<open>mysql_ps.h\<close> and \<^verbatim>\<open>mysql_memory.h\<close>: the calls a
  server makes around the life of a statement, a transaction, a table lock, an idle wait, a metadata lock,
  a stored program and a prepared statement.  There is no native call here: a locker (or the instrument
  of a metadata lock or a prepared statement) is kept by the caller in a variable, from the call that
  grants it to the call that ends it.  A null pointer is \<open>None\<close>.  \<open>mem\<close> holds the progress objects of the
  stages.
\<close>

section \<open>Events and the service\<close>

datatype PSI_table_io_operation =
  PSI_TABLE_FETCH_ROW | PSI_TABLE_WRITE_ROW | PSI_TABLE_UPDATE_ROW | PSI_TABLE_DELETE_ROW

datatype PSI_table_lock_operation = PSI_TABLE_LOCK | PSI_TABLE_EXTERNAL_LOCK

datatype statement_info =
  StatementText ptr nat | LockTime ulonglong | RowsSent ulonglong | RowsExamined ulonglong

datatype transaction_info =
    Gtid ptr ptr | Xid ptr int | XaState int | Trxid ptr
  | Savepoints ulong | RollbackToSavepoint ulong | ReleaseSavepoint ulong

datatype stage_call = RegisterStage ptr ptr int | StartStage nat loc "ptr option" | EndStage

datatype table_call =
    StartTableLockWait psi PSI_table_lock_operation nat loc "locker option"
  | EndTableLockWait locker | UnlockTable psi

datatype idle_call = StartIdleWait loc "locker option" | EndIdleWait locker

datatype mdl_call =
  CreateMdl ptr ptr nat nat nat loc "psi option" | SetMdlStatus psi nat | DestroyMdl psi

datatype sp_call =
    StartSp "ptr option" "locker option" | EndSp locker
  | DropSp nat ptr nat ptr nat | GetSpShare nat ptr nat ptr nat "ptr option"

datatype ps_call =
    CreatePs ptr nat locker ptr size_t ptr size_t "psi option"
  | ExecutePs locker psi | DestroyPs psi | RepreparePs psi

datatype server_event =
    RegisterStatement ptr ptr int
  | GetStatementLocker nat ptr "ptr option" "locker option"
  | StartStatement locker ptr nat loc
  | RefineStatement locker nat "locker option"
  | SetStatement locker statement_info
  | EndStatement locker ptr
  | DigestStart locker "locker option"
  | DigestEnd locker ptr
  | GetTransactionLocker ptr ptr int bool bool "locker option"
  | StartTransaction locker loc
  | SetTransaction locker transaction_info
  | EndTransaction locker bool
  | Stage stage_call
  | Table table_call
  | Idling idle_call
  | Mdl mdl_call
  | Sp sp_call
  | Ps ps_call
  | RegisterMemory ptr ptr int

type_synonym server_history = "server_event list"

record statement_service =
  get_thread_statement_locker :: "nat \<Rightarrow> ptr \<Rightarrow> ptr option \<Rightarrow> server_history \<Rightarrow> locker option"
  refine_statement :: "locker \<Rightarrow> nat \<Rightarrow> server_history \<Rightarrow> locker option"
  digest_start :: "locker \<Rightarrow> server_history \<Rightarrow> locker option"
  get_thread_transaction_locker ::
    "ptr \<Rightarrow> ptr \<Rightarrow> int \<Rightarrow> bool \<Rightarrow> bool \<Rightarrow> server_history \<Rightarrow> locker option"
  start_stage :: "nat \<Rightarrow> loc \<Rightarrow> server_history \<Rightarrow> ptr option"

record waits_service =
  start_table_lock_wait :: "psi \<Rightarrow> PSI_table_lock_operation \<Rightarrow> nat \<Rightarrow> loc \<Rightarrow> server_history \<Rightarrow> locker option"
  start_idle_wait :: "loc \<Rightarrow> server_history \<Rightarrow> locker option"
  create_metadata_lock :: "ptr \<Rightarrow> ptr \<Rightarrow> nat \<Rightarrow> nat \<Rightarrow> nat \<Rightarrow> loc \<Rightarrow> server_history \<Rightarrow> psi option"
  start_sp :: "ptr option \<Rightarrow> server_history \<Rightarrow> locker option"
  get_sp_share :: "nat \<Rightarrow> ptr \<Rightarrow> nat \<Rightarrow> ptr \<Rightarrow> nat \<Rightarrow> server_history \<Rightarrow> ptr option"
  create_prepared_stmt ::
    "ptr \<Rightarrow> nat \<Rightarrow> locker \<Rightarrow> ptr \<Rightarrow> size_t \<Rightarrow> ptr \<Rightarrow> size_t \<Rightarrow> server_history \<Rightarrow> psi option"

record PSI_stage_progress =
  m_work_completed :: ulonglong
  m_work_estimated :: ulonglong

type_synonym progress_mem = "ptr \<Rightarrow> PSI_stage_progress"
type_synonym ('o, 'a) server_prog = "('o, progress_mem, server_event, 'a) psi_prog"

section \<open>Statements\<close>

definition inline_mysql_statement_register :: "ptr \<Rightarrow> ptr \<Rightarrow> int \<Rightarrow> ('o, unit) server_prog" where
  "inline_mysql_statement_register category info cnt = tell (RegisterStatement category info cnt)"

definition inline_mysql_digest_start ::
  "statement_service \<Rightarrow> locker option \<Rightarrow> ('o, locker option) server_prog"
where
  "inline_mysql_digest_start sv locker =
     (case locker of
        Some l \<Rightarrow> ask (digest_start sv l) (DigestStart l)
      | None \<Rightarrow> State_Monad.return None)"

definition inline_mysql_digest_end :: "locker option \<Rightarrow> ptr \<Rightarrow> ('o, unit) server_prog" where
  "inline_mysql_digest_end locker digest = when_some locker (\<lambda>l. tell (DigestEnd l digest))"

definition inline_mysql_start_statement ::
  "statement_service \<Rightarrow> nat \<Rightarrow> ptr \<Rightarrow> nat \<Rightarrow> ptr \<Rightarrow> ptr option \<Rightarrow> loc \<Rightarrow> ('o, locker option) server_prog"
where
  "inline_mysql_start_statement sv key db db_len charset sp_share src = do {
     locker \<leftarrow> ask (get_thread_statement_locker sv key charset sp_share) (GetStatementLocker key charset sp_share);
     when_some locker (\<lambda>l. tell (StartStatement l db db_len src));
     State_Monad.return locker }"

definition inline_mysql_refine_statement ::
  "statement_service \<Rightarrow> locker option \<Rightarrow> nat \<Rightarrow> ('o, locker option) server_prog"
where
  "inline_mysql_refine_statement sv locker key =
     (case locker of
        Some l \<Rightarrow> ask (refine_statement sv l key) (RefineStatement l key)
      | None \<Rightarrow> State_Monad.return None)"

definition inline_mysql_set_statement_text :: "locker option \<Rightarrow> ptr \<Rightarrow> nat \<Rightarrow> ('o, unit) server_prog" where
  "inline_mysql_set_statement_text locker txt text_len =
     when_some locker (\<lambda>l. tell (SetStatement l (StatementText txt text_len)))"

definition inline_mysql_set_statement_lock_time :: "locker option \<Rightarrow> ulonglong \<Rightarrow> ('o, unit) server_prog" where
  "inline_mysql_set_statement_lock_time locker cnt = when_some locker (\<lambda>l. tell (SetStatement l (LockTime cnt)))"

definition inline_mysql_set_statement_rows_sent :: "locker option \<Rightarrow> ulonglong \<Rightarrow> ('o, unit) server_prog" where
  "inline_mysql_set_statement_rows_sent locker cnt = when_some locker (\<lambda>l. tell (SetStatement l (RowsSent cnt)))"

definition inline_mysql_set_statement_rows_examined :: "locker option \<Rightarrow> ulonglong \<Rightarrow> ('o, unit) server_prog" where
  "inline_mysql_set_statement_rows_examined locker cnt =
     when_some locker (\<lambda>l. tell (SetStatement l (RowsExamined cnt)))"

definition inline_mysql_end_statement :: "locker option \<Rightarrow> ptr \<Rightarrow> ('o, unit) server_prog" where
  "inline_mysql_end_statement locker stmt_da = do {
     tell (Stage EndStage);
     when_some locker (\<lambda>l. tell (EndStatement l stmt_da)) }"

section \<open>Transactions\<close>

definition inline_mysql_start_transaction ::
  "statement_service \<Rightarrow> ptr \<Rightarrow> ptr \<Rightarrow> int \<Rightarrow> bool \<Rightarrow> bool \<Rightarrow> loc \<Rightarrow> ('o, locker option) server_prog"
where
  "inline_mysql_start_transaction sv xid trxid isolation_level read_only autocommit src = do {
     locker \<leftarrow> ask (get_thread_transaction_locker sv xid trxid isolation_level read_only autocommit)
       (GetTransactionLocker xid trxid isolation_level read_only autocommit);
     when_some locker (\<lambda>l. tell (StartTransaction l src));
     State_Monad.return locker }"

definition inline_mysql_set_transaction_gtid :: "locker option \<Rightarrow> ptr \<Rightarrow> ptr \<Rightarrow> ('o, unit) server_prog" where
  "inline_mysql_set_transaction_gtid locker sid gtid_spec =
     when_some locker (\<lambda>l. tell (SetTransaction l (Gtid sid gtid_spec)))"

definition inline_mysql_set_transaction_xid :: "locker option \<Rightarrow> ptr \<Rightarrow> int \<Rightarrow> ('o, unit) server_prog" where
  "inline_mysql_set_transaction_xid locker xid xa_state = when_some locker (\<lambda>l. tell (SetTransaction l (Xid xid xa_state)))"

definition inline_mysql_set_transaction_xa_state :: "locker option \<Rightarrow> int \<Rightarrow> ('o, unit) server_prog" where
  "inline_mysql_set_transaction_xa_state locker xa_state = when_some locker (\<lambda>l. tell (SetTransaction l (XaState xa_state)))"

definition inline_mysql_set_transaction_trxid :: "locker option \<Rightarrow> ptr \<Rightarrow> ('o, unit) server_prog" where
  "inline_mysql_set_transaction_trxid locker trxid = when_some locker (\<lambda>l. tell (SetTransaction l (Trxid trxid)))"

definition inline_mysql_inc_transaction_savepoints :: "locker option \<Rightarrow> ulong \<Rightarrow> ('o, unit) server_prog" where
  "inline_mysql_inc_transaction_savepoints locker cnt = when_some locker (\<lambda>l. tell (SetTransaction l (Savepoints cnt)))"

definition inline_mysql_inc_transaction_rollback_to_savepoint :: "locker option \<Rightarrow> ulong \<Rightarrow> ('o, unit) server_prog" where
  "inline_mysql_inc_transaction_rollback_to_savepoint locker cnt =
     when_some locker (\<lambda>l. tell (SetTransaction l (RollbackToSavepoint cnt)))"

definition inline_mysql_inc_transaction_release_savepoint :: "locker option \<Rightarrow> ulong \<Rightarrow> ('o, unit) server_prog" where
  "inline_mysql_inc_transaction_release_savepoint locker cnt =
     when_some locker (\<lambda>l. tell (SetTransaction l (ReleaseSavepoint cnt)))"

definition inline_mysql_rollback_transaction :: "locker option \<Rightarrow> ('o, unit) server_prog" where
  "inline_mysql_rollback_transaction locker = when_some locker (\<lambda>l. tell (EndTransaction l False))"

definition inline_mysql_commit_transaction :: "locker option \<Rightarrow> ('o, unit) server_prog" where
  "inline_mysql_commit_transaction locker = when_some locker (\<lambda>l. tell (EndTransaction l True))"

section \<open>Stages\<close>

definition inline_mysql_stage_register :: "ptr \<Rightarrow> ptr \<Rightarrow> int \<Rightarrow> ('o, unit) server_prog" where
  "inline_mysql_stage_register category info cnt = tell (Stage (RegisterStage category info cnt))"

definition inline_mysql_set_stage :: "statement_service \<Rightarrow> nat \<Rightarrow> loc \<Rightarrow> ('o, ptr option) server_prog" where
  "inline_mysql_set_stage sv key src = ask (start_stage sv key src) (\<lambda>p. Stage (StartStage key src p))"

definition inline_mysql_stage_set_work_completed :: "ptr option \<Rightarrow> ulonglong \<Rightarrow> ('o, unit) server_prog" where
  "inline_mysql_stage_set_work_completed progress val =
     when_some progress (\<lambda>p. set_mem (\<lambda>h. h(p := (h p)\<lparr>m_work_completed := val\<rparr>)))"

definition inline_mysql_stage_inc_work_completed :: "ptr option \<Rightarrow> ulonglong \<Rightarrow> ('o, unit) server_prog" where
  "inline_mysql_stage_inc_work_completed progress val =
     when_some progress (\<lambda>p. set_mem (\<lambda>h. h(p := (h p)\<lparr>m_work_completed := m_work_completed (h p) + val\<rparr>)))"

definition inline_mysql_stage_set_work_estimated :: "ptr option \<Rightarrow> ulonglong \<Rightarrow> ('o, unit) server_prog" where
  "inline_mysql_stage_set_work_estimated progress val =
     when_some progress (\<lambda>p. set_mem (\<lambda>h. h(p := (h p)\<lparr>m_work_estimated := val\<rparr>)))"

section \<open>Table locks, idle waits, metadata locks\<close>

definition inline_mysql_start_table_lock_wait ::
  "waits_service \<Rightarrow> psi option \<Rightarrow> PSI_table_lock_operation \<Rightarrow> nat \<Rightarrow> loc \<Rightarrow> ('o, locker option) server_prog"
where
  "inline_mysql_start_table_lock_wait sv table op flags src =
     (case table of
        Some p \<Rightarrow> ask (start_table_lock_wait sv p op flags src) (\<lambda>l. Table (StartTableLockWait p op flags src l))
      | None \<Rightarrow> State_Monad.return None)"

definition inline_mysql_end_table_lock_wait :: "locker option \<Rightarrow> ('o, unit) server_prog" where
  "inline_mysql_end_table_lock_wait locker = when_some locker (\<lambda>l. tell (Table (EndTableLockWait l)))"

definition inline_mysql_unlock_table :: "psi option \<Rightarrow> ('o, unit) server_prog" where
  "inline_mysql_unlock_table table = when_some table (\<lambda>p. tell (Table (UnlockTable p)))"

definition inline_mysql_start_idle_wait :: "waits_service \<Rightarrow> loc \<Rightarrow> ('o, locker option) server_prog" where
  "inline_mysql_start_idle_wait sv src = ask (start_idle_wait sv src) (\<lambda>l. Idling (StartIdleWait src l))"

definition inline_mysql_end_idle_wait :: "locker option \<Rightarrow> ('o, unit) server_prog" where
  "inline_mysql_end_idle_wait locker = when_some locker (\<lambda>l. tell (Idling (EndIdleWait l)))"

definition inline_mysql_mdl_create ::
  "waits_service \<Rightarrow> ptr \<Rightarrow> ptr \<Rightarrow> nat \<Rightarrow> nat \<Rightarrow> nat \<Rightarrow> loc \<Rightarrow> ('o, psi option) server_prog"
where
  "inline_mysql_mdl_create sv identity mdl_key mdl_type mdl_duration mdl_status src =
     ask (create_metadata_lock sv identity mdl_key mdl_type mdl_duration mdl_status src)
       (\<lambda>p. Mdl (CreateMdl identity mdl_key mdl_type mdl_duration mdl_status src p))"

definition inline_mysql_mdl_set_status :: "psi option \<Rightarrow> nat \<Rightarrow> ('o, unit) server_prog" where
  "inline_mysql_mdl_set_status lock mdl_status = when_some lock (\<lambda>p. tell (Mdl (SetMdlStatus p mdl_status)))"

definition inline_mysql_mdl_destroy :: "psi option \<Rightarrow> loc \<Rightarrow> ('o, unit) server_prog" where
  "inline_mysql_mdl_destroy lock src = when_some lock (\<lambda>p. tell (Mdl (DestroyMdl p)))"

definition inline_mysql_memory_register :: "ptr \<Rightarrow> ptr \<Rightarrow> int \<Rightarrow> ('o, unit) server_prog" where
  "inline_mysql_memory_register category info cnt = tell (RegisterMemory category info cnt)"

section \<open>Stored programs and prepared statements\<close>

definition inline_mysql_start_sp :: "waits_service \<Rightarrow> ptr option \<Rightarrow> ('o, locker option) server_prog" where
  "inline_mysql_start_sp sv sp_share = ask (start_sp sv sp_share) (\<lambda>l. Sp (StartSp sp_share l))"

definition inline_mysql_end_sp :: "locker option \<Rightarrow> ('o, unit) server_prog" where
  "inline_mysql_end_sp locker = when_some locker (\<lambda>l. tell (Sp (EndSp l)))"

definition inline_mysql_drop_sp :: "nat \<Rightarrow> ptr \<Rightarrow> nat \<Rightarrow> ptr \<Rightarrow> nat \<Rightarrow> ('o, unit) server_prog" where
  "inline_mysql_drop_sp sp_type schema_name schema_len object_name object_len =
     tell (Sp (DropSp sp_type schema_name schema_len object_name object_len))"

definition inline_mysql_get_sp_share ::
  "waits_service \<Rightarrow> nat \<Rightarrow> ptr \<Rightarrow> nat \<Rightarrow> ptr \<Rightarrow> nat \<Rightarrow> ('o, ptr option) server_prog"
where
  "inline_mysql_get_sp_share sv sp_type schema_name schema_len object_name object_len =
     ask (get_sp_share sv sp_type schema_name schema_len object_name object_len)
       (\<lambda>p. Sp (GetSpShare sp_type schema_name schema_len object_name object_len p))"

definition inline_mysql_create_prepared_stmt ::
  "waits_service \<Rightarrow> ptr \<Rightarrow> nat \<Rightarrow> locker option \<Rightarrow> ptr \<Rightarrow> size_t \<Rightarrow> ptr \<Rightarrow> size_t \<Rightarrow> ('o, psi option) server_prog"
where
  "inline_mysql_create_prepared_stmt sv identity stmt_id locker stmt_name name_len sqltext text_len =
     (case locker of
        None \<Rightarrow> State_Monad.return None
      | Some l \<Rightarrow> ask (create_prepared_stmt sv identity stmt_id l stmt_name name_len sqltext text_len)
          (\<lambda>p. Ps (CreatePs identity stmt_id l stmt_name name_len sqltext text_len p)))"

definition inline_mysql_execute_prepared_stmt :: "locker option \<Rightarrow> psi option \<Rightarrow> ('o, unit) server_prog" where
  "inline_mysql_execute_prepared_stmt locker prepared_stmt =
     when_some prepared_stmt (\<lambda>p. when_some locker (\<lambda>l. tell (Ps (ExecutePs l p))))"

definition inline_mysql_destroy_prepared_stmt :: "psi option \<Rightarrow> ('o, unit) server_prog" where
  "inline_mysql_destroy_prepared_stmt prepared_stmt = when_some prepared_stmt (\<lambda>p. tell (Ps (DestroyPs p)))"

definition inline_mysql_reprepare_prepared_stmt :: "psi option \<Rightarrow> ('o, unit) server_prog" where
  "inline_mysql_reprepare_prepared_stmt prepared_stmt = when_some prepared_stmt (\<lambda>p. tell (Ps (RepreparePs p)))"

section \<open>The life of a locker\<close>

text \<open>What the service has granted and not yet seen ended: a bag of pointers, each with the kind of thing it
  stands for.  A statement or transaction is first granted and then started.\<close>

datatype life_kind =
  StatementGranted | Statement | Digest | TransactionGranted | Transaction | TableWait | IdleWait | StoredProgram
  | MetadataLock | PreparedStatement

type_synonym life_key = "life_kind \<times> nat"

datatype life = Grant life_key | Use life_key | Move life_key "life_key option"

fun life_step :: "life_key multiset \<Rightarrow> life \<Rightarrow> life_key multiset option" where
  "life_step M (Grant x) = Some (add_mset x M)"
| "life_step M (Use x) = (if x \<in># M then Some M else None)"
| "life_step M (Move x y) =
     (if x \<in># M then Some ((M - {#x#}) + (case y of None \<Rightarrow> {#} | Some z \<Rightarrow> {#z#})) else None)"

fun life_run :: "life_key multiset \<Rightarrow> life list \<Rightarrow> life_key multiset option" where
  "life_run M [] = Some M"
| "life_run M (x # xs) = (case life_step M x of None \<Rightarrow> None | Some N \<Rightarrow> life_run N xs)"

lemma life_run_append: "life_run M (xs @ ys) = (case life_run M xs of None \<Rightarrow> None | Some N \<Rightarrow> life_run N ys)"
  by (induction xs arbitrary: M) (auto split: option.split)

definition granted :: "life_kind \<Rightarrow> nat option \<Rightarrow> life list" where
  "granted k l = (case l of None \<Rightarrow> [] | Some x \<Rightarrow> [Grant (k, x)])"

fun life_marks :: "server_event \<Rightarrow> life list" where
  "life_marks (GetStatementLocker key charset sp l) = granted StatementGranted l"
| "life_marks (StartStatement l db n src) = [Move (StatementGranted, l) (Some (Statement, l))]"
| "life_marks (RefineStatement l key r) = [Move (Statement, l) (map_option (Pair Statement) r)]"
| "life_marks (SetStatement l i) = [Use (Statement, l)]"
| "life_marks (EndStatement l da) = [Move (Statement, l) None]"
| "life_marks (DigestStart l d) = Use (Statement, l) # granted Digest d"
| "life_marks (DigestEnd d p) = [Move (Digest, d) None]"
| "life_marks (GetTransactionLocker xid trxid lev ro ac l) = granted TransactionGranted l"
| "life_marks (StartTransaction l src) = [Move (TransactionGranted, l) (Some (Transaction, l))]"
| "life_marks (SetTransaction l i) = [Use (Transaction, l)]"
| "life_marks (EndTransaction l b) = [Move (Transaction, l) None]"
| "life_marks (Table (StartTableLockWait p op flags src l)) = granted TableWait l"
| "life_marks (Table (EndTableLockWait l)) = [Move (TableWait, l) None]"
| "life_marks (Idling (StartIdleWait src l)) = granted IdleWait l"
| "life_marks (Idling (EndIdleWait l)) = [Move (IdleWait, l) None]"
| "life_marks (Mdl (CreateMdl a b c d e src p)) = granted MetadataLock p"
| "life_marks (Mdl (SetMdlStatus p st)) = [Use (MetadataLock, p)]"
| "life_marks (Mdl (DestroyMdl p)) = [Move (MetadataLock, p) None]"
| "life_marks (Sp (StartSp sh l)) = granted StoredProgram l"
| "life_marks (Sp (EndSp l)) = [Move (StoredProgram, l) None]"
| "life_marks (Ps (CreatePs a b l c d e f p)) = Use (Statement, l) # granted PreparedStatement p"
| "life_marks (Ps (ExecutePs l p)) = [Use (Statement, l), Use (PreparedStatement, p)]"
| "life_marks (Ps (DestroyPs p)) = [Move (PreparedStatement, p) None]"
| "life_marks (Ps (RepreparePs p)) = [Use (PreparedStatement, p)]"
| "life_marks e = []"

section \<open>A caller with variables\<close>

text \<open>The caller keeps its pointers in numbered variables.  A call that ends a life leaves the variable as it
  is, as the macros do; which variables are alive is known before the run (\<open>call_type\<close>).\<close>

datatype open_op =
    OpenStatement nat ptr nat ptr "ptr option" loc
  | OpenTransaction ptr ptr int bool bool loc
  | OpenTableWait "psi option" PSI_table_lock_operation nat loc
  | OpenIdleWait loc
  | OpenStoredProgram "ptr option"
  | OpenMetadataLock ptr ptr nat nat nat loc

datatype derive_op = OpenDigest | OpenPrepared ptr nat ptr size_t ptr size_t

datatype note_op = NoteStatement statement_info | NoteTransaction transaction_info | NoteStatus nat | NoteReprepare

datatype close_op =
    CloseStatement ptr | CloseDigest ptr | CloseTransaction bool | CloseTableWait | CloseIdleWait | CloseStoredProgram
  | CloseMetadataLock loc | ClosePrepared

datatype client_call =
    Open nat open_op | Derive nat nat derive_op | Refine nat nat | Inform nat note_op | Execute nat nat | Close nat close_op

fun open_kind :: "open_op \<Rightarrow> life_kind" where
  "open_kind (OpenStatement a b c d e f) = Statement"
| "open_kind (OpenTransaction a b c d e f) = Transaction"
| "open_kind (OpenTableWait a b c d) = TableWait"
| "open_kind (OpenIdleWait a) = IdleWait"
| "open_kind (OpenStoredProgram a) = StoredProgram"
| "open_kind (OpenMetadataLock a b c d e f) = MetadataLock"

fun derive_kind :: "derive_op \<Rightarrow> life_kind" where
  "derive_kind OpenDigest = Digest"
| "derive_kind (OpenPrepared a b c d e f) = PreparedStatement"

fun note_kind :: "note_op \<Rightarrow> life_kind" where
  "note_kind (NoteStatement i) = Statement"
| "note_kind (NoteTransaction i) = Transaction"
| "note_kind (NoteStatus n) = MetadataLock"
| "note_kind NoteReprepare = PreparedStatement"

fun close_kind :: "close_op \<Rightarrow> life_kind" where
  "close_kind (CloseStatement da) = Statement"
| "close_kind (CloseDigest d) = Digest"
| "close_kind (CloseTransaction b) = Transaction"
| "close_kind CloseTableWait = TableWait"
| "close_kind CloseIdleWait = IdleWait"
| "close_kind CloseStoredProgram = StoredProgram"
| "close_kind (CloseMetadataLock src) = MetadataLock"
| "close_kind ClosePrepared = PreparedStatement"

type_synonym services = "statement_service \<times> waits_service"

fun open_call :: "services \<Rightarrow> open_op \<Rightarrow> ('o, nat option) server_prog" where
  "open_call (sv, wv) (OpenStatement key db n cs sp src) = inline_mysql_start_statement sv key db n cs sp src"
| "open_call (sv, wv) (OpenTransaction xid trxid lev ro ac src) = inline_mysql_start_transaction sv xid trxid lev ro ac src"
| "open_call (sv, wv) (OpenTableWait p op flags src) = inline_mysql_start_table_lock_wait wv p op flags src"
| "open_call (sv, wv) (OpenIdleWait src) = inline_mysql_start_idle_wait wv src"
| "open_call (sv, wv) (OpenStoredProgram sh) = inline_mysql_start_sp wv sh"
| "open_call (sv, wv) (OpenMetadataLock a b c d e src) = inline_mysql_mdl_create wv a b c d e src"

fun derive_call :: "services \<Rightarrow> derive_op \<Rightarrow> locker option \<Rightarrow> ('o, nat option) server_prog" where
  "derive_call (sv, wv) OpenDigest l = inline_mysql_digest_start sv l"
| "derive_call (sv, wv) (OpenPrepared a b c d e f) l = inline_mysql_create_prepared_stmt wv a b l c d e f"

fun note_statement :: "statement_info \<Rightarrow> locker option \<Rightarrow> ('o, unit) server_prog" where
  "note_statement (StatementText t n) l = inline_mysql_set_statement_text l t n"
| "note_statement (LockTime n) l = inline_mysql_set_statement_lock_time l n"
| "note_statement (RowsSent n) l = inline_mysql_set_statement_rows_sent l n"
| "note_statement (RowsExamined n) l = inline_mysql_set_statement_rows_examined l n"

fun note_transaction :: "transaction_info \<Rightarrow> locker option \<Rightarrow> ('o, unit) server_prog" where
  "note_transaction (Gtid sid spec) l = inline_mysql_set_transaction_gtid l sid spec"
| "note_transaction (Xid xid st) l = inline_mysql_set_transaction_xid l xid st"
| "note_transaction (XaState st) l = inline_mysql_set_transaction_xa_state l st"
| "note_transaction (Trxid p) l = inline_mysql_set_transaction_trxid l p"
| "note_transaction (Savepoints n) l = inline_mysql_inc_transaction_savepoints l n"
| "note_transaction (RollbackToSavepoint n) l = inline_mysql_inc_transaction_rollback_to_savepoint l n"
| "note_transaction (ReleaseSavepoint n) l = inline_mysql_inc_transaction_release_savepoint l n"

fun note_call :: "note_op \<Rightarrow> nat option \<Rightarrow> ('o, unit) server_prog" where
  "note_call (NoteStatement i) l = note_statement i l"
| "note_call (NoteTransaction i) l = note_transaction i l"
| "note_call (NoteStatus st) l = inline_mysql_mdl_set_status l st"
| "note_call NoteReprepare l = inline_mysql_reprepare_prepared_stmt l"

fun close_call :: "close_op \<Rightarrow> nat option \<Rightarrow> ('o, unit) server_prog" where
  "close_call (CloseStatement da) l = inline_mysql_end_statement l da"
| "close_call (CloseDigest d) l = inline_mysql_digest_end l d"
| "close_call (CloseTransaction b) l =
     (if b then inline_mysql_commit_transaction l else inline_mysql_rollback_transaction l)"
| "close_call CloseTableWait l = inline_mysql_end_table_lock_wait l"
| "close_call CloseIdleWait l = inline_mysql_end_idle_wait l"
| "close_call CloseStoredProgram l = inline_mysql_end_sp l"
| "close_call (CloseMetadataLock src) l = inline_mysql_mdl_destroy l src"
| "close_call ClosePrepared l = inline_mysql_destroy_prepared_stmt l"

type_synonym variables = "nat option list"

fun do_call :: "services \<Rightarrow> client_call \<Rightarrow> variables \<Rightarrow> ('o, variables) server_prog" where
  "do_call sv (Open i p) env = do { l \<leftarrow> open_call sv p; State_Monad.return (env[i := l]) }"
| "do_call sv (Derive i j d) env = do { l \<leftarrow> derive_call sv d (env ! j); State_Monad.return (env[i := l]) }"
| "do_call sv (Refine i key) env =
     do { l \<leftarrow> inline_mysql_refine_statement (fst sv) (env ! i) key; State_Monad.return (env[i := l]) }"
| "do_call sv (Inform i n) env = do { note_call n (env ! i); State_Monad.return env }"
| "do_call sv (Execute i j) env =
     do { inline_mysql_execute_prepared_stmt (env ! j) (env ! i); State_Monad.return env }"
| "do_call sv (Close i c) env = do { close_call c (env ! i); State_Monad.return env }"

type_synonym variable_types = "life_kind option list"

fun call_type :: "client_call \<Rightarrow> variable_types \<Rightarrow> variable_types option" where
  "call_type (Open i p) ty = (if i < length ty \<and> ty ! i = None then Some (ty[i := Some (open_kind p)]) else None)"
| "call_type (Derive i j d) ty =
     (if i < length ty \<and> j < length ty \<and> ty ! i = None \<and> ty ! j = Some Statement
      then Some (ty[i := Some (derive_kind d)]) else None)"
| "call_type (Refine i key) ty = (if i < length ty \<and> ty ! i = Some Statement then Some ty else None)"
| "call_type (Inform i n) ty = (if i < length ty \<and> ty ! i = Some (note_kind n) then Some ty else None)"
| "call_type (Execute i j) ty =
     (if i < length ty \<and> j < length ty \<and> ty ! i = Some PreparedStatement \<and> ty ! j = Some Statement then Some ty else None)"
| "call_type (Close i c) ty =
     (if i < length ty \<and> ty ! i = Some (close_kind c) then Some (ty[i := None]) else None)"

text \<open>What the variables hold that is alive.\<close>

definition held_by :: "life_kind option \<times> nat option \<Rightarrow> life_key list" where
  "held_by v = (case v of (Some k, Some l) \<Rightarrow> [(k, l)] | _ \<Rightarrow> [])"

definition held :: "variable_types \<Rightarrow> variables \<Rightarrow> life_key multiset" where
  "held ty env = mset (concat (map held_by (zip ty env)))"

lemma concat_update:
  "i < length xs \<Longrightarrow> mset (concat (map f (xs[i := y]))) + mset (f (xs ! i)) = mset (concat (map f xs)) + mset (f y)"
  by (subst (3) id_take_nth_drop [of i xs], simp, subst upd_conv_take_nth_drop, simp) (simp add: ac_simps)

lemma held_update:
  assumes "length env = length ty" "i < length ty"
  shows "held (ty[i := t]) (env[i := e]) + mset (held_by (ty ! i, env ! i)) = held ty env + mset (held_by (t, e))"
  using concat_update [of i "zip ty env" held_by "(t, e)"] assms by (simp add: held_def update_zip)

lemma held_open: "length env = length ty \<Longrightarrow> i < length ty \<Longrightarrow> ty ! i = None \<Longrightarrow>
    held (ty[i := t]) (env[i := e]) = held ty env + mset (held_by (t, e))"
  using held_update [of env ty i t e] by (simp add: held_by_def)

lemma held_mem: "length env = length ty \<Longrightarrow> i < length ty \<Longrightarrow> ty ! i = Some k \<Longrightarrow> env ! i = Some l \<Longrightarrow> (k, l) \<in># held ty env"
  using held_update [of env ty i None None] by (auto simp: held_by_def dest: union_single_eq_member)

lemma held_change: "length env = length ty \<Longrightarrow> i < length ty \<Longrightarrow> ty ! i = Some k \<Longrightarrow> env ! i = Some l \<Longrightarrow>
    held (ty[i := t]) (env[i := e]) = held ty env - {#(k, l)#} + mset (held_by (t, e))"
  using held_update [of env ty i t e] held_mem [of env ty i k l]
  by (simp add: held_by_def) (metis add_mset_remove_trivial diff_union_single_conv union_commute)

section \<open>The contract of the life-cycle calls\<close>

text \<open>A script of calls, and the types of its variables.\<close>

fun script :: "('c \<Rightarrow> variables \<Rightarrow> ('s, variables) state) \<Rightarrow> 'c list \<Rightarrow> variables \<Rightarrow> ('s, variables) state" where
  "script call [] env = State_Monad.return env"
| "script call (c # cs) env = do { env' \<leftarrow> call c env; script call cs env' }"

fun script_type :: "('c \<Rightarrow> variable_types \<Rightarrow> variable_types option) \<Rightarrow> 'c list \<Rightarrow> variable_types \<Rightarrow> variable_types option"
where
  "script_type typed [] ty = Some ty"
| "script_type typed (c # cs) ty = (case typed c ty of None \<Rightarrow> None | Some ty' \<Rightarrow> script_type typed cs ty')"

text \<open>A family of calls on variables, the typing of the variables, and the marks of the events: a call that
  the typing allows adds events that a checker of lives accepts, from what the variables held before to
  what they hold after.\<close>

locale life_calls =
  fixes call :: "'c \<Rightarrow> variables \<Rightarrow> ('o, 'm, 'e, variables) psi_prog"
    and typed :: "'c \<Rightarrow> variable_types \<Rightarrow> variable_types option"
    and marks :: "'e \<Rightarrow> life list"
  assumes call_lives: "\<lbrakk>typed c ty = Some ty'; length env = length ty\<rbrakk> \<Longrightarrow>
      \<exists>es. trace (snd (run_state (call c env) s)) = trace s @ es
        \<and> length (fst (run_state (call c env) s)) = length ty'
        \<and> life_run (held ty env) (concat (map marks es)) = Some (held ty' (fst (run_state (call c env) s)))"
begin

lemma script_lives:
  "script_type typed cs ty = Some ty' \<Longrightarrow> length env = length ty \<Longrightarrow>
     \<exists>es. trace (snd (run_state (script call cs env) s)) = trace s @ es
       \<and> life_run (held ty env) (concat (map marks es)) = Some (held ty' (fst (run_state (script call cs env) s)))"
proof (induction cs arbitrary: ty env s)
  case Nil
  then show ?case by (simp add: prog_simps)
next
  case (Cons c cs)
  from Cons.prems(1) obtain ty1 where ty1: "typed c ty = Some ty1" "script_type typed cs ty1 = Some ty'"
    by (auto split: option.splits)
  let ?env = "fst (run_state (call c env) s)" and ?s = "snd (run_state (call c env) s)"
  obtain es where es: "trace ?s = trace s @ es" "length ?env = length ty1"
      "life_run (held ty env) (concat (map marks es)) = Some (held ty1 ?env)"
    using call_lives [OF ty1(1) Cons.prems(2), of s] by blast
  obtain fs where "trace (snd (run_state (script call cs ?env) ?s)) = trace ?s @ fs"
      "life_run (held ty1 ?env) (concat (map marks fs)) = Some (held ty' (fst (run_state (script call cs ?env) ?s)))"
    using Cons.IH [OF ty1(2) es(2)] by blast
  with es show ?case
    by (intro exI [of _ "es @ fs"]) (simp add: prog_simps life_run_append)
qed

end

section \<open>The calls of the headers keep the contract\<close>

text \<open>What a call does to the trace, and the lives it marks.\<close>

definition yields :: "life_key multiset \<Rightarrow> ('a \<Rightarrow> life_key multiset) \<Rightarrow> ('o, 'a) server_prog \<Rightarrow> bool" where
  "yields M N x \<longleftrightarrow> (\<forall>s. \<exists>es. trace (snd (run_state x s)) = trace s @ es \<and>
     life_run M (concat (map life_marks es)) = Some (N (fst (run_state x s))))"

lemma yieldsE:
  assumes "yields M N x"
  obtains es where "trace (snd (run_state x s)) = trace s @ es"
    "life_run M (concat (map life_marks es)) = Some (N (fst (run_state x s)))"
  using assms by (auto simp: yields_def)

lemmas life_simps = yields_def prog_simps granted_def held_by_def

lemmas statement_defs = inline_mysql_start_statement_def inline_mysql_digest_start_def inline_mysql_digest_end_def
  inline_mysql_refine_statement_def inline_mysql_set_statement_text_def inline_mysql_set_statement_lock_time_def
  inline_mysql_set_statement_rows_sent_def inline_mysql_set_statement_rows_examined_def inline_mysql_end_statement_def

lemmas transaction_defs = inline_mysql_start_transaction_def inline_mysql_set_transaction_gtid_def
  inline_mysql_set_transaction_xid_def inline_mysql_set_transaction_xa_state_def inline_mysql_set_transaction_trxid_def
  inline_mysql_inc_transaction_savepoints_def inline_mysql_inc_transaction_rollback_to_savepoint_def
  inline_mysql_inc_transaction_release_savepoint_def inline_mysql_rollback_transaction_def
  inline_mysql_commit_transaction_def

lemmas wait_defs = inline_mysql_start_table_lock_wait_def inline_mysql_end_table_lock_wait_def
  inline_mysql_start_idle_wait_def inline_mysql_end_idle_wait_def inline_mysql_mdl_create_def
  inline_mysql_mdl_set_status_def inline_mysql_mdl_destroy_def inline_mysql_start_sp_def inline_mysql_end_sp_def
  inline_mysql_create_prepared_stmt_def inline_mysql_execute_prepared_stmt_def inline_mysql_destroy_prepared_stmt_def
  inline_mysql_reprepare_prepared_stmt_def

lemma open_yields: "yields M (\<lambda>l. M + mset (held_by (Some (open_kind p), l))) (open_call sv p)"
proof (cases p)
  case (OpenTableWait t op flags src)
  then show ?thesis
    by (cases t; cases sv) (auto simp: life_simps inline_mysql_start_table_lock_wait_def split: option.split)
qed (cases sv; auto simp: life_simps inline_mysql_start_statement_def inline_mysql_start_transaction_def
    inline_mysql_start_idle_wait_def inline_mysql_start_sp_def inline_mysql_mdl_create_def
    when_some_def split: option.split)+

lemma derive_yields:
  "(\<And>x. l = Some x \<Longrightarrow> (Statement, x) \<in># M) \<Longrightarrow>
     yields M (\<lambda>d. M + mset (held_by (Some (derive_kind p), d))) (derive_call sv p l)"
  by (cases sv; cases p; cases l)
    (auto simp: life_simps inline_mysql_digest_start_def inline_mysql_create_prepared_stmt_def split: option.split)

lemma refine_yields:
  "(\<And>x. l = Some x \<Longrightarrow> (Statement, x) \<in># M) \<Longrightarrow>
     yields M (\<lambda>r. M - mset (held_by (Some Statement, l)) + mset (held_by (Some Statement, r)))
       (inline_mysql_refine_statement sv l key)"
  by (cases l) (auto simp: life_simps inline_mysql_refine_statement_def split: option.split)

lemma note_yields:
  assumes "\<And>x. l = Some x \<Longrightarrow> (note_kind n, x) \<in># M"
  shows "yields M (\<lambda>u. M) (note_call n l)"
proof (cases n)
  case (NoteStatement i)
  with assms show ?thesis by (cases i; cases l) (auto simp: life_simps statement_defs)
next
  case (NoteTransaction i)
  with assms show ?thesis by (cases i; cases l) (auto simp: life_simps transaction_defs)
qed (use assms in \<open>cases l; auto simp: life_simps wait_defs\<close>)+

lemma execute_yields:
  "(\<And>x. l = Some x \<Longrightarrow> (Statement, x) \<in># M) \<Longrightarrow> (\<And>x. p = Some x \<Longrightarrow> (PreparedStatement, x) \<in># M) \<Longrightarrow>
     yields M (\<lambda>u. M) (inline_mysql_execute_prepared_stmt l p)"
  by (cases l; cases p) (auto simp: life_simps wait_defs)

lemma close_yields:
  assumes "\<And>x. l = Some x \<Longrightarrow> (close_kind c, x) \<in># M"
  shows "yields M (\<lambda>u. M - mset (held_by (Some (close_kind c), l))) (close_call c l)"
  using assms by (cases c; cases l) (auto simp: life_simps statement_defs transaction_defs wait_defs)

lemma held_switch:
  assumes "length env = length ty" "i < length ty"
  shows "held (ty[i := t]) (env[i := e]) = held ty env - mset (held_by (ty ! i, env ! i)) + mset (held_by (t, e))"
proof (cases "held_by (ty ! i, env ! i)")
  case Nil
  with held_update [OF assms, of t e] show ?thesis by simp
next
  case (Cons x xs)
  then obtain k l where "ty ! i = Some k" "env ! i = Some l" by (auto simp: held_by_def split: option.splits)
  with held_change [OF assms this, of t e] show ?thesis by (simp add: held_by_def)
qed

lemma held_variable:
  assumes "length env = length ty" "i < length ty" "ty ! i = Some k"
  shows "\<And>x. env ! i = Some x \<Longrightarrow> (k, x) \<in># held ty env"
  using held_mem [OF assms] .

lemma do_call_lives:
  assumes "call_type c ty = Some ty'" and len: "length env = length ty"
  shows "\<exists>es. trace (snd (run_state (do_call sv c env) s)) = trace s @ es
        \<and> length (fst (run_state (do_call sv c env) s)) = length ty'
        \<and> life_run (held ty env) (concat (map life_marks es)) = Some (held ty' (fst (run_state (do_call sv c env) s)))"
proof (cases c)
  case (Open i p)
  with assms have i: "i < length ty" "ty ! i = None" "ty' = ty[i := Some (open_kind p)]" by (auto split: if_splits)
  from open_yields show ?thesis
    by (rule yieldsE [of _ _ _ s]) (use Open i len held_open [OF len i(1,2)] in \<open>auto simp: prog_simps\<close>)
next
  case (Derive i j d)
  with assms have i: "i < length ty" "ty ! i = None" "ty' = ty[i := Some (derive_kind d)]"
      and j: "j < length ty" "ty ! j = Some Statement" by (auto split: if_splits)
  from derive_yields [OF held_variable [OF len j]] show ?thesis
    by (rule yieldsE [of _ _ _ s]) (use Derive i len held_open [OF len i(1,2)] in \<open>auto simp: prog_simps\<close>)
next
  case (Refine i key)
  with assms have i: "i < length ty" "ty ! i = Some Statement" "ty' = ty" by (auto split: if_splits)
  have same: "held ty (env[i := r]) = held ty env - mset (held_by (Some Statement, env ! i)) + mset (held_by (Some Statement, r))" for r
    using held_switch [OF len i(1), of "Some Statement" r] i(2) by (metis list_update_id)
  from refine_yields [OF held_variable [OF len i(1,2)]] show ?thesis
    by (rule yieldsE [of _ _ _ s]) (use Refine i len same in \<open>auto simp: prog_simps\<close>)
next
  case (Inform i n)
  with assms have i: "i < length ty" "ty ! i = Some (note_kind n)" "ty' = ty" by (auto split: if_splits)
  from note_yields [OF held_variable [OF len i(1,2)]] show ?thesis
    by (rule yieldsE [of _ _ _ s]) (use Inform i len in \<open>auto simp: prog_simps\<close>)
next
  case (Execute i j)
  with assms have i: "i < length ty" "ty ! i = Some PreparedStatement" "ty' = ty"
      and j: "j < length ty" "ty ! j = Some Statement" by (auto split: if_splits)
  from execute_yields [OF held_variable [OF len j] held_variable [OF len i(1,2)]] show ?thesis
    by (rule yieldsE [of _ _ _ s]) (use Execute i len in \<open>auto simp: prog_simps\<close>)
next
  case (Close i d)
  with assms have i: "i < length ty" "ty ! i = Some (close_kind d)" "ty' = ty[i := None]" by (auto split: if_splits)
  have freed: "held ty' env = held ty env - mset (held_by (Some (close_kind d), env ! i))"
    using held_switch [OF len i(1), of None "env ! i"] i(2,3) by (simp add: held_by_def)
  from close_yields [OF held_variable [OF len i(1,2)]] show ?thesis
    by (rule yieldsE [of _ _ _ s]) (use Close i len freed in \<open>auto simp: prog_simps\<close>)
qed

interpretation server_calls: life_calls "do_call sv" call_type life_marks
  by unfold_locales (rule do_call_lives)

lemma held_free: "\<forall>t\<in>set ty. t = None \<Longrightarrow> held ty env = {#}"
proof -
  assume "\<forall>t\<in>set ty. t = None"
  then have "held_by v = []" if "v \<in> set (zip ty env)" for v
    using that by (cases v) (fastforce simp: held_by_def dest: set_zip_leftD)
  then show ?thesis by (simp add: held_def)
qed

section \<open>Properties\<close>

text \<open>C38. For every answer of the performance schema, a caller that uses its variables as it should (a call
  only while the variable is alive, and of the right kind) and ends everything it began has each
  statement, transaction, wait, lock, stored program, digest and prepared statement that was granted started exactly
  once, spoken of only while it is alive, and ended exactly once; nothing is said about what was not
  granted, and when a statement is refined the new locker takes the place of the old.\<close>
theorem lives_are_balanced:
  assumes "script_type call_type cs (replicate n None) = Some (replicate n None)" "length env = n"
  shows "\<exists>es. trace (snd (run_state (script (do_call sv) cs env) s)) = trace s @ es \<and>
    life_run {#} (concat (map life_marks es)) = Some {#}"
  using server_calls.script_lives [OF assms(1), of env sv s] assms(2) by (auto simp: held_free)

definition demo_services :: services where
  "demo_services =
    (\<lparr>get_thread_statement_locker = (\<lambda>key cs sp h. Some (Suc (length h))), refine_statement = (\<lambda>l key h. Some (l + 10)),
      digest_start = (\<lambda>l h. None), get_thread_transaction_locker = (\<lambda>xid trxid lev ro ac h. None),
      start_stage = (\<lambda>key src h. None)\<rparr>,
     \<lparr>start_table_lock_wait = (\<lambda>p op flags src h. Some 5), start_idle_wait = (\<lambda>src h. None),
      create_metadata_lock = (\<lambda>a b c d e src h. None), start_sp = (\<lambda>sh h. None), get_sp_share = (\<lambda>a b c d e h. None),
      create_prepared_stmt = (\<lambda>a b c d e f g h. None)\<rparr>)"

definition demo_script :: "client_call list" where
  "demo_script = [Open 0 (OpenStatement 3 0 0 0 None (''sql.cc'', 7)), Derive 1 0 OpenDigest, Refine 0 4,
     Inform 0 (NoteStatement (RowsSent 12)), Close 1 (CloseDigest 0), Close 0 (CloseStatement 0)]"

theorem lives_are_balanced_witness:
  "trace (snd (run_state (script (do_call demo_services) demo_script [None, None])
      \<lparr>os = (), mem = (\<lambda>p. \<lparr>m_work_completed = 0, m_work_estimated = 0\<rparr>), trace = []\<rparr>)) =
    [GetStatementLocker 3 0 None (Some 1), StartStatement 1 0 0 (''sql.cc'', 7), DigestStart 1 None,
     RefineStatement 1 4 (Some 11), SetStatement 11 (RowsSent 12), Stage EndStage, EndStatement 11 0] \<and>
   (\<exists>es. trace (snd (run_state (script (do_call demo_services) demo_script [None, None])
      \<lparr>os = (), mem = (\<lambda>p. \<lparr>m_work_completed = 0, m_work_estimated = 0\<rparr>), trace = []\<rparr>)) = [] @ es \<and>
     life_run {#} (concat (map life_marks es)) = Some {#})"
  using lives_are_balanced [of demo_script 2 "[None, None]" demo_services
      "\<lparr>os = (), mem = (\<lambda>p. \<lparr>m_work_completed = 0, m_work_estimated = 0\<rparr>), trace = []\<rparr>"]
  by (simp add: demo_script_def demo_services_def numeral_2_eq_2 prog_simps statement_defs)

text \<open>The work of a stage is added up modulo 2^64, in the order of the calls or any other.\<close>

theorem stage_work_adds:
  "run_state (do { inline_mysql_stage_inc_work_completed p a; inline_mysql_stage_inc_work_completed p b }) s =
   run_state (inline_mysql_stage_inc_work_completed p (b + a)) (s :: ('o, progress_mem, server_event) psi_state)"
  by (cases p) (simp_all add: inline_mysql_stage_inc_work_completed_def prog_simps ac_simps)

end
