(* ===== verification/Byte_Order.thy ===== *)
theory Byte_Order
  imports Prelude "HOL-Library.Word" "HOL-Library.Monad_Syntax"
begin

text \<open>
  \<^verbatim>\<open>my_byteorder.h\<close>, \<^verbatim>\<open>byte_order_generic.h\<close>, \<^verbatim>\<open>byte_order_generic_x86.h\<close>, \<^verbatim>\<open>little_endian.h\<close> and
  \<^verbatim>\<open>big_endian.h\<close> of the MySQL headers: integers and floating point numbers in buffers of bytes.

  A pointer into a buffer is the list of the bytes from there to the end of the object; a read or a
  write past the end gives \<open>None\<close>.  Every C type is a word of its width, a signed value being read
  by \<open>sint\<close>; the arithmetic happens at the width to which C promotes the operands.  A shift of a set
  bit into the sign bit, which C leaves undefined and every compiler wraps, wraps.
\<close>

unbundle bit_operations_syntax

type_synonym uchar = "8 word"
type_synonym buffer = "uchar list"

section \<open>Bytes of a buffer\<close>

definition rd :: "buffer \<Rightarrow> nat \<Rightarrow> uchar option" where
  "rd A i = (if i < length A then Some (A ! i) else None)"

definition wr :: "buffer \<Rightarrow> nat \<Rightarrow> uchar \<Rightarrow> buffer option" where
  "wr T i b = (if i < length T then Some (T[i := b]) else None)"

text \<open>\<open>f\<close> applied to the pointer \<open>T + k\<close>.\<close>

definition at_offset :: "nat \<Rightarrow> (buffer \<Rightarrow> buffer option) \<Rightarrow> buffer \<Rightarrow> buffer option" where
  "at_offset k f T =
     (if k \<le> length T then map_option (\<lambda>U. take k T @ U) (f (drop k T)) else None)"

section \<open>The portable readers and writers\<close>

definition sint2korr :: "buffer \<Rightarrow> 16 word option" where
  "sint2korr A = do {
     a0 \<leftarrow> rd A 0; a1 \<leftarrow> rd A 1;
     Some (ucast (ucast a0 + push_bit 8 (ucast a1) :: 32 word)) }"

definition sint4korr :: "buffer \<Rightarrow> 32 word option" where
  "sint4korr A = do {
     a0 \<leftarrow> rd A 0; a1 \<leftarrow> rd A 1; a2 \<leftarrow> rd A 2; a3 \<leftarrow> rd A 3;
     Some (ucast a0 + push_bit 8 (ucast a1) + push_bit 16 (ucast a2) + push_bit 24 (ucast a3)) }"

definition uint2korr :: "buffer \<Rightarrow> 16 word option" where
  "uint2korr A = do {
     a0 \<leftarrow> rd A 0; a1 \<leftarrow> rd A 1;
     Some (ucast (ucast a0 + push_bit 8 (ucast a1) :: 32 word)) }"

definition uint4korr :: "buffer \<Rightarrow> 32 word option" where
  "uint4korr A = do {
     a0 \<leftarrow> rd A 0; a1 \<leftarrow> rd A 1; a2 \<leftarrow> rd A 2; a3 \<leftarrow> rd A 3;
     Some (ucast a0 + push_bit 8 (ucast a1) + push_bit 16 (ucast a2) + push_bit 24 (ucast a3)) }"

definition uint8korr :: "buffer \<Rightarrow> 64 word option" where
  "uint8korr A = do {
     a0 \<leftarrow> rd A 0; a1 \<leftarrow> rd A 1; a2 \<leftarrow> rd A 2; a3 \<leftarrow> rd A 3;
     a4 \<leftarrow> rd A 4; a5 \<leftarrow> rd A 5; a6 \<leftarrow> rd A 6; a7 \<leftarrow> rd A 7;
     Some (ucast (ucast a0 + push_bit 8 (ucast a1) + push_bit 16 (ucast a2)
                    + push_bit 24 (ucast a3) :: 32 word)
           + push_bit 32 (ucast (ucast a4 + push_bit 8 (ucast a5) + push_bit 16 (ucast a6)
                    + push_bit 24 (ucast a7) :: 32 word))) }"

definition sint8korr :: "buffer \<Rightarrow> 64 word option" where
  "sint8korr A = uint8korr A"

definition int2store :: "buffer \<Rightarrow> 16 word \<Rightarrow> buffer option" where
  "int2store T A = (let def_temp = ucast A :: 32 word in do {
     T \<leftarrow> wr T 0 (ucast def_temp);
     wr T 1 (ucast (drop_bit 8 def_temp)) })"

definition int4store :: "buffer \<Rightarrow> 32 word \<Rightarrow> buffer option" where
  "int4store T A = do {
     T \<leftarrow> wr T 0 (ucast A);
     T \<leftarrow> wr T 1 (ucast (drop_bit 8 A));
     T \<leftarrow> wr T 2 (ucast (drop_bit 16 A));
     wr T 3 (ucast (drop_bit 24 A)) }"

definition int8store :: "buffer \<Rightarrow> 64 word \<Rightarrow> buffer option" where
  "int8store T A = (let def_temp = ucast A; def_temp2 = ucast (drop_bit 32 A) in do {
     T \<leftarrow> int4store T def_temp;
     at_offset 4 (\<lambda>U. int4store U def_temp2) T })"

section \<open>Three, five and six bytes\<close>

definition sint3korr :: "buffer \<Rightarrow> 32 word option" where
  "sint3korr A = do {
     a2 \<leftarrow> rd A 2; a1 \<leftarrow> rd A 1; a0 \<leftarrow> rd A 0;
     Some (if a2 AND 128 \<noteq> 0
           then push_bit 24 255 OR push_bit 16 (ucast a2) OR push_bit 8 (ucast a1) OR ucast a0
           else push_bit 16 (ucast a2) OR push_bit 8 (ucast a1) OR ucast a0) }"

definition uint3korr :: "buffer \<Rightarrow> 32 word option" where
  "uint3korr A = do {
     a0 \<leftarrow> rd A 0; a1 \<leftarrow> rd A 1; a2 \<leftarrow> rd A 2;
     Some (ucast a0 + push_bit 8 (ucast a1) + push_bit 16 (ucast a2)) }"

definition uint5korr :: "buffer \<Rightarrow> 64 word option" where
  "uint5korr A = do {
     a0 \<leftarrow> rd A 0; a1 \<leftarrow> rd A 1; a2 \<leftarrow> rd A 2; a3 \<leftarrow> rd A 3; a4 \<leftarrow> rd A 4;
     Some (ucast (ucast a0 + push_bit 8 (ucast a1) + push_bit 16 (ucast a2)
                    + push_bit 24 (ucast a3) :: 32 word)
           + push_bit 32 (ucast a4)) }"

definition uint6korr :: "buffer \<Rightarrow> 64 word option" where
  "uint6korr A = do {
     a0 \<leftarrow> rd A 0; a1 \<leftarrow> rd A 1; a2 \<leftarrow> rd A 2; a3 \<leftarrow> rd A 3; a4 \<leftarrow> rd A 4; a5 \<leftarrow> rd A 5;
     Some (ucast (ucast a0 + push_bit 8 (ucast a1) + push_bit 16 (ucast a2)
                    + push_bit 24 (ucast a3) :: 32 word)
           + push_bit 32 (ucast a4) + push_bit 40 (ucast a5)) }"

definition int3store :: "buffer \<Rightarrow> 32 word \<Rightarrow> buffer option" where
  "int3store T A = do {
     T \<leftarrow> wr T 0 (ucast A);
     T \<leftarrow> wr T 1 (ucast (drop_bit 8 A));
     wr T 2 (ucast (drop_bit 16 A)) }"

definition int5store :: "buffer \<Rightarrow> 64 word \<Rightarrow> buffer option" where
  "int5store T A = do {
     T \<leftarrow> wr T 0 (ucast A);
     T \<leftarrow> wr T 1 (ucast (drop_bit 8 A));
     T \<leftarrow> wr T 2 (ucast (drop_bit 16 A));
     T \<leftarrow> wr T 3 (ucast (drop_bit 24 A));
     wr T 4 (ucast (drop_bit 32 A)) }"

definition int6store :: "buffer \<Rightarrow> 64 word \<Rightarrow> buffer option" where
  "int6store T A = do {
     T \<leftarrow> wr T 0 (ucast A);
     T \<leftarrow> wr T 1 (ucast (drop_bit 8 A));
     T \<leftarrow> wr T 2 (ucast (drop_bit 16 A));
     T \<leftarrow> wr T 3 (ucast (drop_bit 24 A));
     T \<leftarrow> wr T 4 (ucast (drop_bit 32 A));
     wr T 5 (ucast (drop_bit 40 A)) }"

section \<open>Machine representation\<close>

text \<open>The value of bytes with the lowest first, and the lowest \<open>n\<close> bytes of a value.\<close>

fun le_val :: "buffer \<Rightarrow> int" where
  "le_val [] = 0"
| "le_val (b # bs) = uint b + 256 * le_val bs"

fun le_bytes :: "nat \<Rightarrow> int \<Rightarrow> buffer" where
  "le_bytes 0 a = []"
| "le_bytes (Suc n) a = word_of_int a # le_bytes n (a div 256)"

lemma length_le_bytes [simp]: "length (le_bytes n a) = n"
  by (induction n arbitrary: a) auto

lemma le_val_bounds: "0 \<le> le_val bs \<and> le_val bs < 256 ^ length bs"
proof (induction bs)
  case (Cons b bs)
  have "0 \<le> uint b" "uint b < 256"
    using uint_bounded [of b] by simp_all
  then show ?case
    using Cons by simp
qed simp

lemma le_val_le_bytes: "le_val (le_bytes n a) = a mod 256 ^ n"
proof (induction n arbitrary: a)
  case (Suc n)
  have "uint (word_of_int a :: 8 word) = a mod 256"
    by (simp add: uint_word_of_int)
  then show ?case
    using mod_mult2_eq' [of a 256 "256 ^ n"] Suc by (simp add: mod_mult2_eq)
qed simp

lemma le_bytes_le_val: "le_bytes (length bs) (le_val bs) = bs"
proof (induction bs)
  case (Cons b bs)
  have b: "0 \<le> uint b" "uint b < 256"
    using uint_bounded [of b] by simp_all
  have "(uint b + 256 * le_val bs) div 256 = le_val bs"
    using b by simp
  moreover have "(word_of_int (uint b + 256 * le_val bs) :: 8 word) = b"
  proof -
    have "(word_of_int 256 :: 8 word) = 0" by simp
    then show ?thesis by (simp only: wi_hom_add [symmetric] wi_hom_mult [symmetric]) simp
  qed
  ultimately show ?case
    using Cons by simp
qed simp

text \<open>A load and a store of \<open>n\<close> bytes through a pointer cast, on a little-endian machine.\<close>

definition load :: "nat \<Rightarrow> buffer \<Rightarrow> 'a::len word option" where
  "load n A = (if n \<le> length A then Some (word_of_int (le_val (take n A))) else None)"

definition store :: "nat \<Rightarrow> buffer \<Rightarrow> 'a::len word \<Rightarrow> buffer option" where
  "store n T A = (if n \<le> length T then Some (le_bytes n (uint A) @ drop n T) else None)"

text \<open>\<^verbatim>\<open>byte_order_generic_x86.h\<close>, which \<^verbatim>\<open>my_byteorder.h\<close> selects on x86.\<close>

definition x86_sint2korr :: "buffer \<Rightarrow> 16 word option" where "x86_sint2korr A = load 2 A"

definition x86_sint4korr :: "buffer \<Rightarrow> 32 word option" where "x86_sint4korr A = load 4 A"

definition x86_uint2korr :: "buffer \<Rightarrow> 16 word option" where "x86_uint2korr A = load 2 A"

definition x86_uint4korr :: "buffer \<Rightarrow> 32 word option" where "x86_uint4korr A = load 4 A"

definition x86_uint8korr :: "buffer \<Rightarrow> 64 word option" where "x86_uint8korr A = load 8 A"

definition x86_sint8korr :: "buffer \<Rightarrow> 64 word option" where "x86_sint8korr A = load 8 A"

definition x86_int2store :: "buffer \<Rightarrow> 16 word \<Rightarrow> buffer option" where "x86_int2store T A = store 2 T A"

definition x86_int4store :: "buffer \<Rightarrow> 32 word \<Rightarrow> buffer option" where "x86_int4store T A = store 4 T A"

definition x86_int8store :: "buffer \<Rightarrow> 64 word \<Rightarrow> buffer option" where "x86_int8store T A = store 8 T A"

section \<open>Machine format\<close>

text \<open>
  A floating point number is the list of the bytes of its object, in the order of the machine; an
  integer object of a big-endian machine has its highest byte first.
\<close>

definition memcpy :: "buffer \<Rightarrow> buffer \<Rightarrow> nat \<Rightarrow> buffer option" where
  "memcpy T src n =
     (if n \<le> length T \<and> n \<le> length src then Some (take n src @ drop n T) else None)"

text \<open>\<^verbatim>\<open>little_endian.h\<close>.\<close>

definition float4get :: "buffer \<Rightarrow> buffer \<Rightarrow> buffer option" where "float4get V M = memcpy V M 4"

definition float4store :: "buffer \<Rightarrow> buffer \<Rightarrow> buffer option" where "float4store V M = memcpy V M 4"

definition float8get :: "buffer \<Rightarrow> buffer \<Rightarrow> buffer option" where "float8get V M = memcpy V M 8"

definition float8store :: "buffer \<Rightarrow> buffer \<Rightarrow> buffer option" where "float8store V M = memcpy V M 8"

definition floatget :: "buffer \<Rightarrow> buffer \<Rightarrow> buffer option" where "floatget V M = float4get V M"

definition floatstore :: "buffer \<Rightarrow> buffer \<Rightarrow> buffer option" where "floatstore V M = float4store V M"

definition doublestore :: "buffer \<Rightarrow> buffer \<Rightarrow> buffer option" where "doublestore T V = memcpy T V 8"

definition doubleget :: "buffer \<Rightarrow> buffer \<Rightarrow> buffer option" where "doubleget V M = memcpy V M 8"

text \<open>Hardware that keeps the two halves of a double in the other order.\<close>

definition mixed_doublestore :: "buffer \<Rightarrow> buffer \<Rightarrow> buffer option" where
  "mixed_doublestore T V = do {
     v4 \<leftarrow> rd V 4; T \<leftarrow> wr T 0 v4;
     v5 \<leftarrow> rd V 5; T \<leftarrow> wr T 1 v5;
     v6 \<leftarrow> rd V 6; T \<leftarrow> wr T 2 v6;
     v7 \<leftarrow> rd V 7; T \<leftarrow> wr T 3 v7;
     v0 \<leftarrow> rd V 0; T \<leftarrow> wr T 4 v0;
     v1 \<leftarrow> rd V 1; T \<leftarrow> wr T 5 v1;
     v2 \<leftarrow> rd V 2; T \<leftarrow> wr T 6 v2;
     v3 \<leftarrow> rd V 3; wr T 7 v3 }"

definition mixed_doubleget :: "buffer \<Rightarrow> buffer option" where
  "mixed_doubleget M = do {
     m4 \<leftarrow> rd M 4; m5 \<leftarrow> rd M 5; m6 \<leftarrow> rd M 6; m7 \<leftarrow> rd M 7;
     m0 \<leftarrow> rd M 0; m1 \<leftarrow> rd M 1; m2 \<leftarrow> rd M 2; m3 \<leftarrow> rd M 3;
     Some [m4, m5, m6, m7, m0, m1, m2, m3] }"

definition ushortget :: "buffer \<Rightarrow> 16 word option" where "ushortget pM = uint2korr pM"

definition shortget :: "buffer \<Rightarrow> 16 word option" where "shortget pM = sint2korr pM"

definition longget :: "buffer \<Rightarrow> 32 word option" where "longget pM = sint4korr pM"

definition ulongget :: "buffer \<Rightarrow> 32 word option" where "ulongget pM = uint4korr pM"

definition shortstore :: "buffer \<Rightarrow> 16 word \<Rightarrow> buffer option" where "shortstore T V = int2store T V"

definition longstore :: "buffer \<Rightarrow> 32 word \<Rightarrow> buffer option" where "longstore T V = int4store T V"

definition longlongget :: "buffer \<Rightarrow> 64 word option" where "longlongget M = load 8 M"

definition longlongstore :: "buffer \<Rightarrow> 64 word \<Rightarrow> buffer option" where "longlongstore T V = store 8 T V"

text \<open>\<^verbatim>\<open>big_endian.h\<close>.\<close>

definition be_float4store :: "buffer \<Rightarrow> buffer \<Rightarrow> buffer option" where
  "be_float4store T A = do {
     a3 \<leftarrow> rd A 3; T \<leftarrow> wr T 0 a3;
     a2 \<leftarrow> rd A 2; T \<leftarrow> wr T 1 a2;
     a1 \<leftarrow> rd A 1; T \<leftarrow> wr T 2 a1;
     a0 \<leftarrow> rd A 0; wr T 3 a0 }"

definition be_float4get :: "buffer \<Rightarrow> buffer option" where
  "be_float4get M = do {
     m3 \<leftarrow> rd M 3; m2 \<leftarrow> rd M 2; m1 \<leftarrow> rd M 1; m0 \<leftarrow> rd M 0;
     Some [m3, m2, m1, m0] }"

definition be_float8store :: "buffer \<Rightarrow> buffer \<Rightarrow> buffer option" where
  "be_float8store T V = do {
     v7 \<leftarrow> rd V 7; T \<leftarrow> wr T 0 v7;
     v6 \<leftarrow> rd V 6; T \<leftarrow> wr T 1 v6;
     v5 \<leftarrow> rd V 5; T \<leftarrow> wr T 2 v5;
     v4 \<leftarrow> rd V 4; T \<leftarrow> wr T 3 v4;
     v3 \<leftarrow> rd V 3; T \<leftarrow> wr T 4 v3;
     v2 \<leftarrow> rd V 2; T \<leftarrow> wr T 5 v2;
     v1 \<leftarrow> rd V 1; T \<leftarrow> wr T 6 v1;
     v0 \<leftarrow> rd V 0; wr T 7 v0 }"

definition be_float8get :: "buffer \<Rightarrow> buffer option" where
  "be_float8get M = do {
     m7 \<leftarrow> rd M 7; m6 \<leftarrow> rd M 6; m5 \<leftarrow> rd M 5; m4 \<leftarrow> rd M 4;
     m3 \<leftarrow> rd M 3; m2 \<leftarrow> rd M 2; m1 \<leftarrow> rd M 1; m0 \<leftarrow> rd M 0;
     Some [m7, m6, m5, m4, m3, m2, m1, m0] }"

definition be_ushortget :: "buffer \<Rightarrow> 16 word option" where
  "be_ushortget pM = do {
     m1 \<leftarrow> rd pM 1; m0 \<leftarrow> rd pM 0;
     Some (ucast (ucast m1 + push_bit 8 (ucast m0) :: 32 word)) }"

definition be_shortget :: "buffer \<Rightarrow> 16 word option" where
  "be_shortget pM = do {
     m1 \<leftarrow> rd pM 1; m0 \<leftarrow> rd pM 0;
     Some (ucast (ucast m1 + push_bit 8 (ucast m0) :: 32 word)) }"

definition be_longget :: "buffer \<Rightarrow> 32 word option" where
  "be_longget pM = do {
     m0 \<leftarrow> rd pM 0; m1 \<leftarrow> rd pM 1; m2 \<leftarrow> rd pM 2; m3 \<leftarrow> rd pM 3;
     Some (word_of_int (le_val (rev [m0, m1, m2, m3]))) }"

definition be_ulongget :: "buffer \<Rightarrow> 32 word option" where
  "be_ulongget pM = do {
     m0 \<leftarrow> rd pM 0; m1 \<leftarrow> rd pM 1; m2 \<leftarrow> rd pM 2; m3 \<leftarrow> rd pM 3;
     Some (word_of_int (le_val (rev [m0, m1, m2, m3]))) }"

text \<open>\<open>(uint) A\<close> extends the sign; the two bytes that are stored do not depend on it.\<close>

definition be_shortstore :: "buffer \<Rightarrow> 16 word \<Rightarrow> buffer option" where
  "be_shortstore T A = (let def_temp = scast A :: 32 word in do {
     T \<leftarrow> wr T 1 (ucast def_temp);
     wr T 0 (ucast (drop_bit 8 def_temp)) })"

definition be_longstore :: "buffer \<Rightarrow> 32 word \<Rightarrow> buffer option" where
  "be_longstore T A = do {
     T \<leftarrow> wr T 3 (ucast A);
     T \<leftarrow> wr T 2 (ucast (signed_drop_bit 8 A));
     T \<leftarrow> wr T 1 (ucast (signed_drop_bit 16 A));
     wr T 0 (ucast (signed_drop_bit 24 A)) }"

section \<open>What the readers and writers compute\<close>

named_theorems byte_simps \<open>reads and writes at a numeral offset\<close>

lemma rd_simps [byte_simps]:
  "rd [] i = None" "rd (a # A) 0 = Some a" "rd (a # A) (Suc i) = rd A i"
  by (simp_all add: rd_def)

lemma wr_simps [byte_simps]:
  "wr [] i b = None" "wr (a # A) 0 b = Some (b # A)" "wr (a # A) (Suc i) b = map_option ((#) a) (wr A i b)"
  by (simp_all add: wr_def)

lemma rd_None: "length A \<le> i \<Longrightarrow> rd A i = None"
  by (simp add: rd_def)

lemma wr_None: "length A \<le> i \<Longrightarrow> wr A i b = None"
  by (simp add: wr_def)

lemma buffer_cases:
  assumes "\<And>A. length A < n \<Longrightarrow> P A" and "\<And>B R. length B = n \<Longrightarrow> P (B @ R)"
  shows "P A"
proof (cases "length A < n")
  case False
  then have "P (take n A @ drop n A)"
    by (intro assms(2)) simp
  then show ?thesis by simp
qed (rule assms(1))

lemma uint_le_bytes: "0 \<le> a \<Longrightarrow> a < 256 ^ n \<Longrightarrow> le_val (le_bytes n a) = a"
  by (simp add: le_val_le_bytes)

text \<open>Words and their integers.\<close>

lemma ucast_of_int: "(ucast (w :: 'a::len word) :: 'b::len word) = word_of_int (uint w)"
  by transfer simp

lemma uint_of_drop_bit: "uint (drop_bit n (w :: 'a::len word)) = uint w div 2 ^ n"
  by (simp add: unsigned_drop_bit_eq drop_bit_eq_div [where 'a = int] take_bit_eq_mod)

lemma byte_drop [byte_simps]:
  "(ucast (drop_bit n (w :: 'a::len word)) :: 8 word) = word_of_int (uint w div 2 ^ n)"
  by (simp only: ucast_of_int uint_of_drop_bit)

lemma word_of_le_val:
  "(word_of_int (le_val (b # bs)) :: 'a::len word) = ucast b + 256 * word_of_int (le_val bs)"
  by simp

lemma uint_le_val: "256 ^ length bs \<le> (2 ^ LENGTH('a) :: int) \<Longrightarrow> uint (word_of_int (le_val bs) :: 'a::len word) = le_val bs"
  using le_val_bounds [of bs] by (simp add: uint_word_of_int)

lemma widen_le_val:
  "256 ^ length bs \<le> (2 ^ LENGTH('a) :: int) \<Longrightarrow>
     (ucast (word_of_int (le_val bs) :: 'a::len word) :: 'b::len word) = word_of_int (le_val bs)"
  by (simp only: ucast_of_int uint_le_val)

text \<open>Four bytes, added up or joined at 32 bits.\<close>

lemma sum4:
  "ucast a + push_bit 8 (ucast b) + push_bit 16 (ucast c) + push_bit 24 (ucast d) =
     (word_of_int (le_val [a, b, c, d]) :: 'a::len word)"
  by (simp add: word_of_le_val push_bit_eq_mult algebra_simps)

lemma sum3:
  "ucast a + push_bit 8 (ucast b) + push_bit 16 (ucast c) = (word_of_int (le_val [a, b, c]) :: 'a::len word)"
  by (simp add: word_of_le_val push_bit_eq_mult algebra_simps)

lemma sum2: "ucast a + push_bit 8 (ucast b) = (word_of_int (le_val [a, b]) :: 'a::len word)"
  by (simp add: word_of_le_val push_bit_eq_mult algebra_simps)

lemma length_Suc: "length B = Suc n \<longleftrightarrow> (\<exists>b C. B = b # C \<and> length C = n)"
  by (auto simp: length_Suc_conv)

lemma list2: "length B = 2 \<Longrightarrow> \<exists>a b. B = [a, b]"
  and list3: "length B = 3 \<Longrightarrow> \<exists>a b c. B = [a, b, c]"
  and list4: "length B = 4 \<Longrightarrow> \<exists>a b c d. B = [a, b, c, d]"
  and list5: "length B = 5 \<Longrightarrow> \<exists>a b c d e. B = [a, b, c, d, e]"
  and list6: "length B = 6 \<Longrightarrow> \<exists>a b c d e f. B = [a, b, c, d, e, f]"
  and list8: "length B = 8 \<Longrightarrow> \<exists>a b c d e f g h. B = [a, b, c, d, e, f, g, h]"
  by (auto simp: numeral_eq_Suc length_Suc)

lemma rd_numeral [byte_simps]: "rd (a # A) (numeral k) = rd A (pred_numeral k)"
  by (simp add: numeral_eq_Suc rd_simps)

lemma wr_numeral [byte_simps]: "wr (a # A) (numeral k) b = map_option ((#) a) (wr A (pred_numeral k) b)"
  by (simp add: numeral_eq_Suc wr_simps)

lemma rd_one [byte_simps]: "rd (a # A) 1 = rd A 0"
  by (simp add: rd_def)

lemma wr_one [byte_simps]: "wr (a # A) 1 b = map_option ((#) a) (wr A 0 b)"
  by (cases A) (simp_all add: wr_def)

lemma div_div [byte_simps]: "(a :: int) div numeral j div numeral k = a div (numeral j * numeral k)"
  by (rule zdiv_zmult2_eq [symmetric]) simp

lemma widen16 [byte_simps]:
  "uint (ucast (A :: 16 word) :: 32 word) = uint A" "(ucast (ucast A :: 32 word) :: 8 word) = ucast A"
  by (transfer; simp add: take_bit_eq_mod min_def)+

lemmas short_simps = rd_None wr_None bind_eq_None_conv load_def store_def

lemma load_append: "length B = n \<Longrightarrow> load n (B @ R) = Some (word_of_int (le_val B))"
  by (simp add: load_def)

lemma uint2korr_spec: "uint2korr A = load 2 A"
proof (rule buffer_cases [where n = 2])
  fix B R :: buffer assume n: "length B = 2"
  then obtain a b where B: "B = [a, b]" using list2 by blast
  show "uint2korr (B @ R) = load 2 (B @ R)"
    unfolding load_append [OF n]
    by (simp add: B uint2korr_def byte_simps sum2 widen_le_val del: le_val.simps)
qed (simp add: uint2korr_def short_simps)

lemma sint2korr_spec: "sint2korr A = load 2 A"
proof (rule buffer_cases [where n = 2])
  fix B R :: buffer assume n: "length B = 2"
  then obtain a b where B: "B = [a, b]" using list2 by blast
  show "sint2korr (B @ R) = load 2 (B @ R)"
    unfolding load_append [OF n]
    by (simp add: B sint2korr_def byte_simps sum2 widen_le_val del: le_val.simps)
qed (simp add: sint2korr_def short_simps)

lemma uint4korr_spec: "uint4korr A = load 4 A"
proof (rule buffer_cases [where n = 4])
  fix B R :: buffer assume n: "length B = 4"
  then obtain a b c d where B: "B = [a, b, c, d]" using list4 by blast
  show "uint4korr (B @ R) = load 4 (B @ R)"
    unfolding load_append [OF n]
    by (simp add: B uint4korr_def byte_simps sum4 widen_le_val del: le_val.simps)
qed (simp add: uint4korr_def short_simps)

lemma sint4korr_spec: "sint4korr A = load 4 A"
proof (rule buffer_cases [where n = 4])
  fix B R :: buffer assume n: "length B = 4"
  then obtain a b c d where B: "B = [a, b, c, d]" using list4 by blast
  show "sint4korr (B @ R) = load 4 (B @ R)"
    unfolding load_append [OF n]
    by (simp add: B sint4korr_def byte_simps sum4 widen_le_val del: le_val.simps)
qed (simp add: sint4korr_def short_simps)

lemma uint3korr_spec: "uint3korr A = load 3 A"
proof (rule buffer_cases [where n = 3])
  fix B R :: buffer assume n: "length B = 3"
  then obtain a b c where B: "B = [a, b, c]" using list3 by blast
  show "uint3korr (B @ R) = load 3 (B @ R)"
    unfolding load_append [OF n]
    by (simp add: B uint3korr_def byte_simps sum3 widen_le_val del: le_val.simps)
qed (simp add: uint3korr_def short_simps)

lemma uint8korr_spec: "uint8korr A = load 8 A"
proof (rule buffer_cases [where n = 8])
  fix B R :: buffer assume n: "length B = 8"
  then obtain a b c d e f g h where B: "B = [a, b, c, d, e, f, g, h]" using list8 by blast
  show "uint8korr (B @ R) = load 8 (B @ R)"
    unfolding load_append [OF n]
    by (simp add: B uint8korr_def byte_simps sum4 widen_le_val del: le_val.simps)
      (simp add: word_of_le_val push_bit_eq_mult algebra_simps)
qed (simp add: uint8korr_def short_simps)

lemma uint5korr_spec: "uint5korr A = load 5 A"
proof (rule buffer_cases [where n = 5])
  fix B R :: buffer assume n: "length B = 5"
  then obtain a b c d e where B: "B = [a, b, c, d, e]" using list5 by blast
  show "uint5korr (B @ R) = load 5 (B @ R)"
    unfolding load_append [OF n]
    by (simp add: B uint5korr_def byte_simps sum4 widen_le_val del: le_val.simps)
      (simp add: word_of_le_val push_bit_eq_mult algebra_simps)
qed (simp add: uint5korr_def short_simps)

lemma uint6korr_spec: "uint6korr A = load 6 A"
proof (rule buffer_cases [where n = 6])
  fix B R :: buffer assume n: "length B = 6"
  then obtain a b c d e f where B: "B = [a, b, c, d, e, f]" using list6 by blast
  show "uint6korr (B @ R) = load 6 (B @ R)"
    unfolding load_append [OF n]
    by (simp add: B uint6korr_def byte_simps sum4 widen_le_val del: le_val.simps)
      (simp add: word_of_le_val push_bit_eq_mult algebra_simps)
qed (simp add: uint6korr_def short_simps)

lemma int2store_spec: "int2store T A = store 2 T A"
proof (rule buffer_cases [where n = 2])
  fix B R :: buffer assume n: "length B = 2"
  then obtain a b where B: "B = [a, b]" using list2 by blast
  show "int2store (B @ R) A = store 2 (B @ R) A"
    by (simp add: B int2store_def store_def byte_simps numeral_eq_Suc Let_def)
qed (auto simp: int2store_def store_def wr_def bind_eq_None_conv Let_def)

lemma int4store_spec: "int4store T A = store 4 T A"
proof (rule buffer_cases [where n = 4])
  fix B R :: buffer assume n: "length B = 4"
  then obtain a b c d where B: "B = [a, b, c, d]" using list4 by blast
  show "int4store (B @ R) A = store 4 (B @ R) A"
    by (simp add: B int4store_def store_def byte_simps numeral_eq_Suc)
qed (auto simp: int4store_def store_def wr_def bind_eq_None_conv Let_def)

lemma int3store_spec: "int3store T A = store 3 T A"
proof (rule buffer_cases [where n = 3])
  fix B R :: buffer assume n: "length B = 3"
  then obtain a b c where B: "B = [a, b, c]" using list3 by blast
  show "int3store (B @ R) A = store 3 (B @ R) A"
    by (simp add: B int3store_def store_def byte_simps numeral_eq_Suc)
qed (auto simp: int3store_def store_def wr_def bind_eq_None_conv Let_def)

lemma int5store_spec: "int5store T A = store 5 T A"
proof (rule buffer_cases [where n = 5])
  fix B R :: buffer assume n: "length B = 5"
  then obtain a b c d e where B: "B = [a, b, c, d, e]" using list5 by blast
  show "int5store (B @ R) A = store 5 (B @ R) A"
    by (simp add: B int5store_def store_def byte_simps numeral_eq_Suc)
qed (auto simp: int5store_def store_def wr_def bind_eq_None_conv Let_def)

lemma int6store_spec: "int6store T A = store 6 T A"
proof (rule buffer_cases [where n = 6])
  fix B R :: buffer assume n: "length B = 6"
  then obtain a b c d e f where B: "B = [a, b, c, d, e, f]" using list6 by blast
  show "int6store (B @ R) A = store 6 (B @ R) A"
    by (simp add: B int6store_def store_def byte_simps numeral_eq_Suc)
qed (auto simp: int6store_def store_def wr_def bind_eq_None_conv Let_def)

lemma le_bytes_add: "le_bytes (m + n) a = le_bytes m a @ le_bytes n (a div 256 ^ m)"
proof (induction m arbitrary: a)
  case (Suc m)
  have "a div 256 div 256 ^ m = a div (256 * 256 ^ m)"
    by (simp add: zdiv_zmult2_eq)
  then show ?case
    using Suc [of "a div 256"] by simp
qed simp

lemma le_bytes_mod: "le_bytes n (a mod 256 ^ n) = le_bytes n a"
  using le_bytes_le_val [of "le_bytes n a"] by (simp add: le_val_le_bytes)

lemma int8store_spec: "int8store T A = store 8 T A"
proof (cases "8 \<le> length T")
  case True
  have lo: "uint (ucast A :: 32 word) = uint A mod 256 ^ 4"
    unfolding ucast_of_int uint_word_of_int by simp
  have "uint (drop_bit 32 A) = uint A div 256 ^ 4"
    by (simp add: uint_of_drop_bit)
  then have hi: "uint (ucast (drop_bit 32 A) :: 32 word) = uint A div 256 ^ 4 mod 256 ^ 4"
    unfolding ucast_of_int uint_word_of_int by simp
  have "le_bytes 8 (uint A) = le_bytes 4 (uint A) @ le_bytes 4 (uint A div 256 ^ 4)"
    using le_bytes_add [of 4 4 "uint A"] by simp
  moreover have "4 \<le> length T - 4"
    using True by simp
  ultimately show ?thesis
    using True le_bytes_mod [of 4 "uint A"] le_bytes_mod [of 4 "uint A div 256 ^ 4"]
    by (simp add: int8store_def int4store_spec store_def at_offset_def lo hi Let_def)
next
  case False
  then show ?thesis
    by (cases "4 \<le> length T")
      (simp_all add: int8store_def int4store_spec store_def at_offset_def Let_def)
qed

text \<open>C37. The portable routines compute what a little-endian machine loads and stores.\<close>
theorem byte_order_portable:
  "x86_sint2korr = sint2korr \<and> x86_sint4korr = sint4korr \<and> x86_uint2korr = uint2korr
   \<and> x86_uint4korr = uint4korr \<and> x86_uint8korr = uint8korr \<and> x86_sint8korr = sint8korr
   \<and> x86_int2store = int2store \<and> x86_int4store = int4store \<and> x86_int8store = int8store"
  by (simp add: fun_eq_iff x86_sint2korr_def x86_sint4korr_def x86_uint2korr_def x86_uint4korr_def
      x86_uint8korr_def x86_sint8korr_def x86_int2store_def x86_int4store_def x86_int8store_def
      sint2korr_spec sint4korr_spec uint2korr_spec uint4korr_spec uint8korr_spec sint8korr_def
      int2store_spec int4store_spec int8store_spec)

section \<open>Round trips\<close>

lemma load_store:
  assumes "n \<le> length T" and "store n T (A :: 'a::len word) = Some U" and "256 ^ n \<le> (2 ^ LENGTH('b) :: int)"
  shows "\<exists>w :: 'b::len word. load n U = Some w \<and> uint w = uint A mod 256 ^ n"
proof -
  have "U = le_bytes n (uint A) @ drop n T"
    using assms by (simp add: store_def)
  then have "load n U = Some (word_of_int (le_val (le_bytes n (uint A))) :: 'b word)"
    by (simp add: load_def)
  moreover have "uint (word_of_int (le_val (le_bytes n (uint A))) :: 'b word) = uint A mod 256 ^ n"
    using uint_le_val [of "le_bytes n (uint A)"] assms(3) by (simp add: le_val_le_bytes)
  ultimately show ?thesis by blast
qed

lemma store_load:
  assumes "load n T = Some (w :: 'a::len word)" and "256 ^ n \<le> (2 ^ LENGTH('a) :: int)"
  shows "store n T w = Some T"
proof -
  have n: "n \<le> length T" and w: "w = word_of_int (le_val (take n T))"
    using assms(1) by (auto simp: load_def split: if_splits)
  have "uint w = le_val (take n T)"
    using uint_le_val [of "take n T", where 'a = 'a] assms(2) n w by simp
  moreover have "le_bytes n (le_val (take n T)) = take n T"
    using le_bytes_le_val [of "take n T"] n by simp
  ultimately show ?thesis
    using n by (simp add: store_def)
qed

lemma store_then_load:
  fixes a :: "'a::len word"
  assumes "256 ^ n \<le> (2 ^ LENGTH('a) :: int)"
  shows "Option.bind (store n T a) (load n) = (if n \<le> length T then Some (take_bit (8 * n) a) else None)"
proof (cases "n \<le> length T")
  case True
  then obtain U where U: "store n T a = Some U"
    by (simp add: store_def)
  obtain w :: "'a word" where w: "load n U = Some w" "uint w = uint a mod 256 ^ n"
    using load_store [OF True U assms] by blast
  have "uint (take_bit (8 * n) a) = uint a mod 2 ^ (8 * n)"
    by (simp only: unsigned_take_bit_eq take_bit_eq_mod [where 'a = int])
  then have "w = take_bit (8 * n) a"
    using w(2) by (simp add: power_mult word_uint_eq_iff)
  then show ?thesis
    using True U w(1) by simp
qed (simp add: store_def)

lemma load_then_store:
  assumes "256 ^ n \<le> (2 ^ LENGTH('a::len) :: int)"
  shows "Option.bind (load n T) (store n T :: 'a word \<Rightarrow> _) = (if n \<le> length T then Some T else None)"
proof (cases "n \<le> length T")
  case True
  then obtain w :: "'a word" where "load n T = Some w"
    by (simp add: load_def)
  then show ?thesis
    using True store_load [OF _ assms] by simp
qed (simp add: load_def)

lemma take_bit_all [simp]: "LENGTH('a) = n \<Longrightarrow> take_bit n (a :: 'a::len word) = a"
  by (rule bit_word_eqI) (simp add: bit_simps)

lemma korr_eq: "uint2korr = load 2" "uint3korr = load 3" "uint4korr = load 4" "uint5korr = load 5"
  "uint6korr = load 6" "uint8korr = load 8"
  by (simp_all add: fun_eq_iff uint2korr_spec uint3korr_spec uint4korr_spec uint5korr_spec
      uint6korr_spec uint8korr_spec)

lemmas store_specs =
  int2store_spec int3store_spec int4store_spec int5store_spec int6store_spec int8store_spec

text \<open>C36. 
  What is stored is read back, and the value is cut to the bytes that were stored; a buffer that is
  too short is a fault on both sides.
\<close>
theorem store_korr_roundtrip:
  "Option.bind (int2store T a2) uint2korr = (if 2 \<le> length T then Some a2 else None)
   \<and> Option.bind (int3store T a4) uint3korr = (if 3 \<le> length T then Some (take_bit 24 a4) else None)
   \<and> Option.bind (int4store T a4) uint4korr = (if 4 \<le> length T then Some a4 else None)
   \<and> Option.bind (int5store T a8) uint5korr = (if 5 \<le> length T then Some (take_bit 40 a8) else None)
   \<and> Option.bind (int6store T a8) uint6korr = (if 6 \<le> length T then Some (take_bit 48 a8) else None)
   \<and> Option.bind (int8store T a8) uint8korr = (if 8 \<le> length T then Some a8 else None)"
  by (simp add: korr_eq store_specs store_then_load)

text \<open>
  What is read and stored again leaves the buffer as it was.
\<close>

theorem korr_store_roundtrip:
  "Option.bind (uint2korr T) (int2store T) = (if 2 \<le> length T then Some T else None)
   \<and> Option.bind (uint3korr T) (int3store T) = (if 3 \<le> length T then Some T else None)
   \<and> Option.bind (uint4korr T) (int4store T) = (if 4 \<le> length T then Some T else None)
   \<and> Option.bind (uint5korr T) (int5store T) = (if 5 \<le> length T then Some T else None)
   \<and> Option.bind (uint6korr T) (int6store T) = (if 6 \<le> length T then Some T else None)
   \<and> Option.bind (uint8korr T) (int8store T) = (if 8 \<le> length T then Some T else None)"
  by (simp add: korr_eq store_specs [abs_def] load_then_store)

text \<open>\<open>sint3korr\<close> extends the sign of the three bytes that \<open>uint3korr\<close> reads.\<close>

lemma sum3_or:
  fixes a b c :: "8 word"
  shows "(ucast a + push_bit 8 (ucast b) + push_bit 16 (ucast c) :: 32 word) =
     push_bit 16 (ucast c) OR push_bit 8 (ucast b) OR ucast (a :: 8 word)"
proof -
  have 1: "(ucast a + push_bit 8 (ucast b) :: 32 word) = ucast a OR push_bit 8 (ucast (b :: 8 word))"
    by (rule disjunctive_add_eq_or) (rule bit_word_eqI, auto simp: bit_simps dest: bit_imp_le_length)
  have "((ucast a OR push_bit 8 (ucast b)) + push_bit 16 (ucast c) :: 32 word) =
      (ucast a OR push_bit 8 (ucast b)) OR push_bit 16 (ucast (c :: 8 word))"
    by (rule disjunctive_add_eq_or) (rule bit_word_eqI, auto simp: bit_simps dest: bit_imp_le_length)
  then show ?thesis
    unfolding 1 by (simp add: ac_simps)
qed

lemma sint3korr_spec: "sint3korr A = map_option (signed_take_bit 23) (uint3korr A)"
proof (rule buffer_cases [where n = 3])
  fix B R :: buffer assume "length B = 3"
  then obtain a b c where B: "B = [a, b, c]" using list3 by blast
  have neg: "c AND 128 \<noteq> 0 \<longleftrightarrow> bit c 7"
    using and_exp_eq_0_iff_not_bit [of c 7] by simp
  have m: "(255 :: 32 word) = mask 8"
    by (simp add: mask_eq_exp_minus_1)
  have "(if bit c 7 then push_bit 24 255 OR push_bit 16 (ucast c) OR push_bit 8 (ucast b) OR ucast a
         else push_bit 16 (ucast c) OR push_bit 8 (ucast b) OR ucast a :: 32 word) =
      signed_take_bit 23 (push_bit 16 (ucast c) OR push_bit 8 (ucast b) OR ucast a)"
  proof (rule bit_word_eqI)
    fix n assume "n < LENGTH(32)"
    then show "bit (if bit c 7 then push_bit 24 255 OR push_bit 16 (ucast c) OR push_bit 8 (ucast b) OR ucast a
         else push_bit 16 (ucast c) OR push_bit 8 (ucast b) OR ucast a :: 32 word) n =
      bit (signed_take_bit 23 (push_bit 16 (ucast c) OR push_bit 8 (ucast b) OR ucast a :: 32 word)) n"
      unfolding m
      by (cases n "23 :: nat" rule: linorder_cases)
        (auto simp: bit_signed_take_bit_iff bit_push_bit_iff bit_or_iff bit_mask_iff bit_ucast_iff
          min_def dest: bit_imp_le_length)
  qed
  then show "sint3korr (B @ R) = map_option (signed_take_bit 23) (uint3korr (B @ R))"
    by (simp add: B sint3korr_def uint3korr_def byte_simps neg sum3_or)
qed (simp add: sint3korr_def uint3korr_def rd_None bind_eq_None_conv)

text \<open>
  A signed number of 24 bits is read back by \<open>sint3korr\<close>.
\<close>

theorem sint3_roundtrip:
  assumes "3 \<le> length T" and "- (2 ^ 23) \<le> sint a" and "sint a < 2 ^ 23"
  shows "Option.bind (int3store T a) sint3korr = Some a"
proof -
  have "signed_take_bit 23 (sint a) = sint a"
    using assms by (simp add: signed_take_bit_int_eq_self)
  then have range: "bit (sint a) (min 23 n) = bit (sint a) n" for n
    by (metis bit_signed_take_bit_iff possible_bit_int)
  have word: "bit (sint a) n = bit a (min 31 n)" for n
    by (cases "n = 31") (auto simp: bit_sint_iff min_def not_le dest: bit_imp_le_length)
  have "bit a (min 23 n) = bit a n" if "n < 32" for n
  proof -
    have "min 31 (min 23 n) = min 23 n" "min 31 n = n"
      using that by simp_all
    then show ?thesis
      using range [of n] by (simp only: word)
  qed
  then have "signed_take_bit 23 (take_bit 24 a) = a"
    by (intro bit_word_eqI) (auto simp: bit_signed_take_bit_iff bit_take_bit_iff)
  moreover have "Option.bind (int3store T a) uint3korr = Some (take_bit 24 a)"
    using assms(1) by (simp add: korr_eq store_specs store_then_load)
  then obtain U where "int3store T a = Some U" and "uint3korr U = Some (take_bit 24 a)"
    by (cases "int3store T a") simp_all
  ultimately show ?thesis
    by (simp add: sint3korr_spec)
qed

theorem sint3_roundtrip_witness:
  "Option.bind (int3store [0, 0, 0, 7] (- 5)) sint3korr = Some (- 5)"
  by (rule sint3_roundtrip) simp_all

text \<open>
  A floating point number is stored as the same bytes by a little-endian and by a big-endian
  machine, and each reads back what it, or the other, has stored.
\<close>

theorem float_bytes_portable:
  "float4store T [a, b, c, d] = be_float4store T [d, c, b, a]
   \<and> Option.bind (be_float4store T [d, c, b, a]) (float4get V) =
       (if 4 \<le> length T \<and> 4 \<le> length V then Some ([a, b, c, d] @ drop 4 V) else None)
   \<and> Option.bind (float4store T [a, b, c, d]) be_float4get =
       (if 4 \<le> length T then Some [d, c, b, a] else None)
   \<and> float8store T [a, b, c, d, e, f, g, h] = be_float8store T [h, g, f, e, d, c, b, a]
   \<and> Option.bind (float8store T [a, b, c, d, e, f, g, h]) be_float8get =
       (if 8 \<le> length T then Some [h, g, f, e, d, c, b, a] else None)"
proof -
  have 4: "be_float4store T [d, c, b, a] = float4store T [a, b, c, d]"
  proof (rule buffer_cases [where n = 4 and A = T])
    fix B R :: buffer assume "length B = 4"
    then obtain p q r s where "B = [p, q, r, s]" using list4 by blast
    then show "be_float4store (B @ R) [d, c, b, a] = float4store (B @ R) [a, b, c, d]"
      by (simp add: be_float4store_def float4store_def memcpy_def byte_simps)
  qed (auto simp: be_float4store_def float4store_def memcpy_def wr_def bind_eq_None_conv)
  have 8: "be_float8store T [h, g, f, e, d, c, b, a] = float8store T [a, b, c, d, e, f, g, h]"
  proof (rule buffer_cases [where n = 8 and A = T])
    fix B R :: buffer assume "length B = 8"
    then obtain p q r s t u v w where "B = [p, q, r, s, t, u, v, w]" using list8 by blast
    then show "be_float8store (B @ R) [h, g, f, e, d, c, b, a] = float8store (B @ R) [a, b, c, d, e, f, g, h]"
      by (simp add: be_float8store_def float8store_def memcpy_def byte_simps)
  qed (auto simp: be_float8store_def float8store_def memcpy_def wr_def bind_eq_None_conv)
  show ?thesis
    unfolding 4 8
    by (simp add: float4store_def float8store_def float4get_def memcpy_def be_float4get_def
        be_float8get_def byte_simps)
qed

lemma signed_byte: "k \<le> 24 \<Longrightarrow> (ucast (signed_drop_bit k (A :: 32 word)) :: 8 word) = ucast (drop_bit k A)"
  by (rule bit_word_eqI) (auto simp: bit_ucast_iff bit_signed_drop_bit_iff bit_drop_bit_eq)

lemma scast_bytes:
  "(ucast (scast (A :: 16 word) :: 32 word) :: 8 word) = ucast A"
  "(ucast (drop_bit 8 (scast A :: 32 word)) :: 8 word) = ucast (drop_bit 8 A)"
  by (rule bit_word_eqI, auto simp: bit_ucast_iff bit_signed_iff bit_drop_bit_eq)+

text \<open>
  A big-endian machine reads back the 16-bit and 32-bit integers that it stores in its own format,
  and the bytes are those of a little-endian machine in reverse order.
\<close>

theorem be_integers:
  "be_longstore T v = (if 4 \<le> length T then Some (rev (le_bytes 4 (uint v)) @ drop 4 T) else None)
   \<and> Option.bind (be_longstore T v) be_longget = (if 4 \<le> length T then Some v else None)
   \<and> Option.bind (be_shortstore T w) be_ushortget = (if 2 \<le> length T then Some w else None)"
proof (intro conjI)
  show l: "be_longstore T v = (if 4 \<le> length T then Some (rev (le_bytes 4 (uint v)) @ drop 4 T) else None)"
  proof (rule buffer_cases [where n = 4 and A = T])
    fix B R :: buffer assume "length B = 4"
    then obtain p q r s where "B = [p, q, r, s]" using list4 by blast
    then show "be_longstore (B @ R) v = (if 4 \<le> length (B @ R)
        then Some (rev (le_bytes 4 (uint v)) @ drop 4 (B @ R)) else None)"
      by (simp add: be_longstore_def signed_byte byte_simps numeral_eq_Suc)
  qed (auto simp: be_longstore_def wr_def bind_eq_None_conv)
  have "be_longget (rev (le_bytes 4 (uint v)) @ R) = Some v" for R
  proof -
    obtain p q r s where b: "le_bytes 4 (uint v) = [p, q, r, s]"
      using list4 [of "le_bytes 4 (uint v)"] by auto
    have "uint v < 2 ^ 32"
      using uint_lt2p [of v] by simp
    then have "le_val [p, q, r, s] = uint v"
      using le_val_le_bytes [of 4 "uint v"] b by simp
    then show ?thesis
      by (simp add: b be_longget_def byte_simps del: le_val.simps)
  qed
  then show "Option.bind (be_longstore T v) be_longget = (if 4 \<le> length T then Some v else None)"
    by (simp add: l)
  show "Option.bind (be_shortstore T w) be_ushortget = (if 2 \<le> length T then Some w else None)"
  proof (rule buffer_cases [where n = 2 and A = T])
    fix B R :: buffer assume "length B = 2"
    then obtain p q where B: "B = [p, q]" using list2 by blast
    have "be_shortstore (B @ R) w = Some (ucast (drop_bit 8 w) # ucast w # R)"
      by (simp add: B be_shortstore_def Let_def scast_bytes wr_simps)
    moreover have "be_ushortget (ucast (drop_bit 8 w) # ucast w # R) =
        uint2korr (ucast w # ucast (drop_bit 8 w) # R)"
      by (simp add: be_ushortget_def uint2korr_def rd_simps)
    moreover have "int2store (B @ R) w = Some (ucast w # ucast (drop_bit 8 w) # R)"
      by (simp add: B int2store_spec store_def byte_simps numeral_eq_Suc)
    moreover have "Option.bind (int2store (B @ R) w) uint2korr = Some w"
      using B by (simp add: korr_eq store_specs store_then_load)
    ultimately show "Option.bind (be_shortstore (B @ R) w) be_ushortget =
        (if 2 \<le> length (B @ R) then Some w else None)"
      using B by simp
  qed (auto simp: be_shortstore_def wr_def Let_def bind_eq_None_conv)
qed

text \<open>Hardware with swapped halves reads back the doubles that it stores.\<close>

theorem mixed_double_roundtrip:
  "Option.bind (mixed_doublestore T [a, b, c, d, e, f, g, h]) mixed_doubleget =
     (if 8 \<le> length T then Some [a, b, c, d, e, f, g, h] else None)"
proof (rule buffer_cases [where n = 8 and A = T])
  fix B R :: buffer assume "length B = 8"
  then obtain p q r s t u v w where "B = [p, q, r, s, t, u, v, w]" using list8 by blast
  then show "Option.bind (mixed_doublestore (B @ R) [a, b, c, d, e, f, g, h]) mixed_doubleget =
     (if 8 \<le> length (B @ R) then Some [a, b, c, d, e, f, g, h] else None)"
    by (simp add: mixed_doublestore_def mixed_doubleget_def byte_simps)
qed (auto simp: mixed_doublestore_def wr_def bind_eq_None_conv)

end
