(* ===== verification/My_Inline.thy ===== *)
theory My_Inline
  imports Byte_Order
begin

text \<open>
  Inline functions of the MySQL headers beside the byte order: \<open>skip_trailing_space\<close> of \<^verbatim>\<open>m_string.h\<close> in
  its two forms, the arithmetic on \<open>struct timespec\<close> of \<^verbatim>\<open>my_global.h\<close>, and the alignment macro
  \<open>MY_ALIGN\<close>.
\<close>

section \<open>Trailing spaces\<close>

text \<open>The string is at the address \<open>ptr\<close>; \<open>s\<close> holds its bytes, and \<open>e\<close> is \<open>end - ptr\<close>.  The loop that goes
  back a byte at a time stops at the offset \<open>lo\<close>.\<close>

fun back_bytes :: "buffer \<Rightarrow> nat \<Rightarrow> nat \<Rightarrow> nat option" where
  "back_bytes s lo 0 = Some 0"
| "back_bytes s lo (Suc e) =
    (if lo < Suc e then do { b \<leftarrow> rd s e; if b = 0x20 then back_bytes s lo e else Some (Suc e) }
     else Some (Suc e))"

text \<open>The form for every machine but SPARC: eight bytes at a time.\<close>

function back_eights :: "buffer \<Rightarrow> nat \<Rightarrow> nat option" where
  "back_eights s e =
    (if 8 \<le> e then do {
       w \<leftarrow> uint8korr (drop (e - 8) s);
       if w \<noteq> 0x2020202020202020 then Some e else back_eights s (e - 8) }
     else Some e)"
  by pat_completeness auto
termination by (relation "measure snd") auto

declare back_eights.simps [simp del]

definition skip_trailing_space :: "buffer \<Rightarrow> nat \<Rightarrow> nat option" where
  "skip_trailing_space s len = do { e \<leftarrow> back_eights s len; back_bytes s 0 e }"

text \<open>The form for SPARC: words of \<open>n = SIZEOF_INT\<close> bytes at aligned addresses.  A read of a word at another
  address is a trap, which is \<open>None\<close> here.\<close>

definition SPACE_INT :: "nat \<Rightarrow> int" where
  "SPACE_INT n = (if n = 4 then 0x20202020 else 0x2020202020202020)"

definition rd_unsigned :: "nat \<Rightarrow> nat \<Rightarrow> buffer \<Rightarrow> nat \<Rightarrow> int option" where
  "rd_unsigned n ptr s i =
    (if n dvd (ptr + i) \<and> i + n \<le> length s then Some (le_val (rev (take n (drop i s)))) else None)"

function back_words :: "nat \<Rightarrow> nat \<Rightarrow> buffer \<Rightarrow> nat \<Rightarrow> nat \<Rightarrow> nat option" where
  "back_words n ptr s start_words e =
    (if start_words < ptr + e \<and> 0 < n then do {
       w \<leftarrow> (if n \<le> e then rd_unsigned n ptr s (e - n) else None);
       if w = SPACE_INT n then back_words n ptr s start_words (e - n) else Some e }
     else Some e)"
  by pat_completeness auto
termination by (relation "measure (\<lambda>(n, ptr, s, start_words, e). e)") (auto split: if_splits)

declare back_words.simps [simp del]

definition skip_trailing_space_sparc :: "nat \<Rightarrow> nat \<Rightarrow> buffer \<Rightarrow> nat \<Rightarrow> nat option" where
  "skip_trailing_space_sparc n ptr s len = do {
     e \<leftarrow> (if 20 < len then
        let end_words = (ptr + len) div n * n; start_words = (ptr + n - 1) div n * n in do {
          e1 \<leftarrow> back_bytes s (end_words - ptr) len;
          b \<leftarrow> rd s (e1 - 1);
          if b = 0x20 \<and> start_words < end_words then back_words n ptr s start_words e1 else Some e1 }
      else Some len);
     back_bytes s 0 e }"

text \<open>What both compute.\<close>

definition strip :: "buffer \<Rightarrow> buffer" where
  "strip t = rev (dropWhile (\<lambda>b. b = 0x20) (rev t))"

lemma strip_snoc: "strip (t @ [b]) = (if b = 0x20 then strip t else t @ [b])"
  by (simp add: strip_def)

lemma strip_spaces: "strip (t @ replicate n 0x20) = strip t"
  by (induction n) (simp_all add: replicate_append_same [symmetric] strip_snoc flip: append_assoc)

lemma strip_take_Suc: "e < length s \<Longrightarrow> strip (take (Suc e) s) = (if s ! e = 0x20 then strip (take e s) else take (Suc e) s)"
  by (simp add: take_Suc_conv_app_nth strip_snoc)

text \<open>Going back to an offset keeps what is behind it stripped.\<close>

lemma back_bytes_lo:
  "e \<le> length s \<Longrightarrow> lo \<le> e \<Longrightarrow> \<exists>e'. back_bytes s lo e = Some e' \<and> lo \<le> e' \<and> e' \<le> e \<and>
     strip (take e' s) = strip (take e s) \<and> (e' = lo \<or> s ! (e' - 1) \<noteq> 0x20)"
proof (induction e)
  case (Suc e)
  show ?case
  proof (cases "lo = Suc e")
    case False
    with Suc.prems have "e < length s" "lo \<le> e" by simp_all
    with Suc.IH show ?thesis
      by (cases "s ! e = 0x20") (auto simp: rd_def strip_take_Suc)
  qed (simp add: Suc.prems)
qed simp

lemma back_bytes_zero: "e \<le> length s \<Longrightarrow> back_bytes s 0 e = Some (length (strip (take e s)))"
  by (induction e) (auto simp: rd_def strip_take_Suc, simp add: strip_def)

text \<open>A word of spaces.\<close>

lemma le_val_inj: "length bs = length cs \<Longrightarrow> le_val bs = le_val cs \<longleftrightarrow> bs = cs"
  using le_bytes_le_val [of bs] le_bytes_le_val [of cs] by metis

lemma replicate_4_8: "replicate 4 x = [x, x, x, x]" "replicate 8 x = [x, x, x, x, x, x, x, x]"
  by (simp_all add: eval_nat_numeral)

lemma spaces4: "le_val (replicate 4 0x20) = 0x20202020"
  and spaces8: "le_val (replicate 8 0x20) = 0x2020202020202020"
  unfolding replicate_4_8 by simp_all

lemma eight_spaces:
  assumes "8 \<le> length A"
  shows "\<exists>w. uint8korr A = Some w \<and> (w = 0x2020202020202020 \<longleftrightarrow> take 8 A = replicate 8 0x20)"
proof -
  have len: "length (take 8 A) = 8" using assms by simp
  have "le_val (take 8 A) < 2 ^ 64" "0 \<le> le_val (take 8 A)" using le_val_bounds [of "take 8 A"] len by simp_all
  then have u: "uint (word_of_int (le_val (take 8 A)) :: 64 word) = le_val (take 8 A)" by (simp add: uint_word_of_int)
  have "(word_of_int (le_val (take 8 A)) :: 64 word) = 0x2020202020202020 \<longleftrightarrow> le_val (take 8 A) = 0x2020202020202020"
    by (subst word_uint_eq_iff, subst u) simp
  also have "\<dots> \<longleftrightarrow> take 8 A = replicate 8 0x20"
    using le_val_inj [of "take 8 A" "replicate 8 0x20"] len by (simp add: spaces8)
  finally show ?thesis using assms by (simp add: uint8korr_spec load_def)
qed

lemma unsigned_spaces:
  assumes "n = 4 \<or> n = 8" "length bs = n"
  shows "le_val (rev bs) = SPACE_INT n \<longleftrightarrow> bs = replicate n 0x20"
proof -
  have "SPACE_INT n = le_val (replicate n 0x20)" using assms(1) by (auto simp: SPACE_INT_def spaces4 spaces8)
  with le_val_inj [of "rev bs" "replicate n 0x20"] assms(2) show ?thesis
    by (metis length_replicate length_rev rev_replicate rev_rev_ident)
qed

lemma strip_take_back:
  assumes "e \<le> length s" "n \<le> e" "take n (drop (e - n) s) = replicate n 0x20"
  shows "strip (take (e - n) s) = strip (take e s)"
proof -
  have "take e s = take (e - n) s @ take n (drop (e - n) s)"
    using assms(1,2) by (metis le_add_diff_inverse2 take_add)
  with assms(3) show ?thesis by (simp add: strip_spaces)
qed

lemma back_eights_strip:
  "e \<le> length s \<Longrightarrow> \<exists>e'. back_eights s e = Some e' \<and> e' \<le> e \<and> strip (take e' s) = strip (take e s)"
proof (induction e rule: less_induct)
  case (less e)
  show ?case
  proof (cases "8 \<le> e")
    case True
    then have "8 \<le> length (drop (e - 8) s)" using less.prems by simp
    with True obtain w where w: "uint8korr (drop (e - 8) s) = Some w"
      "w = 0x2020202020202020 \<longleftrightarrow> take 8 (drop (e - 8) s) = replicate 8 0x20"
      using eight_spaces [of "drop (e - 8) s"] by blast
    show ?thesis
    proof (cases "w = 0x2020202020202020")
      case spaces: True
      have "e - 8 < e" "e - 8 \<le> length s" using True less.prems by linarith+
      from less.IH [OF this] obtain e' where
        "back_eights s (e - 8) = Some e'" "e' \<le> e - 8" "strip (take e' s) = strip (take (e - 8) s)" by blast
      with True spaces w strip_take_back [OF less.prems True] show ?thesis
        by (subst back_eights.simps) simp
    qed (use True w in \<open>subst back_eights.simps, simp\<close>)
  qed (subst back_eights.simps, simp)
qed

lemma back_words_strip:
  assumes "n = 4 \<or> n = 8" "n dvd start_words" "ptr \<le> start_words"
  shows "e \<le> length s \<Longrightarrow> n dvd (ptr + e) \<Longrightarrow>
    \<exists>e'. back_words n ptr s start_words e = Some e' \<and> e' \<le> e \<and> strip (take e' s) = strip (take e s)"
proof (induction e rule: less_induct)
  case (less e)
  show ?case
  proof (cases "start_words < ptr + e")
    case True
    with assms(2) less.prems(2) have "n \<le> ptr + e - start_words" by (meson dvd_diff_nat dvd_imp_le zero_less_diff)
    with True assms(3) have n: "n \<le> e" by linarith
    have aligned: "n dvd (ptr + (e - n))" using less.prems(2) n
      by (metis Nat.add_diff_assoc dvd_diff_nat dvd_refl)
    have len: "length (take n (drop (e - n) s)) = n" using n less.prems(1) by simp
    have rd: "rd_unsigned n ptr s (e - n) = Some (le_val (rev (take n (drop (e - n) s))))"
      using aligned n less.prems(1) by (simp add: rd_unsigned_def)
    have pos: "0 < n" using assms(1) by auto
    show ?thesis
    proof (cases "take n (drop (e - n) s) = replicate n 0x20")
      case spaces: True
      have "e - n < e" "e - n \<le> length s" using n pos less.prems(1) by linarith+
      from less.IH [OF this aligned] obtain e' where
        "back_words n ptr s start_words (e - n) = Some e'" "e' \<le> e - n" "strip (take e' s) = strip (take (e - n) s)"
        by blast
      with True n pos rd spaces unsigned_spaces [OF assms(1) len] strip_take_back [OF less.prems(1) n spaces] show ?thesis
        by (subst back_words.simps) simp
    qed (use True n pos rd unsigned_spaces [OF assms(1) len] in \<open>subst back_words.simps, simp\<close>)
  qed (subst back_words.simps, simp)
qed

lemma skip_trailing_space_strip:
  assumes "len \<le> length s"
  shows "skip_trailing_space s len = Some (length (strip (take len s)))"
proof -
  from back_eights_strip [OF assms] obtain e where
    "back_eights s len = Some e" "e \<le> len" "strip (take e s) = strip (take len s)" by blast
  with back_bytes_zero [of e s] assms show ?thesis by (simp add: skip_trailing_space_def)
qed

lemma skip_trailing_space_sparc_strip:
  assumes "len \<le> length s" "n = 4 \<or> n = 8"
  shows "skip_trailing_space_sparc n ptr s len = Some (length (strip (take len s)))"
proof (cases "20 < len")
  case False
  with back_bytes_zero [OF assms(1)] show ?thesis by (simp add: skip_trailing_space_sparc_def)
next
  case True
  let ?ew = "(ptr + len) div n * n" and ?sw = "(ptr + n - 1) div n * n"
  have n: "0 < n" "n \<le> 8" using assms(2) by auto
  have ew: "?ew \<le> ptr + len" "ptr + len < ?ew + n"
    using dividend_less_div_times [OF n(1), of "ptr + len"] div_times_less_eq_dividend [of "ptr + len" n] by linarith+
  with True n(2) have lo: "ptr < ?ew" "?ew - ptr \<le> len" by linarith+
  have sw: "ptr \<le> ?sw" using dividend_less_div_times [OF n(1), of "ptr + n - 1"] n(1) by linarith
  from back_bytes_lo [OF assms(1) lo(2)] obtain e1 where
    e1: "back_bytes s (?ew - ptr) len = Some e1" "?ew - ptr \<le> e1" "e1 \<le> len" "strip (take e1 s) = strip (take len s)"
      "e1 = ?ew - ptr \<or> s ! (e1 - 1) \<noteq> 0x20" by blast
  have pos: "0 < e1" using e1(2) lo(1) by linarith
  then have b: "rd s (e1 - 1) = Some (s ! (e1 - 1))" using e1(3) assms(1) by (simp add: rd_def)
  have "\<exists>e. (if s ! (e1 - 1) = 0x20 \<and> ?sw < ?ew then back_words n ptr s ?sw e1 else Some e1) = Some e \<and> e \<le> e1 \<and>
      strip (take e s) = strip (take e1 s)"
  proof (cases "s ! (e1 - 1) = 0x20 \<and> ?sw < ?ew")
    case True
    with e1(5) lo(1) have "ptr + e1 = ?ew" by linarith
    then have "n dvd (ptr + e1)" by simp
    with back_words_strip [OF assms(2) _ sw, of e1 s] e1(3) assms(1) True show ?thesis by simp
  qed auto
  then obtain e where e: "(if s ! (e1 - 1) = 0x20 \<and> ?sw < ?ew then back_words n ptr s ?sw e1 else Some e1) = Some e"
      "e \<le> e1" "strip (take e s) = strip (take e1 s)" by blast
  have "e \<le> length s" using e(2) e1(3) assms(1) by linarith
  then have "back_bytes s 0 e = Some (length (strip (take len s)))"
    using back_bytes_zero [of e s] e(3) e1(4) by simp
  with True show ?thesis
    by (simp only: skip_trailing_space_sparc_def Let_def if_True e1(1) b e(1) Option.bind_lunit)
qed

section \<open>Points in time\<close>

text \<open>\<open>time_t\<close> and \<open>long\<close> have the same width \<open>'w\<close> (32 bits in the \<^verbatim>\<open>my_config.h\<close> of the repository);
  \<open>my_getsystime\<close> counts steps of 100 nanoseconds, its answer is the argument \<open>systime\<close>.\<close>

record 't timespec =
  tv_sec :: 't
  tv_nsec :: 't

type_synonym ulonglong = "64 word"

definition set_timespec_nsec :: "ulonglong \<Rightarrow> ulonglong \<Rightarrow> 'w::len word timespec" where
  "set_timespec_nsec systime nsec =
    (let now = systime + nsec div 100
     in \<lparr>tv_sec = ucast (now div 10000000), tv_nsec = ucast ((now mod 10000000) * 100 + nsec mod 100)\<rparr>)"

definition set_timespec :: "ulonglong \<Rightarrow> ulonglong \<Rightarrow> 'w::len word timespec" where
  "set_timespec systime sec = set_timespec_nsec systime (sec * 1000000000)"

definition cmp_timespec :: "'w::len word timespec \<Rightarrow> 'w word timespec \<Rightarrow> int" where
  "cmp_timespec ts1 ts2 =
    (if tv_sec ts2 <s tv_sec ts1 \<or> tv_sec ts1 = tv_sec ts2 \<and> tv_nsec ts2 <s tv_nsec ts1 then 1
     else if tv_sec ts1 <s tv_sec ts2 \<or> tv_sec ts1 = tv_sec ts2 \<and> tv_nsec ts1 <s tv_nsec ts2 then - 1
     else 0)"

text \<open>The difference of the seconds is taken in the type \<open>time_t\<close>, and then everything is unsigned.\<close>

definition diff_timespec :: "'w::len word timespec \<Rightarrow> 'w word timespec \<Rightarrow> ulonglong" where
  "diff_timespec ts1 ts2 =
    scast (tv_sec ts1 - tv_sec ts2) * 1000000000 + scast (tv_nsec ts1) - scast (tv_nsec ts2)"

definition nanos :: "'w::len word timespec \<Rightarrow> int" where
  "nanos ts = sint (tv_sec ts) * 1000000000 + sint (tv_nsec ts)"

definition normal_time :: "'w::len word timespec \<Rightarrow> bool" where
  "normal_time ts \<longleftrightarrow> 0 \<le> sint (tv_nsec ts) \<and> sint (tv_nsec ts) < 1000000000"

lemma sint_ucast_small:
  fixes x :: ulonglong
  assumes "uint x < 2 ^ (LENGTH('w::len) - 1)"
  shows "sint (ucast x :: 'w word) = uint x"
proof -
  have "(ucast x :: 'w word) = word_of_int (uint x)" by (rule ucast_eq)
  then have "sint (ucast x :: 'w word) = signed_take_bit (LENGTH('w) - 1) (uint x)" by (simp only: sint_sbintrunc')
  moreover have "- (2 ^ (LENGTH('w) - 1)) \<le> uint x" using order_trans [of _ 0 "uint x"] by simp
  ultimately show ?thesis using assms by (simp add: signed_take_bit_int_eq_self)
qed

lemma set_timespec_nsec_parts:
  fixes systime nsec :: ulonglong
  assumes "uint systime + uint nsec div 100 < 2 ^ 64"
    and "uint systime + uint nsec div 100 < 10000000 * 2 ^ (LENGTH('w::len) - 1)" "32 \<le> LENGTH('w)"
  defines "ts \<equiv> set_timespec_nsec systime nsec :: 'w word timespec"
  shows "sint (tv_sec ts) = (uint systime + uint nsec div 100) div 10000000"
    and "sint (tv_nsec ts) = (uint systime + uint nsec div 100) mod 10000000 * 100 + uint nsec mod 100"
proof -
  let ?now = "systime + nsec div 100" and ?n = "uint systime + uint nsec div 100"
  have "0 \<le> ?n" by (simp add: pos_imp_zdiv_nonneg_iff)
  with assms(1) have now: "uint ?now = ?n" by (simp add: uint_word_ariths uint_div mod_pos_pos_trivial)
  have sec: "uint (?now div 10000000) = ?n div 10000000" by (simp add: uint_div now)
  have "?n div 10000000 < 2 ^ (LENGTH('w) - 1)" using assms(2) by (simp add: div_less_iff_less_mult algebra_simps)
  then show "sint (tv_sec ts) = ?n div 10000000"
    using sint_ucast_small [of "?now div 10000000", where 'w = 'w] sec by (simp add: ts_def set_timespec_nsec_def Let_def)
  have m: "uint (?now mod 10000000) = ?n mod 10000000" "uint (nsec mod 100) = uint nsec mod 100"
    by (simp_all add: uint_mod now)
  have b: "0 \<le> ?n mod 10000000" "?n mod 10000000 < 10000000" "0 \<le> uint nsec mod 100" "uint nsec mod 100 < 100" by simp_all
  then have "uint ((?now mod 10000000) * 100 + nsec mod 100) = ?n mod 10000000 * 100 + uint nsec mod 100"
    by (simp add: uint_word_ariths m)
  moreover have "(2147483648::int) \<le> 2 ^ (LENGTH('w) - 1)"
    using power_increasing [of 31 "LENGTH('w) - 1" "2::int"] assms(3) by simp
  then have "?n mod 10000000 * 100 + uint nsec mod 100 < 2 ^ (LENGTH('w) - 1)" using b by linarith
  ultimately show "sint (tv_nsec ts) = ?n mod 10000000 * 100 + uint nsec mod 100"
    using sint_ucast_small [of "(?now mod 10000000) * 100 + nsec mod 100", where 'w = 'w]
    by (simp add: ts_def set_timespec_nsec_def Let_def)
qed

lemma nanos_total:
  "q * 10000000 + r = n \<Longrightarrow> n = s + d \<Longrightarrow> d * 100 + m = (x :: int) \<Longrightarrow> q * 1000000000 + (r * 100 + m) = s * 100 + x"
  by simp

text \<open>Nanoseconds in normal form are ordered as the pairs are.\<close>

lemma nanos_less:
  "normal_time a \<Longrightarrow> normal_time b \<Longrightarrow>
     nanos a < nanos b \<longleftrightarrow> tv_sec a <s tv_sec b \<or> tv_sec a = tv_sec b \<and> tv_nsec a <s tv_nsec b"
  using signed_word_eqI [of "tv_sec a" "tv_sec b"]
  unfolding normal_time_def nanos_def word_sless_alt by (cases "sint (tv_sec a) = sint (tv_sec b)") auto

lemma cmp_timespec_nanos:
  assumes "normal_time a" "normal_time b"
  shows "cmp_timespec a b = sgn (nanos a - nanos b)"
proof -
  have "tv_sec b <s tv_sec a \<or> tv_sec a = tv_sec b \<and> tv_nsec b <s tv_nsec a \<longleftrightarrow> nanos b < nanos a"
    using nanos_less [OF assms(2,1)] by (simp only: eq_commute [of "tv_sec a"])
  moreover note nanos_less [OF assms, symmetric]
  ultimately show ?thesis by (simp add: cmp_timespec_def sgn_if)
qed

lemma diff_timespec_nanos:
  fixes a b :: "'w::len word timespec"
  assumes "- (2 ^ (LENGTH('w) - 1)) \<le> sint (tv_sec a) - sint (tv_sec b)" "sint (tv_sec a) - sint (tv_sec b) < 2 ^ (LENGTH('w) - 1)"
  shows "diff_timespec a b = word_of_int (nanos a - nanos b)"
proof -
  have "sint (tv_sec a - tv_sec b) = sint (tv_sec a) - sint (tv_sec b)"
    using assms by (simp add: sint_word_diff signed_take_bit_int_eq_self)
  then show ?thesis
    unfolding diff_timespec_def nanos_def scast_eq
    by (simp only: of_int_add of_int_diff of_int_mult of_int_numeral) (simp only: algebra_simps)
qed

section \<open>Alignment\<close>

text \<open>\<open>MY_ALIGN(A, L)\<close>, computed at the width of \<open>A\<close>.\<close>

definition MY_ALIGN :: "'w::len word \<Rightarrow> 'w word \<Rightarrow> 'w word" where
  "MY_ALIGN A L = (A + L - 1) AND NOT (L - 1)"

lemma MY_ALIGN_div:
  fixes A :: "'w::len word"
  assumes "k < LENGTH('w)" "unat A + 2 ^ k - 1 < 2 ^ LENGTH('w)"
  shows "unat (MY_ALIGN A (2 ^ k)) = (unat A + 2 ^ k - 1) div 2 ^ k * 2 ^ k"
proof -
  let ?x = "A + 2 ^ k - 1" and ?n = "unat A + 2 ^ k - 1"
  have "1 \<le> unat A + 2 ^ k" using one_le_power [of "2::nat" k] by linarith
  from of_nat_diff [OF this, where 'a = "'w word"] have "?x = word_of_nat ?n" by simp
  then have x: "unat ?x = ?n" using assms(2) by (simp add: unat_of_nat)
  have "MY_ALIGN A (2 ^ k) = push_bit k (drop_bit k ?x)"
    by (rule bit_eqI) (auto simp: MY_ALIGN_def bit_simps simp flip: mask_eq_exp_minus_1)
  also have "unat \<dots> = take_bit LENGTH('w) (?n div 2 ^ k * 2 ^ k)"
    using assms(2) by (simp only: unsigned_push_bit_eq unsigned_drop_bit_eq x)
      (simp add: push_bit_eq_mult drop_bit_eq_div take_bit_nat_eq_self)
  also have "\<dots> = ?n div 2 ^ k * 2 ^ k"
    using assms(2) order_le_less_trans [OF div_times_less_eq_dividend] by (simp add: take_bit_nat_eq_self)
  finally show ?thesis .
qed

section \<open>Small inline functions\<close>

text \<open>\<open>lex_string_set\<close>: the length is that of the C string; without a terminator \<open>c_strlen\<close> leaves the object.\<close>

record lex_string =
  str :: buffer
  lex_length :: nat

fun c_strlen :: "buffer \<Rightarrow> nat option" where
  "c_strlen [] = None"
| "c_strlen (b # bs) = (if b = 0 then Some 0 else map_option Suc (c_strlen bs))"

definition lex_string_set :: "buffer \<Rightarrow> lex_string option" where
  "lex_string_set c_str = map_option (\<lambda>n. \<lparr>str = c_str, lex_length = n\<rparr>) (c_strlen c_str)"

text \<open>\<open>safe_strdup_root\<close>, with the address 0 for the null pointer and the function that copies a string into
  the memory root as an argument.\<close>

definition safe_strdup_root :: "(nat \<Rightarrow> 's \<Rightarrow> nat \<times> 's) \<Rightarrow> nat \<Rightarrow> 's \<Rightarrow> nat \<times> 's" where
  "safe_strdup_root strdup_root s root = (if s \<noteq> 0 then strdup_root s root else (0, root))"

text \<open>The \<open>timeval\<close> that \<open>my_sleep\<close> hands to \<open>select\<close>: C divides towards zero.\<close>

definition sleep_timeval :: "int \<Rightarrow> int \<times> int" where
  "sleep_timeval m_seconds = (sgn m_seconds * (\<bar>m_seconds\<bar> div 1000000), sgn m_seconds * (\<bar>m_seconds\<bar> mod 1000000))"

lemma sleep_timeval_sum: "fst (sleep_timeval m) * 1000000 + snd (sleep_timeval m) = m"
  using arg_cong [OF div_mult_mod_eq [of "\<bar>m\<bar>" 1000000], of "(*) (sgn m)"]
  by (simp only: sleep_timeval_def fst_conv snd_conv distrib_left mult.assoc sgn_mult_abs)

lemma c_strlen_Some: "c_strlen s = Some n \<Longrightarrow> n < length s \<and> s ! n = 0 \<and> (\<forall>i<n. s ! i \<noteq> 0)"
proof (induction s arbitrary: n)
  case (Cons b bs)
  show ?case
  proof (cases "b = 0")
    case False
    with Cons.prems obtain k where k: "n = Suc k" "c_strlen bs = Some k" by auto
    from Cons.IH [OF k(2)] k(1) False show ?thesis by (auto simp: less_Suc_eq_0_disj)
  qed (use Cons.prems in auto)
qed simp

text \<open>\<open>reset_dynamic\<close> forgets the elements and keeps the buffer.\<close>

record dynamic_array =
  da_buffer :: nat
  elements :: nat
  max_element :: nat
  alloc_increment :: nat
  size_of_element :: nat

definition reset_dynamic :: "dynamic_array \<Rightarrow> dynamic_array" where
  "reset_dynamic array = array\<lparr>elements := 0\<rparr>"

section \<open>Properties\<close>

text \<open>C39. Both forms of \<open>skip_trailing_space\<close>, the one that compares eight bytes at a time and the one that
  compares aligned words, return the end of the string without its trailing spaces, the position behind its
  last byte that is not a space, whatever the address and the length; no read leaves the string, and no word is read at an unaligned address.\<close>
theorem skip_trailing_space_forms_agree:
  assumes "len \<le> length s" "n = 4 \<or> n = 8"
  shows "skip_trailing_space s len = Some (length (strip (take len s))) \<and>
    skip_trailing_space_sparc n ptr s len = skip_trailing_space s len"
  using skip_trailing_space_strip [OF assms(1)] skip_trailing_space_sparc_strip [OF assms] by simp

theorem skip_trailing_space_forms_agree_witness:
  "skip_trailing_space_sparc 4 7 (0x41 # replicate 30 0x20) 31 = Some 1"
  using skip_trailing_space_forms_agree [of 31 "0x41 # replicate 30 0x20" 4 7] strip_spaces [of "[0x41]" 30]
  by (simp add: strip_def)

text \<open>A deadline computed by \<open>set_timespec_nsec\<close> is in normal form and \<open>nsec\<close> nanoseconds after the
  present, when neither the sum nor the seconds leave their types; and for deadlines in normal form
  \<open>cmp_timespec\<close> is the sign of their distance in nanoseconds, which \<open>diff_timespec\<close> computes modulo 2^64.\<close>
theorem timespec_arithmetic:
  fixes a b :: "'w::len word timespec"
  assumes "uint systime + uint nsec div 100 < 2 ^ 64"
    and "uint systime + uint nsec div 100 < 10000000 * 2 ^ (LENGTH('w) - 1)" "32 \<le> LENGTH('w)"
    and "normal_time b" "0 \<le> sint (tv_sec b)" "a = set_timespec_nsec systime nsec"
  shows "normal_time a \<and> nanos a = uint systime * 100 + uint nsec \<and>
    cmp_timespec a b = sgn (nanos a - nanos b) \<and> diff_timespec a b = word_of_int (nanos a - nanos b)"
proof -
  let ?n = "uint systime + uint nsec div 100"
  note p = set_timespec_nsec_parts [OF assms(1-3), folded assms(6)]
  have n: "0 \<le> ?n" by (simp add: pos_imp_zdiv_nonneg_iff)
  have na: "normal_time a"
    using p(2) pos_mod_bound [of 10000000 ?n] pos_mod_bound [of 100 "uint nsec"] by (simp add: normal_time_def)
  have total: "nanos a = uint systime * 100 + uint nsec" unfolding nanos_def p
    by (rule nanos_total [OF div_mult_mod_eq refl div_mult_mod_eq])
  have "cmp_timespec a b = sgn (nanos a - nanos b)"
    by (rule cmp_timespec_nanos [OF na assms(4)])
  moreover have "0 \<le> sint (tv_sec a)" using p(1) n by (simp add: pos_imp_zdiv_nonneg_iff)
  then have "diff_timespec a b = word_of_int (nanos a - nanos b)"
    using assms(5) sint_lt [of "tv_sec a"] sint_lt [of "tv_sec b"] by (intro diff_timespec_nanos) linarith+
  ultimately show ?thesis using na total by blast
qed

theorem timespec_arithmetic_witness:
  "cmp_timespec (set_timespec_nsec 5 250) (\<lparr>tv_sec = 0, tv_nsec = 700\<rparr> :: 32 word timespec) = 1"
  using timespec_arithmetic [of 5 250 "\<lparr>tv_sec = 0, tv_nsec = 700\<rparr> :: 32 word timespec" "set_timespec_nsec 5 250"]
  by (simp add: normal_time_def nanos_def)

text \<open>The product in \<open>set_timespec\<close> wraps: a deadline of 585 years lies in the present.\<close>

theorem set_timespec_wraps:
  "set_timespec systime 18446744074 = (set_timespec_nsec systime 290448384 :: 'w::len word timespec)"
proof -
  have "(18446744074 * 1000000000 :: ulonglong) = 290448384"
    by (simp only: word_uint_eq_iff uint_word_ariths) simp
  then show ?thesis by (simp only: set_timespec_def)
qed

end
