(* ===== verification/IO_Cache.thy ===== *)
theory IO_Cache
  imports Byte_Order
begin

text \<open>
  The inlined part of the file cache of \<^verbatim>\<open>my_sys.h\<close> (\<open>IO_CACHE\<close>): \<open>my_b_read\<close>, \<open>my_b_get\<close>,
  \<open>my_b_write\<close>, \<open>my_b_tell\<close> and \<open>my_b_bytes_in_cache\<close>.  What does not fit the buffer goes through
  the function pointers \<open>read_function\<close>, \<open>write_function\<close> and through \<open>_my_b_get\<close>, which are not part of
  the repository and are arguments here.
\<close>

section \<open>The cache\<close>

datatype cache_type =
  TYPE_NOT_SET | READ_CACHE | WRITE_CACHE | SEQ_READ_APPEND | READ_FIFO | READ_NET | WRITE_NET

text \<open>A pointer into a buffer is its offset there.  \<open>request_pos\<close> is an offset into the buffer of the
  current position; \<open>'f\<close> is the state behind the function pointers: the file and its position.\<close>

record 'f io_cache =
  pos_in_file :: nat
  read_pos :: nat
  read_end :: nat
  read_buffer :: buffer
  request_pos :: nat
  write_buffer :: buffer
  write_pos :: nat
  write_end :: nat
  cache_kind :: cache_type
  backing :: 'f

type_synonym 'f read_function = "nat \<Rightarrow> 'f io_cache \<Rightarrow> int \<times> buffer \<times> 'f io_cache"
type_synonym 'f write_function = "buffer \<Rightarrow> 'f io_cache \<Rightarrow> int \<times> 'f io_cache"

definition current_pos :: "'f io_cache \<Rightarrow> nat" where
  "current_pos info = (if cache_kind info = WRITE_CACHE then write_pos info else read_pos info)"

definition current_end :: "'f io_cache \<Rightarrow> nat" where
  "current_end info = (if cache_kind info = WRITE_CACHE then write_end info else read_end info)"

definition my_b_EOF :: int where "my_b_EOF = INT_MIN"

text \<open>The result, the bytes that arrive in \<open>Buffer\<close>, and the cache.\<close>

definition my_b_read :: "'f read_function \<Rightarrow> nat \<Rightarrow> 'f io_cache \<Rightarrow> int \<times> buffer \<times> 'f io_cache" where
  "my_b_read read_function n info =
    (if read_pos info + n \<le> read_end info
     then (0, take n (drop (read_pos info) (read_buffer info)), info\<lparr>read_pos := read_pos info + n\<rparr>)
     else read_function n info)"

definition my_b_write :: "'f write_function \<Rightarrow> buffer \<Rightarrow> 'f io_cache \<Rightarrow> int \<times> 'f io_cache" where
  "my_b_write write_function data info =
    (if write_pos info + length data \<le> write_end info
     then (0, info\<lparr>write_buffer := take (write_pos info) (write_buffer info) @ data @
                drop (write_pos info + length data) (write_buffer info),
              write_pos := write_pos info + length data\<rparr>)
     else write_function data info)"

definition my_b_get :: "('f io_cache \<Rightarrow> int \<times> 'f io_cache) \<Rightarrow> 'f io_cache \<Rightarrow> int \<times> 'f io_cache" where
  "my_b_get get_function info =
    (if read_pos info \<noteq> read_end info
     then let info' = info\<lparr>read_pos := Suc (read_pos info)\<rparr> in (uint (read_buffer info' ! (read_pos info' - 1)), info')
     else get_function info)"

definition my_b_tell :: "'f io_cache \<Rightarrow> int" where
  "my_b_tell info = int (pos_in_file info) + (int (current_pos info) - int (request_pos info))"

definition my_b_bytes_in_cache :: "'f io_cache \<Rightarrow> nat" where
  "my_b_bytes_in_cache info = current_end info - current_pos info"

definition my_b_get_bytes_in_buffer :: "'f io_cache \<Rightarrow> int" where
  "my_b_get_bytes_in_buffer info = int (read_end info) - int (request_pos info)"

section \<open>Reading\<close>

definition reader :: "'f io_cache \<Rightarrow> bool" where
  "reader info \<longleftrightarrow> read_pos info \<le> read_end info \<and> read_end info \<le> length (read_buffer info) \<and>
     request_pos info \<le> read_pos info \<and> cache_kind info = READ_CACHE"

text \<open>What the reader has not seen: the rest of the buffer, and what the file still has (\<open>rest\<close>).\<close>

definition unread :: "('f io_cache \<Rightarrow> buffer) \<Rightarrow> 'f io_cache \<Rightarrow> buffer" where
  "unread rest info = take (read_end info - read_pos info) (drop (read_pos info) (read_buffer info)) @ rest info"

text \<open>What is asked of the functions behind the pointers, as the comments of the header describe them: a read
  that reports success has delivered the next bytes of the stream, and moved the position by them; what the
  file has left depends on the state behind the pointers only.\<close>

definition delivers :: "('f io_cache \<Rightarrow> buffer) \<Rightarrow> 'f io_cache \<Rightarrow> buffer \<Rightarrow> 'f io_cache \<Rightarrow> bool" where
  "delivers rest info bs info' \<longleftrightarrow> reader info' \<and> unread rest info = bs @ unread rest info' \<and>
     my_b_tell info' = my_b_tell info + int (length bs)"

definition refills :: "('f io_cache \<Rightarrow> buffer) \<Rightarrow> 'f read_function \<Rightarrow> bool" where
  "refills rest rf \<longleftrightarrow> (\<forall>info n. reader info \<and> read_end info < read_pos info + n \<and> fst (rf n info) = 0 \<longrightarrow>
     length (fst (snd (rf n info))) = n \<and> delivers rest info (fst (snd (rf n info))) (snd (snd (rf n info))))"

definition gets_next :: "('f io_cache \<Rightarrow> buffer) \<Rightarrow> ('f io_cache \<Rightarrow> int \<times> 'f io_cache) \<Rightarrow> bool" where
  "gets_next rest gf \<longleftrightarrow> (\<forall>info. reader info \<and> read_pos info = read_end info \<and> fst (gf info) \<noteq> my_b_EOF \<longrightarrow>
     (\<exists>b. fst (gf info) = uint b \<and> delivers rest info [b] (snd (gf info))))"

definition behind :: "('f io_cache \<Rightarrow> buffer) \<Rightarrow> bool" where
  "behind rest \<longleftrightarrow> (\<forall>info k. rest (info\<lparr>read_pos := k\<rparr>) = rest info)"

lemma unread_step:
  assumes "behind rest" "reader info" "read_pos info + n \<le> read_end info"
  shows "unread rest info = take n (drop (read_pos info) (read_buffer info)) @ unread rest (info\<lparr>read_pos := read_pos info + n\<rparr>)"
proof -
  have "take (read_end info - read_pos info) (drop (read_pos info) (read_buffer info)) =
     take (n + (read_end info - (read_pos info + n))) (drop (read_pos info) (read_buffer info))" using assms(3) by simp
  then show ?thesis
    using assms(1) by (simp add: unread_def behind_def take_add drop_drop add.commute)
qed

lemma read_delivers:
  assumes "behind rest" "refills rest rf" "reader info" "my_b_read rf n info = (0, bs, info')"
  shows "length bs = n \<and> delivers rest info bs info'"
proof (cases "read_pos info + n \<le> read_end info")
  case True
  with assms(3,4) have bs: "bs = take n (drop (read_pos info) (read_buffer info))" "info' = info\<lparr>read_pos := read_pos info + n\<rparr>"
    by (auto simp: my_b_read_def)
  with True assms(3) have "length bs = n" by (auto simp: reader_def)
  moreover have "reader info'" using True assms(3) bs(2) by (simp add: reader_def)
  moreover have "my_b_tell info' = my_b_tell info + int n"
    using assms(3) bs(2) by (simp add: my_b_tell_def current_pos_def reader_def)
  ultimately show ?thesis using unread_step [OF assms(1,3) True] bs by (simp add: delivers_def)
next
  case False
  then have "rf n info = (0, bs, info')" using assms(4) by (simp add: my_b_read_def)
  with assms(2,3) False show ?thesis by (auto simp: refills_def dest!: spec [of _ info] spec [of _ n])
qed

lemma get_delivers:
  assumes "behind rest" "gets_next rest gf" "reader info" "my_b_get gf info = (c, info')" "c \<noteq> my_b_EOF"
  shows "\<exists>b. c = uint b \<and> delivers rest info [b] info'"
proof (cases "read_pos info = read_end info")
  case True
  with assms(4) have "gf info = (c, info')" by (simp add: my_b_get_def)
  with assms(2,3,5) True show ?thesis by (auto simp: gets_next_def dest!: spec [of _ info])
next
  case False
  with assms(3) have n: "read_pos info + 1 \<le> read_end info" "read_pos info < length (read_buffer info)"
    by (auto simp: reader_def)
  let ?b = "read_buffer info ! read_pos info"
  have "my_b_read (\<lambda>_ _. (1, [], info)) 1 info = (0, [?b], info\<lparr>read_pos := Suc (read_pos info)\<rparr>)"
    using n by (simp add: my_b_read_def Cons_nth_drop_Suc [symmetric])
  from read_delivers [OF assms(1) _ assms(3) this] have "delivers rest info [?b] (info\<lparr>read_pos := Suc (read_pos info)\<rparr>)"
    by (simp add: refills_def)
  moreover have "c = uint ?b" "info' = info\<lparr>read_pos := Suc (read_pos info)\<rparr>"
    using assms(4) False by (auto simp: my_b_get_def)
  ultimately show ?thesis by blast
qed

lemma delivers_Nil: "reader info \<Longrightarrow> delivers rest info [] info"
  by (simp add: delivers_def)

lemma delivers_append: "delivers rest info bs i1 \<Longrightarrow> delivers rest i1 cs i2 \<Longrightarrow> delivers rest info (bs @ cs) i2"
  by (simp add: delivers_def)

text \<open>A caller that reads blocks and single bytes, and stops at the first failure.\<close>

datatype read_request = Block nat | Byte

fun request_size :: "read_request \<Rightarrow> nat" where
  "request_size (Block n) = n"
| "request_size Byte = 1"

fun read_all ::
  "'f read_function \<Rightarrow> ('f io_cache \<Rightarrow> int \<times> 'f io_cache) \<Rightarrow> read_request list \<Rightarrow> 'f io_cache \<Rightarrow> (buffer \<times> 'f io_cache) option"
where
  "read_all rf gf [] info = Some ([], info)"
| "read_all rf gf (Block n # rs) info =
     (case my_b_read rf n info of (r, bs, info') \<Rightarrow>
        if r = 0 then map_option (\<lambda>(cs, i). (bs @ cs, i)) (read_all rf gf rs info') else None)"
| "read_all rf gf (Byte # rs) info =
     (case my_b_get gf info of (c, info') \<Rightarrow>
        if c \<noteq> my_b_EOF then map_option (\<lambda>(cs, i). (word_of_int c # cs, i)) (read_all rf gf rs info') else None)"

lemma read_all_delivers:
  assumes "behind rest" "refills rest rf" "gets_next rest gf"
  shows "reader info \<Longrightarrow> read_all rf gf rs info = Some (bs, info') \<Longrightarrow>
    length bs = sum_list (map request_size rs) \<and> delivers rest info bs info'"
proof (induction rs arbitrary: info bs)
  case Nil
  then show ?case by (simp add: delivers_Nil)
next
  case (Cons r rs)
  show ?case
  proof (cases r)
    case (Block n)
    with Cons.prems(2) obtain as cs i1 where run: "my_b_read rf n info = (0, as, i1)" "read_all rf gf rs i1 = Some (cs, info')"
        "bs = as @ cs" by (auto split: prod.splits if_splits)
    note first = read_delivers [OF assms(1,2) Cons.prems(1) run(1)]
    then have "reader i1" by (simp add: delivers_def)
    from Cons.IH [OF this run(2)] first run(3) Block delivers_append show ?thesis by auto
  next
    case Byte
    with Cons.prems(2) obtain c cs i1 where run: "my_b_get gf info = (c, i1)" "c \<noteq> my_b_EOF"
        "read_all rf gf rs i1 = Some (cs, info')" "bs = word_of_int c # cs" by (auto split: prod.splits if_splits)
    from get_delivers [OF assms(1,3) Cons.prems(1) run(1,2)] obtain b where
      b: "c = uint b" "delivers rest info [b] i1" by blast
    then have "reader i1" by (simp add: delivers_def)
    from Cons.IH [OF this run(3)] b run(4) Byte delivers_append [OF b(2), of cs info'] show ?thesis by simp
  qed
qed

section \<open>Writing\<close>

definition writer :: "'f io_cache \<Rightarrow> bool" where
  "writer info \<longleftrightarrow> write_pos info \<le> write_end info \<and> write_end info \<le> length (write_buffer info)"

definition written :: "('f io_cache \<Rightarrow> buffer) \<Rightarrow> 'f io_cache \<Rightarrow> buffer" where
  "written out info = out info @ take (write_pos info) (write_buffer info)"

definition takes_all :: "('f io_cache \<Rightarrow> buffer) \<Rightarrow> 'f write_function \<Rightarrow> bool" where
  "takes_all out wfun \<longleftrightarrow>
     (\<forall>info b k. out (info\<lparr>write_buffer := b, write_pos := k\<rparr>) = out info) \<and>
     (\<forall>info data. writer info \<and> write_end info < write_pos info + length data \<and> fst (wfun data info) = 0 \<longrightarrow>
        writer (snd (wfun data info)) \<and> written out (snd (wfun data info)) = written out info @ data)"

lemma write_appends:
  assumes "takes_all out wfun" "writer info" "my_b_write wfun data info = (0, info')"
  shows "writer info' \<and> written out info' = written out info @ data"
proof (cases "write_pos info + length data \<le> write_end info")
  case True
  with assms(2,3) have "info' = info\<lparr>write_buffer := take (write_pos info) (write_buffer info) @ data @
      drop (write_pos info + length data) (write_buffer info), write_pos := write_pos info + length data\<rparr>"
    by (simp add: my_b_write_def)
  moreover have "write_pos info \<le> length (write_buffer info)" using assms(2) by (simp add: writer_def)
  ultimately show ?thesis using True assms(1,2) by (auto simp: takes_all_def writer_def written_def)
next
  case False
  then have "wfun data info = (0, info')" using assms(3) by (simp add: my_b_write_def)
  with assms(1,2) False show ?thesis by (auto simp: takes_all_def dest!: spec [of _ info] spec [of _ data])
qed

fun write_all :: "'f write_function \<Rightarrow> buffer list \<Rightarrow> 'f io_cache \<Rightarrow> 'f io_cache option" where
  "write_all wfun [] info = Some info"
| "write_all wfun (d # ds) info =
     (case my_b_write wfun d info of (r, info') \<Rightarrow> if r = 0 then write_all wfun ds info' else None)"

lemma write_all_appends:
  assumes "takes_all out wfun"
  shows "writer info \<Longrightarrow> write_all wfun ds info = Some info' \<Longrightarrow>
    writer info' \<and> written out info' = written out info @ concat ds"
proof (induction ds arbitrary: info)
  case (Cons d ds)
  from Cons.prems(2) obtain i1 where run: "my_b_write wfun d info = (0, i1)" "write_all wfun ds i1 = Some info'"
    by (auto split: prod.splits if_splits)
  note first = write_appends [OF assms Cons.prems(1) run(1)]
  with Cons.IH [OF _ run(2)] show ?case by simp
qed simp

section \<open>Properties\<close>

text \<open>C40. Whatever mixture of \<open>my_b_read\<close> and \<open>my_b_get\<close> a caller uses, and however the buffer is refilled in
  between, the bytes it gets are the next bytes of the stream, in order and none twice, \<open>my_b_tell\<close> has
  moved by their number, and no read leaves the buffer.\<close>
theorem io_cache_reads_stream:
  assumes "behind rest" "refills rest rf" "gets_next rest gf" "reader info" "read_all rf gf rs info = Some (bs, info')"
  shows "length bs = sum_list (map request_size rs) \<and> unread rest info = bs @ unread rest info' \<and>
    my_b_tell info' = my_b_tell info + int (length bs) \<and> reader info'"
  using read_all_delivers [OF assms(1-3) assms(4,5)] unfolding delivers_def by blast

text \<open>A file that is a list of bytes, read without a buffer.\<close>

definition demo_read :: "buffer read_function" where
  "demo_read n info =
    (let u = unread backing info in
     if n \<le> length u
     then (0, take n u, info\<lparr>pos_in_file := pos_in_file info + (read_pos info - request_pos info) + n, read_pos := 0,
             read_end := 0, read_buffer := [], request_pos := 0, backing := drop n u\<rparr>)
     else (1, [], info))"

definition demo_get :: "buffer io_cache \<Rightarrow> int \<times> buffer io_cache" where
  "demo_get info = (case demo_read 1 info of (r, bs, info') \<Rightarrow> if r = 0 then (uint (hd bs), info') else (my_b_EOF, info))"

lemma demo_read_delivers:
  assumes "reader info" "fst (demo_read n info) = 0"
  shows "length (fst (snd (demo_read n info))) = n \<and>
    delivers backing info (fst (snd (demo_read n info))) (snd (snd (demo_read n info)))"
proof -
  define u where "u = unread backing info"
  let ?i = "info\<lparr>pos_in_file := pos_in_file info + (read_pos info - request_pos info) + n, read_pos := 0,
    read_end := 0, read_buffer := [], request_pos := 0, backing := drop n u\<rparr>"
  have le: "n \<le> length u" using assms(2) by (simp add: demo_read_def u_def Let_def split: if_splits)
  then have eq: "demo_read n info = (0, take n u, ?i)" by (simp add: demo_read_def u_def [symmetric] Let_def)
  have "unread backing ?i = drop n u" by (simp add: unread_def)
  then have "u = take n u @ unread backing ?i" by simp
  moreover have "reader ?i" using assms(1) by (simp add: reader_def)
  moreover have "my_b_tell ?i = my_b_tell info + int n"
    using assms(1) by (simp add: reader_def my_b_tell_def current_pos_def of_nat_diff)
  ultimately show ?thesis using le unfolding eq delivers_def u_def [symmetric] by simp
qed

lemma demo_refills: "behind backing" "refills backing demo_read" "gets_next backing demo_get"
proof -
  show "behind backing" by (simp add: behind_def)
  show "refills backing demo_read" unfolding refills_def using demo_read_delivers by blast
  show "gets_next backing demo_get" unfolding gets_next_def
  proof (intro allI impI)
    fix info :: "buffer io_cache"
    assume i: "reader info \<and> read_pos info = read_end info \<and> fst (demo_get info) \<noteq> my_b_EOF"
    then have ok: "fst (demo_read 1 info) = 0" by (auto simp: demo_get_def split: prod.splits if_splits)
    note d = demo_read_delivers [OF _ ok]
    obtain b where b: "fst (snd (demo_read 1 info)) = [b]"
      using d i by (metis One_nat_def length_0_conv length_Suc_conv)
    with ok have "fst (demo_get info) = uint b" "snd (demo_get info) = snd (snd (demo_read 1 info))"
      by (auto simp: demo_get_def split: prod.splits)
    with d i b show "\<exists>b. fst (demo_get info) = uint b \<and> delivers backing info [b] (snd (demo_get info))" by auto
  qed
qed

definition demo_cache :: "buffer io_cache" where
  "demo_cache = \<lparr>pos_in_file = 100, read_pos = 1, read_end = 3, read_buffer = [1, 2, 3], request_pos = 0,
     write_buffer = [], write_pos = 0, write_end = 0, cache_kind = READ_CACHE, backing = [4, 5, 6]\<rparr>"

theorem io_cache_reads_stream_witness:
  "\<exists>info'. read_all demo_read demo_get [Byte, Block 2, Byte] demo_cache = Some ([2, 3, 4, 5], info') \<and>
     my_b_tell info' = 105"
proof -
  have run: "read_all demo_read demo_get [Byte, Block 2, Byte] demo_cache =
      Some ([2, 3, 4, 5], the (map_option snd (read_all demo_read demo_get [Byte, Block 2, Byte] demo_cache)))"
    by (simp add: demo_cache_def my_b_get_def my_b_read_def demo_read_def demo_get_def unread_def my_b_EOF_def INT_MIN_def)
  have "reader demo_cache" "my_b_tell demo_cache = 101"
    by (simp_all add: reader_def demo_cache_def my_b_tell_def current_pos_def)
  with io_cache_reads_stream [OF demo_refills this(1) run] run show ?thesis by auto
qed

end
