(* ===== verification/Client_Macros.thy ===== *)
theory Client_Macros
  imports Byte_Order Prelude
begin

text \<open>
  Function-like macros of the headers of the MySQL client library that compute: the character classes of a
  character set (\<^verbatim>\<open>m_ctype.h\<close>), the types and flags of the fields of a result (\<^verbatim>\<open>mysql.h\<close>,
  \<^verbatim>\<open>mysql_com.h\<close>), the capabilities of a client and the session states (\<^verbatim>\<open>mysql_com.h\<close>), the text of
  an error of the client (\<^verbatim>\<open>errmsg.h\<close>), and the size of a decimal number (\<^verbatim>\<open>decimal.h\<close>).  The tables of a
  character set, its \<open>mbcharlen\<close> and the table \<open>client_errors\<close> lie in the binary library and are parameters.
\<close>

unbundle bit_operations_syntax

section \<open>Character classes\<close>

definition MY_U :: uchar where "MY_U = 0x01"
definition MY_L :: uchar where "MY_L = 0x02"
definition MY_NMR :: uchar where "MY_NMR = 0x04"
definition MY_SPC :: uchar where "MY_SPC = 0x08"
definition MY_PNT :: uchar where "MY_PNT = 0x10"
definition MY_CTR :: uchar where "MY_CTR = 0x20"
definition MY_B :: uchar where "MY_B = 0x40"
definition MY_X :: uchar where "MY_X = 0x80"

text \<open>The members of \<open>CHARSET_INFO\<close> that the macros below read.\<close>

record charset_info =
  ctype :: buffer
  to_lower :: buffer
  to_upper :: buffer
  mbmaxlenlen :: "32 word"
  mbcharlen :: "32 word \<Rightarrow> 32 word"

definition my_isascii :: "32 word \<Rightarrow> bool" where "my_isascii c \<longleftrightarrow> c AND NOT 0x7F = 0"
definition my_toascii :: "32 word \<Rightarrow> 32 word" where "my_toascii c = c AND 0x7F"
definition my_tocntrl :: "32 word \<Rightarrow> 32 word" where "my_tocntrl c = c AND 31"
definition my_toprint :: "32 word \<Rightarrow> 32 word" where "my_toprint c = c OR 64"

text \<open>\<open>((s)->ctype+1)[(uchar) (c)]\<close>: the conversion keeps the low eight bits of \<open>c\<close>.  \<open>None\<close> is a read outside
  the table.\<close>

definition class_of :: "charset_info \<Rightarrow> 32 word \<Rightarrow> uchar option" where
  "class_of s c = rd (ctype s) (1 + unat (ucast c :: uchar))"

definition has_class :: "uchar \<Rightarrow> charset_info \<Rightarrow> 32 word \<Rightarrow> bool option" where
  "has_class bits s c = map_option (\<lambda>k. k AND bits \<noteq> 0) (class_of s c)"

definition my_toupper :: "charset_info \<Rightarrow> 32 word \<Rightarrow> uchar option" where
  "my_toupper s c = rd (to_upper s) (unat (ucast c :: uchar))"
definition my_tolower :: "charset_info \<Rightarrow> 32 word \<Rightarrow> uchar option" where
  "my_tolower s c = rd (to_lower s) (unat (ucast c :: uchar))"

definition my_isalpha where "my_isalpha = has_class (MY_U OR MY_L)"
definition my_isupper where "my_isupper = has_class MY_U"
definition my_islower where "my_islower = has_class MY_L"
definition my_isdigit where "my_isdigit = has_class MY_NMR"
definition my_isxdigit where "my_isxdigit = has_class MY_X"
definition my_isalnum where "my_isalnum = has_class (MY_U OR MY_L OR MY_NMR)"
definition my_isspace where "my_isspace = has_class MY_SPC"
definition my_ispunct where "my_ispunct = has_class MY_PNT"
definition my_isprint where "my_isprint = has_class (MY_PNT OR MY_U OR MY_L OR MY_NMR OR MY_B)"
definition my_isgraph where "my_isgraph = has_class (MY_PNT OR MY_U OR MY_L OR MY_NMR)"
definition my_iscntrl where "my_iscntrl = has_class MY_CTR"

lemmas is_class_defs = my_isalpha_def my_isupper_def my_islower_def my_isdigit_def my_isxdigit_def
  my_isalnum_def my_isspace_def my_ispunct_def my_isprint_def my_isgraph_def my_iscntrl_def

definition my_isvar :: "charset_info \<Rightarrow> 32 word \<Rightarrow> bool option" where
  "my_isvar s c = do { a \<leftarrow> my_isalnum s c; Some (a \<or> c = 0x5F) }"

definition my_isvar_start :: "charset_info \<Rightarrow> 32 word \<Rightarrow> bool option" where
  "my_isvar_start s c = do { a \<leftarrow> my_isalpha s c; Some (a \<or> c = 0x5F) }"

text \<open>Whether the byte \<open>i\<close> can be the first of a character of several bytes; the argument of \<open>mbcharlen\<close> is a
  single byte, or the two leading bytes of gb18030 put together by \<open>my_mbcharlen_2\<close>.\<close>

definition my_mbcharlen :: "charset_info \<Rightarrow> 32 word \<Rightarrow> 32 word" where
  "my_mbcharlen s a = mbcharlen s a"

definition my_mbcharlen_2 :: "charset_info \<Rightarrow> 32 word \<Rightarrow> 32 word \<Rightarrow> 32 word" where
  "my_mbcharlen_2 s a b = mbcharlen s (push_bit 8 (a AND 0xFF) + (b AND 0xFF))"

definition my_ismb1st :: "charset_info \<Rightarrow> 32 word \<Rightarrow> bool" where
  "my_ismb1st s i \<longleftrightarrow> my_mbcharlen s i > 1 \<or> (mbmaxlenlen s = 2 \<and> my_mbcharlen s i = 0)"

lemma class_of_defined: "length (ctype s) = 257 \<Longrightarrow> class_of s c = Some (tl (ctype s) ! unat (ucast c :: uchar))"
  using unsigned_less [where ?'a = nat and w = "ucast c :: uchar"] by (cases "ctype s") (auto simp: class_of_def rd_def)

lemma has_class_or: "has_class (a OR b) s c = (do { x \<leftarrow> has_class a s c; y \<leftarrow> has_class b s c; Some (x \<or> y) })"
  by (cases "class_of s c") (auto simp: has_class_def bit.conj_disj_distrib or_eq_0_iff)

lemma has_class_mono: "has_class a s c = Some True \<Longrightarrow> has_class (a OR b) s c = Some True"
  by (cases "class_of s c") (auto simp: has_class_def bit.conj_disj_distrib or_eq_0_iff)

text \<open>The classes form the lattice their names promise, on every character set and every character, whether the
  character is given as a signed or an unsigned \<open>char\<close>.\<close>

theorem ctype_lattice:
  "my_isalpha s c = (do { u \<leftarrow> my_isupper s c; l \<leftarrow> my_islower s c; Some (u \<or> l) })"
  "my_isalnum s c = (do { a \<leftarrow> my_isalpha s c; d \<leftarrow> my_isdigit s c; Some (a \<or> d) })"
  "my_isgraph s c = (do { p \<leftarrow> my_ispunct s c; a \<leftarrow> my_isalnum s c; Some (p \<or> a) })"
  "my_isgraph s c = Some True \<Longrightarrow> my_isprint s c = Some True"
  "my_isvar_start s c = Some True \<Longrightarrow> my_isvar s c = Some True"
proof -
  show "my_isalpha s c = (do { u \<leftarrow> my_isupper s c; l \<leftarrow> my_islower s c; Some (u \<or> l) })"
    by (simp add: is_class_defs has_class_or)
  show alnum: "my_isalnum s c = (do { a \<leftarrow> my_isalpha s c; d \<leftarrow> my_isdigit s c; Some (a \<or> d) })"
    using has_class_or [of "MY_U OR MY_L" MY_NMR s c] by (simp add: is_class_defs or.assoc)
  show "my_isgraph s c = (do { p \<leftarrow> my_ispunct s c; a \<leftarrow> my_isalnum s c; Some (p \<or> a) })"
    using has_class_or [of MY_PNT "MY_U OR MY_L OR MY_NMR" s c] by (simp add: is_class_defs)
  show "my_isgraph s c = Some True \<Longrightarrow> my_isprint s c = Some True"
    using has_class_mono [of "MY_PNT OR MY_U OR MY_L OR MY_NMR" s c MY_B] by (simp add: is_class_defs or.assoc)
  show "my_isvar_start s c = Some True \<Longrightarrow> my_isvar s c = Some True"
    by (cases "class_of s c")
      (auto simp: my_isvar_def my_isvar_start_def is_class_defs has_class_def bit.conj_disj_distrib or_eq_0_iff)
qed

text \<open>A table of 257 classes is read inside its bounds for every argument, and its first entry, the class of
  \<open>EOF\<close>, is never read: \<open>EOF\<close> has the class of the byte 255.\<close>

theorem ctype_in_bounds:
  assumes "length (ctype s) = 257"
  shows "has_class bits s c = Some (tl (ctype s) ! unat (ucast c :: uchar) AND bits \<noteq> 0)"
    and "has_class bits s (- 1) = has_class bits s 0xFF"
    and "has_class bits (s\<lparr>ctype := k # tl (ctype s)\<rparr>) c = has_class bits s c"
proof -
  have "(ucast (- 1 :: 32 word) :: uchar) = ucast (0xFF :: 32 word)" by code_simp
  then show "has_class bits s (- 1) = has_class bits s 0xFF" by (simp only: has_class_def class_of_def)
qed (use assms in \<open>simp_all add: has_class_def class_of_defined\<close>)

lemma and_not_zero_iff: "(c :: 'a::len word) AND NOT m = 0 \<longleftrightarrow> c AND m = c"
  by (auto simp: bit_eq_iff bit_and_iff bit_not_iff)

theorem my_isascii_toascii: "my_isascii c \<longleftrightarrow> my_toascii c = c"
  by (simp only: my_isascii_def my_toascii_def and_not_zero_iff)

section \<open>Fields of a result\<close>

datatype enum_field_types =
    MYSQL_TYPE_DECIMAL | MYSQL_TYPE_TINY | MYSQL_TYPE_SHORT | MYSQL_TYPE_LONG | MYSQL_TYPE_FLOAT
     | MYSQL_TYPE_DOUBLE | MYSQL_TYPE_NULL | MYSQL_TYPE_TIMESTAMP | MYSQL_TYPE_LONGLONG | MYSQL_TYPE_INT24
     | MYSQL_TYPE_DATE | MYSQL_TYPE_TIME | MYSQL_TYPE_DATETIME | MYSQL_TYPE_YEAR | MYSQL_TYPE_NEWDATE
     | MYSQL_TYPE_VARCHAR | MYSQL_TYPE_BIT | MYSQL_TYPE_TIMESTAMP2 | MYSQL_TYPE_DATETIME2 | MYSQL_TYPE_TIME2
     | MYSQL_TYPE_NEWDECIMAL | MYSQL_TYPE_ENUM | MYSQL_TYPE_SET | MYSQL_TYPE_TINY_BLOB
     | MYSQL_TYPE_MEDIUM_BLOB | MYSQL_TYPE_LONG_BLOB | MYSQL_TYPE_BLOB | MYSQL_TYPE_VAR_STRING
     | MYSQL_TYPE_STRING | MYSQL_TYPE_GEOMETRY

fun field_type_code :: "enum_field_types \<Rightarrow> nat" where
  "field_type_code MYSQL_TYPE_DECIMAL = 0"
| "field_type_code MYSQL_TYPE_TINY = 1"
| "field_type_code MYSQL_TYPE_SHORT = 2"
| "field_type_code MYSQL_TYPE_LONG = 3"
| "field_type_code MYSQL_TYPE_FLOAT = 4"
| "field_type_code MYSQL_TYPE_DOUBLE = 5"
| "field_type_code MYSQL_TYPE_NULL = 6"
| "field_type_code MYSQL_TYPE_TIMESTAMP = 7"
| "field_type_code MYSQL_TYPE_LONGLONG = 8"
| "field_type_code MYSQL_TYPE_INT24 = 9"
| "field_type_code MYSQL_TYPE_DATE = 10"
| "field_type_code MYSQL_TYPE_TIME = 11"
| "field_type_code MYSQL_TYPE_DATETIME = 12"
| "field_type_code MYSQL_TYPE_YEAR = 13"
| "field_type_code MYSQL_TYPE_NEWDATE = 14"
| "field_type_code MYSQL_TYPE_VARCHAR = 15"
| "field_type_code MYSQL_TYPE_BIT = 16"
| "field_type_code MYSQL_TYPE_TIMESTAMP2 = 17"
| "field_type_code MYSQL_TYPE_DATETIME2 = 18"
| "field_type_code MYSQL_TYPE_TIME2 = 19"
| "field_type_code MYSQL_TYPE_NEWDECIMAL = 246"
| "field_type_code MYSQL_TYPE_ENUM = 247"
| "field_type_code MYSQL_TYPE_SET = 248"
| "field_type_code MYSQL_TYPE_TINY_BLOB = 249"
| "field_type_code MYSQL_TYPE_MEDIUM_BLOB = 250"
| "field_type_code MYSQL_TYPE_LONG_BLOB = 251"
| "field_type_code MYSQL_TYPE_BLOB = 252"
| "field_type_code MYSQL_TYPE_VAR_STRING = 253"
| "field_type_code MYSQL_TYPE_STRING = 254"
| "field_type_code MYSQL_TYPE_GEOMETRY = 255"

definition IS_NUM :: "enum_field_types \<Rightarrow> bool" where
  "IS_NUM t \<longleftrightarrow>
     (field_type_code t \<le> field_type_code MYSQL_TYPE_INT24 \<and> t \<noteq> MYSQL_TYPE_TIMESTAMP)
     \<or> t = MYSQL_TYPE_YEAR \<or> t = MYSQL_TYPE_NEWDECIMAL"

definition IS_LONGDATA :: "enum_field_types \<Rightarrow> bool" where
  "IS_LONGDATA t \<longleftrightarrow> field_type_code MYSQL_TYPE_TINY_BLOB \<le> field_type_code t
     \<and> field_type_code t \<le> field_type_code MYSQL_TYPE_STRING"

definition NOT_NULL_FLAG :: "32 word" where "NOT_NULL_FLAG = 1"
definition PRI_KEY_FLAG :: "32 word" where "PRI_KEY_FLAG = 2"
definition BLOB_FLAG :: "32 word" where "BLOB_FLAG = 16"

definition IS_PRI_KEY :: "32 word \<Rightarrow> bool" where "IS_PRI_KEY n \<longleftrightarrow> n AND PRI_KEY_FLAG \<noteq> 0"
definition IS_NOT_NULL :: "32 word \<Rightarrow> bool" where "IS_NOT_NULL n \<longleftrightarrow> n AND NOT_NULL_FLAG \<noteq> 0"
definition IS_BLOB :: "32 word \<Rightarrow> bool" where "IS_BLOB n \<longleftrightarrow> n AND BLOB_FLAG \<noteq> 0"

text \<open>The type of a column with the value \<open>NULL\<close> counts as a number, a bit field does not.\<close>

theorem field_types_classified:
  "IS_NUM t \<longleftrightarrow> t \<in> {MYSQL_TYPE_DECIMAL, MYSQL_TYPE_TINY, MYSQL_TYPE_SHORT, MYSQL_TYPE_LONG, MYSQL_TYPE_FLOAT,
     MYSQL_TYPE_DOUBLE, MYSQL_TYPE_NULL, MYSQL_TYPE_LONGLONG, MYSQL_TYPE_INT24, MYSQL_TYPE_YEAR,
     MYSQL_TYPE_NEWDECIMAL}"
  "IS_LONGDATA t \<longleftrightarrow> t \<in> {MYSQL_TYPE_TINY_BLOB, MYSQL_TYPE_MEDIUM_BLOB, MYSQL_TYPE_LONG_BLOB, MYSQL_TYPE_BLOB,
     MYSQL_TYPE_VAR_STRING, MYSQL_TYPE_STRING}"
  "\<not> (IS_NUM t \<and> IS_LONGDATA t)"
  by (cases t; simp add: IS_NUM_def IS_LONGDATA_def)+

lemma field_type_code_inverse:
  "i < 20 \<or> 246 \<le> i \<and> i < 256 \<longleftrightarrow> (\<exists>t. field_type_code t = i)"
proof
  assume "\<exists>t. field_type_code t = i"
  then obtain t where "field_type_code t = i" ..
  then show "i < 20 \<or> 246 \<le> i \<and> i < 256" by (cases t) auto
next
  assume "i < 20 \<or> 246 \<le> i \<and> i < 256"
  then have "i \<in> set ([0..<20] @ [246..<256])"
    by (simp only: set_append set_upt Un_iff atLeastLessThan_iff) arith
  also have "[0..<20] @ [246..<256] =
      map field_type_code [MYSQL_TYPE_DECIMAL, MYSQL_TYPE_TINY, MYSQL_TYPE_SHORT, MYSQL_TYPE_LONG, MYSQL_TYPE_FLOAT
      , MYSQL_TYPE_DOUBLE, MYSQL_TYPE_NULL, MYSQL_TYPE_TIMESTAMP, MYSQL_TYPE_LONGLONG, MYSQL_TYPE_INT24
      , MYSQL_TYPE_DATE, MYSQL_TYPE_TIME, MYSQL_TYPE_DATETIME, MYSQL_TYPE_YEAR, MYSQL_TYPE_NEWDATE
      , MYSQL_TYPE_VARCHAR, MYSQL_TYPE_BIT, MYSQL_TYPE_TIMESTAMP2, MYSQL_TYPE_DATETIME2, MYSQL_TYPE_TIME2
      , MYSQL_TYPE_NEWDECIMAL, MYSQL_TYPE_ENUM, MYSQL_TYPE_SET, MYSQL_TYPE_TINY_BLOB, MYSQL_TYPE_MEDIUM_BLOB
      , MYSQL_TYPE_LONG_BLOB, MYSQL_TYPE_BLOB, MYSQL_TYPE_VAR_STRING, MYSQL_TYPE_STRING, MYSQL_TYPE_GEOMETRY]" by code_simp
  finally show "\<exists>t. field_type_code t = i" unfolding set_map by blast
qed

section \<open>Capabilities of a client\<close>

type_synonym capabilities = "64 word"   \<comment> \<open>\<open>unsigned long\<close>\<close>

definition CLIENT_LONG_PASSWORD :: capabilities where "CLIENT_LONG_PASSWORD = 1"
definition CLIENT_FOUND_ROWS :: capabilities where "CLIENT_FOUND_ROWS = 2"
definition CLIENT_LONG_FLAG :: capabilities where "CLIENT_LONG_FLAG = 4"
definition CLIENT_CONNECT_WITH_DB :: capabilities where "CLIENT_CONNECT_WITH_DB = 8"
definition CLIENT_NO_SCHEMA :: capabilities where "CLIENT_NO_SCHEMA = 16"
definition CLIENT_COMPRESS :: capabilities where "CLIENT_COMPRESS = 32"
definition CLIENT_ODBC :: capabilities where "CLIENT_ODBC = 64"
definition CLIENT_LOCAL_FILES :: capabilities where "CLIENT_LOCAL_FILES = 128"
definition CLIENT_IGNORE_SPACE :: capabilities where "CLIENT_IGNORE_SPACE = 256"
definition CLIENT_PROTOCOL_41 :: capabilities where "CLIENT_PROTOCOL_41 = 512"
definition CLIENT_INTERACTIVE :: capabilities where "CLIENT_INTERACTIVE = 1024"
definition CLIENT_SSL :: capabilities where "CLIENT_SSL = 2048"
definition CLIENT_IGNORE_SIGPIPE :: capabilities where "CLIENT_IGNORE_SIGPIPE = 4096"
definition CLIENT_TRANSACTIONS :: capabilities where "CLIENT_TRANSACTIONS = 8192"
definition CLIENT_RESERVED :: capabilities where "CLIENT_RESERVED = 16384"
definition CLIENT_RESERVED2 :: capabilities where "CLIENT_RESERVED2 = 32768"
definition CLIENT_MULTI_STATEMENTS :: capabilities where "CLIENT_MULTI_STATEMENTS = push_bit 16 1"
definition CLIENT_MULTI_RESULTS :: capabilities where "CLIENT_MULTI_RESULTS = push_bit 17 1"
definition CLIENT_PS_MULTI_RESULTS :: capabilities where "CLIENT_PS_MULTI_RESULTS = push_bit 18 1"
definition CLIENT_PLUGIN_AUTH :: capabilities where "CLIENT_PLUGIN_AUTH = push_bit 19 1"
definition CLIENT_CONNECT_ATTRS :: capabilities where "CLIENT_CONNECT_ATTRS = push_bit 20 1"
definition CLIENT_PLUGIN_AUTH_LENENC_CLIENT_DATA :: capabilities where "CLIENT_PLUGIN_AUTH_LENENC_CLIENT_DATA = push_bit 21 1"
definition CLIENT_CAN_HANDLE_EXPIRED_PASSWORDS :: capabilities where "CLIENT_CAN_HANDLE_EXPIRED_PASSWORDS = push_bit 22 1"
definition CLIENT_SESSION_TRACK :: capabilities where "CLIENT_SESSION_TRACK = push_bit 23 1"
definition CLIENT_DEPRECATE_EOF :: capabilities where "CLIENT_DEPRECATE_EOF = push_bit 24 1"
definition CLIENT_SSL_VERIFY_SERVER_CERT :: capabilities where "CLIENT_SSL_VERIFY_SERVER_CERT = push_bit 30 1"
definition CLIENT_REMEMBER_OPTIONS :: capabilities where "CLIENT_REMEMBER_OPTIONS = push_bit 31 1"

definition CLIENT_ALL_FLAGS :: capabilities where
  "CLIENT_ALL_FLAGS =
     CLIENT_LONG_PASSWORD OR CLIENT_FOUND_ROWS OR CLIENT_LONG_FLAG OR CLIENT_CONNECT_WITH_DB
      OR CLIENT_NO_SCHEMA OR CLIENT_COMPRESS OR CLIENT_ODBC OR CLIENT_LOCAL_FILES OR CLIENT_IGNORE_SPACE
      OR CLIENT_PROTOCOL_41 OR CLIENT_INTERACTIVE OR CLIENT_SSL OR CLIENT_IGNORE_SIGPIPE
      OR CLIENT_TRANSACTIONS OR CLIENT_RESERVED OR CLIENT_RESERVED2 OR CLIENT_MULTI_STATEMENTS
      OR CLIENT_MULTI_RESULTS OR CLIENT_PS_MULTI_RESULTS OR CLIENT_SSL_VERIFY_SERVER_CERT
      OR CLIENT_REMEMBER_OPTIONS OR CLIENT_PLUGIN_AUTH OR CLIENT_CONNECT_ATTRS
      OR CLIENT_PLUGIN_AUTH_LENENC_CLIENT_DATA OR CLIENT_CAN_HANDLE_EXPIRED_PASSWORDS
      OR CLIENT_SESSION_TRACK OR CLIENT_DEPRECATE_EOF"

definition CLIENT_BASIC_FLAGS :: capabilities where
  "CLIENT_BASIC_FLAGS =
     ((CLIENT_ALL_FLAGS AND NOT CLIENT_SSL) AND NOT CLIENT_COMPRESS) AND NOT CLIENT_SSL_VERIFY_SERVER_CERT"

text \<open>\<open>CAN_CLIENT_COMPRESS\<close>, with \<open>HAVE_COMPRESS\<close> of the build.\<close>

definition CAN_CLIENT_COMPRESS :: "bool \<Rightarrow> capabilities" where
  "CAN_CLIENT_COMPRESS have_compress = (if have_compress then CLIENT_COMPRESS else 0)"

text \<open>No two capabilities share a bit; the basic capabilities are all of them but the three that depend on the
  build, and switching those on again gives every capability.\<close>

theorem capabilities_disjoint:
  "sum_list (map uint
     [CLIENT_LONG_PASSWORD, CLIENT_FOUND_ROWS, CLIENT_LONG_FLAG, CLIENT_CONNECT_WITH_DB, CLIENT_NO_SCHEMA
      , CLIENT_COMPRESS, CLIENT_ODBC, CLIENT_LOCAL_FILES, CLIENT_IGNORE_SPACE, CLIENT_PROTOCOL_41
      , CLIENT_INTERACTIVE, CLIENT_SSL, CLIENT_IGNORE_SIGPIPE, CLIENT_TRANSACTIONS, CLIENT_RESERVED
      , CLIENT_RESERVED2, CLIENT_MULTI_STATEMENTS, CLIENT_MULTI_RESULTS, CLIENT_PS_MULTI_RESULTS
      , CLIENT_SSL_VERIFY_SERVER_CERT, CLIENT_REMEMBER_OPTIONS, CLIENT_PLUGIN_AUTH, CLIENT_CONNECT_ATTRS
      , CLIENT_PLUGIN_AUTH_LENENC_CLIENT_DATA, CLIENT_CAN_HANDLE_EXPIRED_PASSWORDS, CLIENT_SESSION_TRACK
      , CLIENT_DEPRECATE_EOF])
   = uint CLIENT_ALL_FLAGS"
  by code_simp

theorem basic_capabilities:
  "CLIENT_BASIC_FLAGS AND (CLIENT_SSL OR CLIENT_COMPRESS OR CLIENT_SSL_VERIFY_SERVER_CERT) = 0"
  "CLIENT_BASIC_FLAGS OR CLIENT_SSL OR CLIENT_COMPRESS OR CLIENT_SSL_VERIFY_SERVER_CERT = CLIENT_ALL_FLAGS"
  "CLIENT_BASIC_FLAGS OR CAN_CLIENT_COMPRESS True = CLIENT_BASIC_FLAGS + CLIENT_COMPRESS"
  by code_simp+

section \<open>Session states\<close>

definition SESSION_TRACK_SYSTEM_VARIABLES :: int where "SESSION_TRACK_SYSTEM_VARIABLES = 0"
definition SESSION_TRACK_SCHEMA :: int where "SESSION_TRACK_SCHEMA = 1"
definition SESSION_TRACK_STATE_CHANGE :: int where "SESSION_TRACK_STATE_CHANGE = 2"
definition SESSION_TRACK_BEGIN :: int where "SESSION_TRACK_BEGIN = SESSION_TRACK_SYSTEM_VARIABLES"
definition SESSION_TRACK_END :: int where "SESSION_TRACK_END = SESSION_TRACK_STATE_CHANGE"

definition IS_SESSION_STATE_TYPE :: "int \<Rightarrow> bool" where
  "IS_SESSION_STATE_TYPE T \<longleftrightarrow> T \<ge> SESSION_TRACK_BEGIN \<and> T \<le> SESSION_TRACK_END"

lemma session_state_types:
  "IS_SESSION_STATE_TYPE T \<longleftrightarrow>
     T \<in> {SESSION_TRACK_SYSTEM_VARIABLES, SESSION_TRACK_SCHEMA, SESSION_TRACK_STATE_CHANGE}"
  by (auto simp: IS_SESSION_STATE_TYPE_def SESSION_TRACK_BEGIN_def SESSION_TRACK_END_def
      SESSION_TRACK_SYSTEM_VARIABLES_def SESSION_TRACK_SCHEMA_def SESSION_TRACK_STATE_CHANGE_def)

section \<open>The text of an error of the client\<close>

definition CR_ERROR_FIRST :: int where "CR_ERROR_FIRST = 2000"
definition CR_UNKNOWN_ERROR :: int where "CR_UNKNOWN_ERROR = 2000"
definition CR_ERROR_LAST :: int where "CR_ERROR_LAST = 2061"

definition array_at :: "'a list \<Rightarrow> int \<Rightarrow> 'a res" where
  "array_at a i = (if 0 \<le> i \<and> i < int (length a) then Ret (a ! nat i) else Fail OutOfBounds)"

definition ER :: "string list \<Rightarrow> int \<Rightarrow> string res" where
  "ER client_errors X =
     (if X \<ge> CR_ERROR_FIRST \<and> X \<le> CR_ERROR_LAST then array_at client_errors (X - CR_ERROR_FIRST)
      else array_at client_errors CR_UNKNOWN_ERROR)"

text \<open>With a table that has a text for each error number of the client and at most 2000 entries, a known number
  gives its text, and any other reads entry 2000 of the table, past its end: \<open>CR_UNKNOWN_ERROR\<close> is the number of
  an error and not an index.\<close>

theorem ER_unknown_out_of_bounds:
  assumes "CR_ERROR_LAST - CR_ERROR_FIRST < int (length client_errors)" "length client_errors \<le> 2000"
  shows "ER client_errors X =
    (if 2000 \<le> X \<and> X \<le> 2061 then Ret (client_errors ! nat (X - 2000)) else Fail OutOfBounds)"
  using assms by (auto simp: ER_def array_at_def CR_ERROR_FIRST_def CR_ERROR_LAST_def CR_UNKNOWN_ERROR_def)

theorem ER_unknown_out_of_bounds_witness:
  "ER (replicate 62 ''text'') 2061 = Ret ''text'' \<and> ER (replicate 62 ''text'') 1045 = Fail OutOfBounds"
  using ER_unknown_out_of_bounds [of "replicate 62 ''text''" 2061]
    ER_unknown_out_of_bounds [of "replicate 62 ''text''" 1045]
  by (simp add: CR_ERROR_FIRST_def CR_ERROR_LAST_def)

section \<open>Decimal numbers\<close>

record decimal_t =
  intg :: int
  frac :: int
  dlen :: int
  dsign :: uchar
  dbuf :: "int list"

definition decimal_make_zero :: "decimal_t \<Rightarrow> decimal_t res" where
  "decimal_make_zero dec =
     (if dbuf dec = [] then Fail OutOfBounds
      else Ret (dec\<lparr>dbuf := (dbuf dec)[0 := 0], intg := 1, frac := 0, dsign := 0\<rparr>))"

text \<open>The additions of \<open>decimal_string_size\<close> are of type \<open>int\<close>, from left to right.\<close>

definition decimal_string_size :: "decimal_t \<Rightarrow> int res" where
  "decimal_string_size dec =
     bindR (to_int32 ((if intg dec \<noteq> 0 then intg dec else 1) + frac dec)) (\<lambda>a.
     bindR (to_int32 (a + (if frac dec > 0 then 1 else 0))) (\<lambda>b.
     to_int32 (b + 2)))"

definition decimal_neg :: "decimal_t \<Rightarrow> decimal_t" where
  "decimal_neg dec = dec\<lparr>dsign := dsign dec XOR 1\<rparr>"

text \<open>What the size is for, by the comment on the macro: a sign when the number is negative, the digits before
  the point or a single zero, the point and the digits after it when there are any, and the final NUL.\<close>

definition decimal_text :: "bool \<Rightarrow> string \<Rightarrow> string \<Rightarrow> string" where
  "decimal_text negative ip fp =
     (if negative then ''-'' else []) @ (if ip = [] then ''0'' else ip)
     @ (if fp = [] then [] else ''.'' @ fp) @ [CHR 0x00]"

theorem decimal_text_fits:
  assumes "intg dec = int (length ip)" "frac dec = int (length fp)" "intg dec + frac dec \<le> INT_MAX - 4"
  shows "\<exists>n. decimal_string_size dec = Ret n \<and> int (length (decimal_text negative ip fp)) \<le> n
    \<and> (negative \<longrightarrow> int (length (decimal_text negative ip fp)) = n)"
  using assms
  by (auto simp: decimal_string_size_def decimal_text_def INT_MAX_def INT_MIN_def)

lemma decimal_string_size_overflow:
  "intg dec = INT_MAX \<Longrightarrow> frac dec = 0 \<Longrightarrow> decimal_string_size dec = Fail IntOverflow"
  by (simp add: decimal_string_size_def to_int32_def INT_MAX_def INT_MIN_def)

lemma decimal_neg_involution: "decimal_neg (decimal_neg dec) = dec"
  by (simp add: decimal_neg_def xor.assoc)

lemma decimal_zero_size:
  "decimal_make_zero dec = Ret z \<Longrightarrow> decimal_string_size z = Ret 3 \<and> dsign (decimal_neg z) = 1"
  by (auto simp: decimal_make_zero_def decimal_string_size_def decimal_neg_def to_int32_def INT_MAX_def INT_MIN_def
      split: if_splits)

end
