(* ===== verification/Spec2Isabelle.thy ===== *)
theory Spec2Isabelle
  imports Server_Http Server_Epoll Race_Sign_Out Session Console Mysql_Db Cgi_Programs PSI_Socket PSI_File PSI_Thread PSI_Statement Byte_Order My_Inline IO_Cache Client_Macros
begin

text \<open>
  A model of Face_perception: an attendance register behind two small HTTP servers, with its
  clients, CGI programs and database wrapper, and of the inline code of the MySQL headers that the
  repository carries.

  \<^bold>\<open>The program.\<close>  \<^verbatim>\<open>server/server_http.cpp\<close> accepts connections and starts a thread for each;
  \<^verbatim>\<open>server/server_http.h\<close> (\<open>class server_http\<close>) reads the request line, takes it apart, and answers it
  with a file or, for a POST and for a URL with a query, first signs the person of the query in or
  out (\<open>send_vector\<close>) and then runs the file as a CGI program (\<open>exec_cgi\<close>).  \<^verbatim>\<open>server/server.cpp\<close> and
  \<^verbatim>\<open>server/server.h\<close> are a second server, on epoll, that answers files only.  \<^verbatim>\<open>client/\<close> holds two
  command line clients, \<^verbatim>\<open>cgi_bin/\<close> two CGI programs, \<^verbatim>\<open>mysql/mysql.h\<close> the class that writes rows to
  the database and reads them back.  \<^verbatim>\<open>mysql/mysql_lib/include\<close> are the headers of MySQL 5.7.

  \<^bold>\<open>Outcomes.\<close>  A function that can fail, abort or not come back has the result type \<open>'a res\<close> of
  \<open>Prelude\<close>: \<open>Ret\<close>, \<open>Fail\<close> with a fault (failed assertion, access outside an object, null pointer,
  overflow, \<open>exit\<close>, signal) or \<open>Hang\<close>.  A loop that need not end is a \<open>partial_function (option)\<close>,
  and \<open>Hang\<close> is then a value about which theorems speak; no model of the servers uses fuel.  The
  programs of the instrumented calls are cut off after \<open>n\<close> calls, and the theorems hold for every
  \<open>n\<close>.

  \<^bold>\<open>The theories, from the bottom up.\<close>
  \<^item> \<open>Comm\<close>: the constants of \<^verbatim>\<open>comm/comm.h\<close> and \<^verbatim>\<open>server/server.h\<close>.  \<open>CString\<close>: buffers of
    characters, checked reads and writes, and the functions of \<^verbatim>\<open>string.h\<close> and \<^verbatim>\<open>stdlib.h\<close> in use.
  \<^item> \<open>World\<close>: files, the table of descriptors (sockets with what is still to be read, what was sent,
    and how much a non-blocking socket still takes; pipes; open files), and the system calls on it.
  \<^item> \<open>Line_Reader\<close>: both \<open>get_line\<close> functions and the loop that skips a header.  What a line costs,
    what it returns, when it never returns, and what it writes past its buffer.  Locale
    \<open>line_reader\<close>, interpreted for both functions.
  \<^item> \<open>Request\<close>: \<open>get_comm\<close>, \<open>get_method\<close>, \<open>get_url\<close>, \<open>get_treaty\<close>, \<open>get_path_method_query\<close>, and
    \<open>get_method_path_url\<close> of the epoll server.  Every request line that fits is split as specified.
  \<^item> \<open>Query\<close>: \<open>get_string\<close> and the loop of \<open>recv_str\<close> (\<^verbatim>\<open>show.cpp\<close>), locale \<open>query_parser\<close>, and that
    both read the same name and number.
  \<^item> \<open>Calendar\<close>: \<open>localtime\<close>, \<open>mktime\<close> and \<open>strftime\<close> as used (locale \<open>libc_time\<close>).
  \<^item> \<open>Attendance\<close>: \<open>user_node\<close>, the vector and its size, \<open>find_id\<close>, \<open>calculat_work_time\<close>,
    \<open>int_to_string\<close>, \<open>get_total_string\<close>, the two branches of \<open>send_vector\<close>, the printed table.
  \<^item> \<open>Register\<close>: the abstract register, the invariant of the server, the refinement of \<open>send_vector\<close>,
    what a history of sign-ins leaves behind (locale \<open>attendance_register\<close>), termination, the lock.
  \<^item> \<open>Race\<close>: sign-ins in several threads, one step for taking the mutex, one for each locked section of
    the handler (those of \<open>get_string\<close>, \<open>get_time\<close>, \<open>find_id\<close>, \<open>get_total_string\<close> and \<open>int_to_string\<close>, the
    empty one and the one of \<open>push_back\<close>), and one for each access to the shared vector outside of them,
    \<open>show\<close> included, with iterators that a full vector invalidates.  \<open>act\<close> is the step of one thread, the
    inductive relation \<open>step\<close> lets any thread move.  Mutual exclusion over all sections, what the vector
    can say of the people, and that every interleaving ends with no thread left waiting unless one became
    undefined inside a section.  \<open>Race_Runs\<close>: threads that run one after the other do what the sequential
    handlers do (such a run exists, and every one gives their result), and the runs that go wrong: a
    lost sign-in, a person entered twice, a wrong arrival, an invalid iterator in the search or in \<open>show\<close>.
    \<open>Race_Sign_Out\<close>: what concurrent sign-outs of different people leave behind.
  \<^item> \<open>Static_File\<close>: \<open>send_header\<close>, \<open>exec_get_file\<close>, \<open>exec_get\<close> of both servers (locale
    \<open>file_server\<close>).  \<open>Cgi\<close>: \<open>clear_head\<close> and \<open>exec_cgi\<close> with pipes of 65536 bytes, child and environment,
    also when no descriptors are left for the pipes and when the child crashes; the CGI program itself is
    a parameter, with the way it uses its input.
  \<^item> \<open>Server_Http\<close>: \<open>exec_post\<close>, \<open>Accept\<close>, \<open>accept_request\<close>, \<open>get_sock\<close> and the loop of \<open>main\<close>, from
    the bytes of a connection to the bytes of the answer, for requests of files, sign-ins and posted
    forms (lemma \<open>serve_answered\<close> carries a history of visits of any kind).  \<open>Server_Epoll\<close>: the same for the epoll
    server, with both trigger modes.
  \<^item> \<open>Session\<close>: the clients in front of the servers, from the keys pressed to the register and to the
    file, and what becomes of the same session at either server, where calls of \<open>recv\<close> on the socket of
    the epoll server, which does not block, may fail between any two bytes.  \<open>Console\<close>: the log of a request.
  \<^item> \<open>Client\<close>, \<open>Mysql_Db\<close>, \<open>Cgi_Programs\<close>: \<^verbatim>\<open>client/\<close>; \<open>class Mysql\<close>, \<^verbatim>\<open>mysql.cpp\<close> and
    \<^verbatim>\<open>data_base_show.cpp\<close>; \<^verbatim>\<open>show.cpp\<close>.
  \<^item> \<open>PSI\<close>, \<open>PSI_Socket\<close>, \<open>PSI_File\<close>, \<open>PSI_Thread\<close>: the instrumented calls of \<^verbatim>\<open>mysql_socket.h\<close>,
    \<^verbatim>\<open>mysql_file.h\<close> and \<^verbatim>\<open>mysql_thread.h\<close>, one definition per inline function.  The performance
    schema is a parameter, a function of the history of its calls; so are the native calls.  The
    locale \<open>instrumented\<close> states the contract of such a family, and is interpreted for each: a
    program gets the results of the native calls, and every granted locker is closed once.  The one
    exception is \<open>accept\<close> with a length pointer, to which the wrapper stores nothing.
    Beyond it: sockets are well formed, lockers are told what was transferred, \<open>fopen\<close> and \<open>fclose\<close>
    leave no block behind, and the service is only asked about instruments that are alive.
  \<^item> \<open>PSI_Statement\<close>: the headers of statements, transactions, stages, table locks, idle waits,
    metadata locks, stored programs, prepared statements and memory.  The caller keeps what was
    granted in variables; the locale \<open>life_calls\<close> states the contract of such calls, and gives for
    every script that the typing of its variables allows that each granted thing is started, used
    and ended as it should be.
  \<^item> \<open>Byte_Order\<close>: \<^verbatim>\<open>my_byteorder.h\<close> and the headers it selects from, on \<open>w word\<close> values: round
    trips, and agreement of the portable, the x86 and the big-endian routines.  \<open>My_Inline\<close>: the two
    forms of \<open>skip_trailing_space\<close> against the plain loop, the arithmetic on \<open>timespec\<close>, alignment.
    \<open>IO_Cache\<close>: the inlined reads and writes of \<^verbatim>\<open>my_sys.h\<close> against a stream of bytes; what lies
    behind the function pointers is a parameter.  \<open>Client_Macros\<close>: character classes, types and flags of
    fields, the capabilities of a client, the text of an error, the size of a decimal number; the tables
    of the character sets and of the error texts are parameters.

  \<^bold>\<open>Assumptions of the model.\<close>  A blocking \<open>send\<close> or \<open>sendfile\<close> takes everything; a non-blocking one
  takes what there is room for.  The loop of \<open>Server_Http\<close> handles one connection at a time (the
  interleaving of the threads is the subject of \<open>Race\<close>).  The clock, the answers of \<open>pthread_create\<close>
  and of the peer, the contents of fresh memory, and the CGI program are arguments.  The memory of
  the threads of \<open>Race\<close> is sequentially consistent, and a thread is interrupted only between the steps listed
  there: the comparison of one node with the own, the writing of one time, the addition of the working
  time, the reading of one number, of the strings of one node or of one row of the table, and a locked section are one step
  each.  A thread that has used an invalid iterator does nothing more, and keeps the mutex if it has it.
  A thread of the epoll server starts with a byte to read.  A CGI program that \<open>ReadsOnDemand\<close> takes what is
  written into its pipe while the server writes.  \<open>accept\<close> with a null address ignores the length.  Of
  \<open>free\<close> on a result of the database library nothing is assumed.  Pointers, \<open>size_t\<close> and \<open>long\<close> have 32 bits, as
  \<^verbatim>\<open>my_config.h\<close> says.

  \<^bold>\<open>Not modelled.\<close>  Progress messages on standard output that nothing reads (the tables and the lines
  about which a theorem speaks are modelled); the MySQL client library,
  of which the repository has declarations only: what \<open>class Mysql\<close> calls of it is a parameter of
  \<open>Mysql_Db\<close>; the types and function pointers \<^verbatim>\<open>psi.h\<close> declares, the
  \<open>SAFE_MUTEX\<close> and Windows variants of the wrappers, the inline functions that only rename a call of
  the C library, and the \<open>char *\<close> overloads of the byte order functions, which only cast; the tables
  of error numbers, messages and SQL states, which are generated and which nothing in the repository
  reads.
\<close>

end
